(* ===== verification/Go_Prelude.thy ===== *)
theory Go_Prelude
  imports Main "HOL-Library.Sublist"
begin

text \<open>
  Shared vocabulary of the development: Go's \<open>int64\<close> arithmetic with its wrap-around, the
  operations of the packages \<open>strings\<close>, \<open>path\<close> and \<open>strconv\<close> that the backend calls, and
  the generic facts about them that the component theories share. A Go string is a byte
  string, so it is a \<^typ>\<open>string\<close> (a list of 8-bit characters), and lengths count bytes.
\<close>

section \<open>Machine integers\<close>

type_synonym int64 = int

text \<open>Every \<open>int64\<close> operation of the model writes its wrap-around out with \<open>i64\<close>.\<close>

definition i64 :: "int \<Rightarrow> int64" where
  "i64 x = (x + 2 ^ 63) mod 2 ^ 64 - 2 ^ 63"

definition in_i64 :: "int \<Rightarrow> bool" where
  "in_i64 x \<longleftrightarrow> - (2 ^ 63) \<le> x \<and> x < 2 ^ 63"

lemma i64_id [simp]: "in_i64 x \<Longrightarrow> i64 x = x"
  by (simp add: in_i64_def i64_def)

lemma in_i64_i64 [simp, intro]: "in_i64 (i64 x)"
  by (simp add: in_i64_def i64_def)

lemma in_i64_between: "in_i64 a \<Longrightarrow> in_i64 b \<Longrightarrow> a \<le> x \<Longrightarrow> x \<le> b \<Longrightarrow> in_i64 x"
  by (simp add: in_i64_def)

lemma in_i64_0 [simp]: "in_i64 0" and in_i64_1 [simp]: "in_i64 1"
  by (simp_all add: in_i64_def)

text \<open>Go's integer division truncates towards zero.\<close>

definition quot :: "int64 \<Rightarrow> int64 \<Rightarrow> int64" where
  "quot a b = i64 (sgn a * sgn b * (\<bar>a\<bar> div \<bar>b\<bar>))"

lemma quot_nonneg:
  assumes "0 \<le> a" and "0 < b" and "in_i64 a"
  shows "quot a b = a div b"
proof -
  have "0 \<le> a div b" and "a div b \<le> a"
    using assms zdiv_mono2 [of a 1 b] by (simp_all add: pos_imp_zdiv_nonneg_iff)
  then have "in_i64 (a div b)"
    using assms(3) by (blast intro: in_i64_between in_i64_0)
  moreover have "sgn a * sgn b * (\<bar>a\<bar> div \<bar>b\<bar>) = a div b"
    using assms by (cases "a = 0") (simp_all add: sgn_if)
  ultimately show ?thesis by (simp add: quot_def)
qed

section \<open>Package strings\<close>

definition HasPrefix :: "string \<Rightarrow> string \<Rightarrow> bool" where
  "HasPrefix s p \<longleftrightarrow> prefix p s"

definition TrimPrefix :: "string \<Rightarrow> string \<Rightarrow> string" where
  "TrimPrefix s p = (if prefix p s then drop (length p) s else s)"

definition TrimLeft :: "char \<Rightarrow> string \<Rightarrow> string" where
  "TrimLeft c s = dropWhile (\<lambda>x. x = c) s"

definition TrimRight :: "char \<Rightarrow> string \<Rightarrow> string" where
  "TrimRight c s = rev (dropWhile (\<lambda>x. x = c) (rev s))"

definition Trim :: "char \<Rightarrow> string \<Rightarrow> string" where
  "Trim c s = TrimRight c (TrimLeft c s)"

text \<open>\<open>strings.LastIndex\<close> of a one-byte separator; \<open>None\<close> stands for Go's \<open>-1\<close>.\<close>

fun LastIndex :: "char \<Rightarrow> string \<Rightarrow> nat option" where
  "LastIndex c [] = None"
| "LastIndex c (x # xs) =
     (case LastIndex c xs of
        Some i \<Rightarrow> Some (Suc i)
      | None \<Rightarrow> if x = c then Some 0 else None)"

text \<open>\<open>strings.Split\<close> and \<open>strings.Join\<close> with a one-byte separator.\<close>

fun Split :: "char \<Rightarrow> string \<Rightarrow> string list" where
  "Split c [] = [[]]"
| "Split c (x # xs) =
     (if x = c then [] # Split c xs
      else (case Split c xs of [] \<Rightarrow> [[x]] | y # ys \<Rightarrow> (x # y) # ys))"

fun Join :: "char \<Rightarrow> string list \<Rightarrow> string" where
  "Join c [] = []"
| "Join c [x] = x"
| "Join c (x # y # ys) = x @ c # Join c (y # ys)"

text \<open>\<open>strings.Cut\<close> with a separator of any length; \<open>None\<close> when it does not occur.\<close>

fun Cut :: "string \<Rightarrow> string \<Rightarrow> (string \<times> string) option" where
  "Cut sep s =
     (if prefix sep s then Some ([], drop (length sep) s)
      else (case s of
              [] \<Rightarrow> None
            | x # xs \<Rightarrow> map_option (\<lambda>(a, b). (x # a, b)) (Cut sep xs)))"

declare Cut.simps [simp del]

lemma Split_nonempty [simp]: "Split c s \<noteq> []"
  by (cases "(c, s)" rule: Split.cases) (auto split: list.splits)

lemma length_Split_pos [simp]: "0 < length (Split c s)"
  by simp

lemma Join_Cons: "xs \<noteq> [] \<Longrightarrow> Join c (x # xs) = x @ c # Join c xs"
  by (cases xs) auto

lemma Join_Split [simp]: "Join c (Split c s) = s"
proof (induction s)
  case (Cons x s)
  then show ?case
    by (cases "Split c s") (auto simp: Join_Cons, cases "tl (Split c s)", auto)
qed simp

lemma Split_no_sep: "c \<notin> set s \<Longrightarrow> Split c s = [s]"
  by (induction s) auto

lemma Split_append_sep: "c \<notin> set x \<Longrightarrow> Split c (x @ c # s) = x # Split c s"
  by (induction x) auto

lemma Split_Join:
  assumes "xs \<noteq> []" and "\<forall>x \<in> set xs. c \<notin> set x"
  shows "Split c (Join c xs) = xs"
  using assms
  by (induction c xs rule: Join.induct) (simp_all add: Split_no_sep Split_append_sep)

lemma Split_components: "x \<in> set (Split c s) \<Longrightarrow> c \<notin> set x"
proof (induction s arbitrary: x)
  case (Cons a s)
  then show ?case
    by (cases "Split c s") (auto split: if_splits)
qed simp

lemma Join_append:
  "xs \<noteq> [] \<Longrightarrow> ys \<noteq> [] \<Longrightarrow> Join c (xs @ ys) = Join c xs @ c # Join c ys"
proof (induction xs)
  case (Cons x xs)
  then show ?case by (cases "xs = []") (simp_all add: Join_Cons)
qed simp

lemma LastIndex_None_iff [simp]: "LastIndex c s = None \<longleftrightarrow> c \<notin> set s"
  by (induction s) (auto split: option.splits)

lemma LastIndex_append_sep: "c \<notin> set b \<Longrightarrow> LastIndex c (a @ c # b) = Some (length a)"
proof (induction a)
  case Nil
  then show ?case by (simp split: option.splits)
qed simp

lemma LastIndex_SomeD:
  assumes "LastIndex c s = Some i"
  shows "i < length s \<and> s = take i s @ c # drop (Suc i) s \<and> c \<notin> set (drop (Suc i) s)"
  using assms
proof (induction s arbitrary: i)
  case (Cons x s)
  show ?case
  proof (cases "LastIndex c s")
    case None
    with Cons.prems show ?thesis by (auto split: if_splits)
  next
    case (Some j)
    with Cons.prems have "i = Suc j" by simp
    with Cons.IH [OF Some] show ?thesis by simp
  qed
qed simp

lemma TrimLeft_id: "s = [] \<or> hd s \<noteq> c \<Longrightarrow> TrimLeft c s = s"
  by (cases s) (auto simp: TrimLeft_def)

lemma TrimRight_id: "s = [] \<or> last s \<noteq> c \<Longrightarrow> TrimRight c s = s"
  by (cases s rule: rev_cases) (auto simp: TrimRight_def)

lemma Trim_id: "s = [] \<or> (hd s \<noteq> c \<and> last s \<noteq> c) \<Longrightarrow> Trim c s = s"
  by (cases "s = []") (auto simp: Trim_def TrimLeft_id TrimRight_id)

end
