(* ===== verification/Go_Text.thy ===== *)
theory Go_Text
  imports Go_Prelude
begin

text \<open>
  Text operations of the Go standard library that the backend calls: \<open>strconv.FormatInt\<close> and
  \<open>strconv.ParseInt\<close> in base 10, \<open>strings.TrimSpace\<close>, \<open>strings.EqualFold\<close>,
  \<open>strings.ToLower\<close>, \<open>strings.ToUpper\<close>, and \<open>path.Clean\<close>, \<open>path.Join\<close>,
  \<open>path.Base\<close>. All of them work on byte strings; the case operations are exact where the
  result is compared with ASCII text, which is every use the backend makes of them.
\<close>

section \<open>Package strconv\<close>

definition digit_char :: "int \<Rightarrow> char" where
  "digit_char d = char_of (48 + d)"

definition digit_val :: "char \<Rightarrow> int option" where
  "digit_val c =
     (let n = of_char c :: int in if 48 \<le> n \<and> n \<le> 57 then Some (n - 48) else None)"

text \<open>The decimal digits of a number that is not negative.\<close>

function dec_digits :: "int \<Rightarrow> string" where
  "dec_digits n =
     (if n < 10 then [digit_char n] else dec_digits (n div 10) @ [digit_char (n mod 10)])"
  by pat_completeness auto
termination
  by (relation "measure nat") auto

declare dec_digits.simps [simp del]

definition FormatInt :: "int \<Rightarrow> string" where
  "FormatInt n = (if n < 0 then CHR ''-'' # dec_digits (- n) else dec_digits n)"

fun parse_dec :: "int \<Rightarrow> string \<Rightarrow> int option" where
  "parse_dec acc [] = Some acc"
| "parse_dec acc (c # cs) =
     (case digit_val c of None \<Rightarrow> None | Some d \<Rightarrow> parse_dec (10 * acc + d) cs)"

definition split_sign :: "string \<Rightarrow> bool \<times> string" where
  "split_sign s =
     (case s of
        [] \<Rightarrow> (False, [])
      | c # r \<Rightarrow> if c = CHR ''-'' then (True, r) else if c = CHR ''+'' then (False, r) else (False, s))"

text \<open>\<open>strconv.ParseInt(s, 10, 64)\<close>; \<open>None\<close> is a syntax or range error.\<close>

definition ParseInt :: "string \<Rightarrow> int option" where
  "ParseInt s =
     (case split_sign s of (neg, ds) \<Rightarrow>
        if ds = [] then None
        else (case parse_dec 0 ds of
                None \<Rightarrow> None
              | Some v \<Rightarrow> (let x = (if neg then - v else v)
                          in if in_i64 x then Some x else None)))"

lemma digit_val_digit_char [simp]: "0 \<le> d \<Longrightarrow> d < 10 \<Longrightarrow> digit_val (digit_char d) = Some d"
  by (simp add: digit_val_def digit_char_def)

lemma digit_char_not_sign [simp]:
  "0 \<le> d \<Longrightarrow> d < 10 \<Longrightarrow> digit_char d \<noteq> CHR ''-''"
  "0 \<le> d \<Longrightarrow> d < 10 \<Longrightarrow> digit_char d \<noteq> CHR ''+''"
proof -
  have "digit_val CHR ''-'' = None" and "digit_val CHR ''+'' = None"
    by (simp_all add: digit_val_def)
  then show "0 \<le> d \<Longrightarrow> d < 10 \<Longrightarrow> digit_char d \<noteq> CHR ''-''"
    and "0 \<le> d \<Longrightarrow> d < 10 \<Longrightarrow> digit_char d \<noteq> CHR ''+''"
    by (metis digit_val_digit_char option.distinct(1))+
qed

lemma parse_dec_append:
  "parse_dec acc (xs @ ys) = Option.bind (parse_dec acc xs) (\<lambda>a. parse_dec a ys)"
  by (induction xs arbitrary: acc) (auto split: option.splits)

lemma parse_dec_digits: "0 \<le> n \<Longrightarrow> parse_dec 0 (dec_digits n) = Some n"
proof (induction n rule: dec_digits.induct)
  case (1 n)
  show ?case
  proof (cases "n < 10")
    case False
    with 1 show ?thesis
      by (subst dec_digits.simps) (simp add: parse_dec_append)
  qed (subst dec_digits.simps, use "1.prems" in simp)
qed

lemma hd_dec_digits: "0 \<le> n \<Longrightarrow> \<exists>d rest. 0 \<le> d \<and> d < 10 \<and> dec_digits n = digit_char d # rest"
proof (induction n rule: dec_digits.induct)
  case (1 n)
  show ?case
  proof (cases "n < 10")
    case True
    with "1.prems" show ?thesis by (subst dec_digits.simps) auto
  next
    case False
    then obtain d rest where "0 \<le> d" "d < 10" "dec_digits (n div 10) = digit_char d # rest"
      using 1 by fastforce
    with False show ?thesis by (subst dec_digits.simps) auto
  qed
qed

lemma split_sign_dec_digits [simp]: "0 \<le> n \<Longrightarrow> split_sign (dec_digits n) = (False, dec_digits n)"
  using hd_dec_digits [of n] by (auto simp: split_sign_def)

lemma dec_digits_nonempty [simp]: "dec_digits n \<noteq> []"
  by (subst dec_digits.simps) simp

lemma ParseInt_FormatInt [simp]:
  assumes "in_i64 n"
  shows "ParseInt (FormatInt n) = Some n"
proof (cases "n < 0")
  case True
  then have "split_sign (FormatInt n) = (True, dec_digits (- n))"
    by (simp add: FormatInt_def split_sign_def)
  with True assms show ?thesis by (simp add: ParseInt_def parse_dec_digits)
next
  case False
  with assms show ?thesis by (simp add: ParseInt_def FormatInt_def parse_dec_digits)
qed

lemma FormatInt_inject: "0 \<le> m \<Longrightarrow> 0 \<le> n \<Longrightarrow> FormatInt m = FormatInt n \<longleftrightarrow> m = n"
proof -
  assume "0 \<le> m" and "0 \<le> n"
  then have "m = n" if "dec_digits m = dec_digits n"
    using that by (metis option.inject parse_dec_digits)
  with \<open>0 \<le> m\<close> \<open>0 \<le> n\<close> show ?thesis
    by (auto simp: FormatInt_def)
qed

section \<open>White space and case\<close>

text \<open>The UTF-8 encodings of the code points that \<open>unicode.IsSpace\<close> accepts.\<close>

definition spaces :: "string list" where
  "spaces =
     [[CHR 0x20], [CHR 0x09], [CHR 0x0A], [CHR 0x0B], [CHR 0x0C], [CHR 0x0D],
      [CHR 0xC2, CHR 0x85], [CHR 0xC2, CHR 0xA0], [CHR 0xE1, CHR 0x9A, CHR 0x80],
      [CHR 0xE2, CHR 0x80, CHR 0x80], [CHR 0xE2, CHR 0x80, CHR 0x81],
      [CHR 0xE2, CHR 0x80, CHR 0x82], [CHR 0xE2, CHR 0x80, CHR 0x83],
      [CHR 0xE2, CHR 0x80, CHR 0x84], [CHR 0xE2, CHR 0x80, CHR 0x85],
      [CHR 0xE2, CHR 0x80, CHR 0x86], [CHR 0xE2, CHR 0x80, CHR 0x87],
      [CHR 0xE2, CHR 0x80, CHR 0x88], [CHR 0xE2, CHR 0x80, CHR 0x89],
      [CHR 0xE2, CHR 0x80, CHR 0x8A], [CHR 0xE2, CHR 0x80, CHR 0xA8],
      [CHR 0xE2, CHR 0x80, CHR 0xA9], [CHR 0xE2, CHR 0x80, CHR 0xAF],
      [CHR 0xE2, CHR 0x81, CHR 0x9F], [CHR 0xE3, CHR 0x80, CHR 0x80]]"

text \<open>Remove leading occurrences of the patterns for as long as one matches.\<close>

function strip_front :: "string list \<Rightarrow> string \<Rightarrow> string" where
  "strip_front ps s =
     (case find (\<lambda>p. p \<noteq> [] \<and> prefix p s) ps of
        None \<Rightarrow> s
      | Some p \<Rightarrow> strip_front ps (drop (length p) s))"
  by pat_completeness auto
termination
proof (relation "measure (\<lambda>(ps, s). length s)")
  fix ps p :: "string list" and q s :: string
  assume "find (\<lambda>p. p \<noteq> [] \<and> prefix p s) ps = Some q"
  then have "q \<noteq> [] \<and> prefix q s"
    by (induction ps) (auto split: if_splits)
  then have "0 < length q" and "length q \<le> length s"
    by (auto dest: prefix_length_le)
  then have "length s - length q < length s"
    by linarith
  then show "((ps, drop (length q) s), ps, s) \<in> measure (\<lambda>(ps, s). length s)"
    by simp
qed simp

declare strip_front.simps [simp del]

definition TrimSpace :: "string \<Rightarrow> string" where
  "TrimSpace s = rev (strip_front (map rev spaces) (rev (strip_front spaces s)))"

lemma strip_front_Nil [simp]: "strip_front ps [] = []"
proof -
  have "find (\<lambda>p. p \<noteq> [] \<and> prefix p []) ps = None"
    by (auto simp: find_None_iff)
  then show ?thesis by (simp add: strip_front.simps)
qed

lemma TrimSpace_Nil [simp]: "TrimSpace [] = []"
  by (simp add: TrimSpace_def)

definition lower_char :: "char \<Rightarrow> char" where
  "lower_char c =
     (let n = of_char c :: nat in if 65 \<le> n \<and> n \<le> 90 then char_of (n + 32) else c)"

definition upper_char :: "char \<Rightarrow> char" where
  "upper_char c =
     (let n = of_char c :: nat in if 97 \<le> n \<and> n \<le> 122 then char_of (n - 32) else c)"

text \<open>
  Unicode simple folding against ASCII text: besides the ASCII letters, only U+212A (Kelvin
  sign) folds to \<open>k\<close> and only U+017F (long s) folds to \<open>s\<close>.
\<close>

fun fold_case :: "string \<Rightarrow> string" where
  "fold_case [] = []"
| "fold_case (x # xs) =
     (if x = CHR 0xC5 \<and> prefix [CHR 0xBF] xs then CHR ''s'' # fold_case (drop 1 xs)
      else if x = CHR 0xE2 \<and> prefix [CHR 0x84, CHR 0xAA] xs then CHR ''k'' # fold_case (drop 2 xs)
      else lower_char x # fold_case xs)"

definition EqualFold :: "string \<Rightarrow> string \<Rightarrow> bool" where
  "EqualFold s t \<longleftrightarrow> fold_case s = fold_case t"

text \<open>U+0130 and U+212A are the only code points outside ASCII whose lower case is ASCII.\<close>

fun ToLower :: "string \<Rightarrow> string" where
  "ToLower [] = []"
| "ToLower (x # xs) =
     (if x = CHR 0xC4 \<and> prefix [CHR 0xB0] xs then CHR ''i'' # ToLower (drop 1 xs)
      else if x = CHR 0xE2 \<and> prefix [CHR 0x84, CHR 0xAA] xs then CHR ''k'' # ToLower (drop 2 xs)
      else lower_char x # ToLower xs)"

text \<open>U+0131 and U+017F are the only code points outside ASCII whose upper case is ASCII.\<close>

fun ToUpper :: "string \<Rightarrow> string" where
  "ToUpper [] = []"
| "ToUpper (x # xs) =
     (if x = CHR 0xC4 \<and> prefix [CHR 0xB1] xs then CHR ''I'' # ToUpper (drop 1 xs)
      else if x = CHR 0xC5 \<and> prefix [CHR 0xBF] xs then CHR ''S'' # ToUpper (drop 1 xs)
      else upper_char x # ToUpper xs)"

section \<open>Package path\<close>

text \<open>One component of \<open>path.Clean\<close>, on the stack of the components kept so far.\<close>

definition clean_step :: "bool \<Rightarrow> string \<Rightarrow> string list \<Rightarrow> string list" where
  "clean_step rooted p st =
     (if p = [] \<or> p = ''.'' then st
      else if p = ''..'' then
        (case st of
           [] \<Rightarrow> if rooted then [] else [''..'']
         | t # ts \<Rightarrow> if t = ''..'' then ''..'' # st else ts)
      else p # st)"

definition Clean :: "string \<Rightarrow> string" where
  "Clean p =
     (if p = [] then ''.''
      else let rooted = prefix ''/'' p;
               body = Join CHR ''/'' (rev (fold (clean_step rooted) (Split CHR ''/'' p) []))
           in if rooted then CHR ''/'' # body else if body = [] then ''.'' else body)"

definition PathJoin :: "string \<Rightarrow> string \<Rightarrow> string" where
  "PathJoin a b =
     (if a = [] \<and> b = [] then []
      else Clean (if a = [] then b else a @ CHR ''/'' # b))"

definition Base :: "string \<Rightarrow> string" where
  "Base p =
     (if p = [] then ''.''
      else let t = TrimRight CHR ''/'' p
           in if t = [] then ''/''
              else (case LastIndex CHR ''/'' t of None \<Rightarrow> t | Some i \<Rightarrow> drop (Suc i) t))"

text \<open>A component that \<open>path.Clean\<close> keeps as it is.\<close>

definition plain_component :: "string \<Rightarrow> bool" where
  "plain_component p \<longleftrightarrow> p \<noteq> [] \<and> p \<noteq> ''.'' \<and> p \<noteq> ''..'' \<and> CHR ''/'' \<notin> set p"

lemma clean_step_plain [simp]: "plain_component p \<Longrightarrow> clean_step r p st = p # st"
  by (simp add: clean_step_def plain_component_def)

lemma fold_clean_plain:
  "\<forall>p \<in> set ps. plain_component p \<Longrightarrow> fold (clean_step r) ps st = rev ps @ st"
  by (induction ps arbitrary: st) simp_all

lemma hd_Join_plain:
  "ps \<noteq> [] \<Longrightarrow> \<forall>p \<in> set ps. plain_component p \<Longrightarrow>
     Join CHR ''/'' ps \<noteq> [] \<and> hd (Join CHR ''/'' ps) \<noteq> CHR ''/''"
proof (induction ps rule: list_nonempty_induct)
  case (single x)
  then have "hd x \<in> set x" and "CHR ''/'' \<notin> set x" and "x \<noteq> []"
    by (simp_all add: plain_component_def)
  then show ?case by (simp, metis)
next
  case (cons x xs)
  then have "hd x \<in> set x" and "CHR ''/'' \<notin> set x" and "x \<noteq> []"
    by (simp_all add: plain_component_def)
  with cons.hyps show ?case by (simp add: Join_Cons hd_append, metis)
qed

lemma last_Join_plain:
  "ps \<noteq> [] \<Longrightarrow> \<forall>p \<in> set ps. plain_component p \<Longrightarrow> last (Join CHR ''/'' ps) \<noteq> CHR ''/''"
proof (induction ps rule: list_nonempty_induct)
  case (single x)
  then have "last x \<in> set x" and "CHR ''/'' \<notin> set x"
    by (simp_all add: plain_component_def)
  then show ?case by (simp, metis)
next
  case (cons x xs)
  then show ?case using hd_Join_plain [of xs] by (simp add: Join_Cons)
qed

lemma Clean_Join:
  assumes "ps \<noteq> []" and "\<forall>p \<in> set ps. plain_component p"
  shows "Clean (Join CHR ''/'' ps) = Join CHR ''/'' ps"
proof -
  have split: "Split CHR ''/'' (Join CHR ''/'' ps) = ps"
    using assms by (intro Split_Join) (auto simp: plain_component_def)
  have ne: "Join CHR ''/'' ps \<noteq> []" and hd: "hd (Join CHR ''/'' ps) \<noteq> CHR ''/''"
    using hd_Join_plain [OF assms] by auto
  then have "\<not> prefix ''/'' (Join CHR ''/'' ps)"
    by (cases "Join CHR ''/'' ps") auto
  with ne split assms show ?thesis by (simp add: Clean_def fold_clean_plain)
qed

lemma Trim_Join_plain:
  "\<forall>p \<in> set ps. plain_component p \<Longrightarrow> Trim CHR ''/'' (Join CHR ''/'' ps) = Join CHR ''/'' ps"
  using hd_Join_plain [of ps] last_Join_plain [of ps]
  by (cases "ps = []") (auto intro: Trim_id)

lemma Join_eq_Nil [simp]: "\<forall>p \<in> set ps. plain_component p \<Longrightarrow> Join CHR ''/'' ps = [] \<longleftrightarrow> ps = []"
  using hd_Join_plain [of ps] by (cases "ps = []") auto

lemma PathJoin_Join:
  assumes "\<forall>p \<in> set as. plain_component p" and "\<forall>p \<in> set bs. plain_component p"
  shows "PathJoin (Join CHR ''/'' as) (Join CHR ''/'' bs) = Join CHR ''/'' (as @ bs)"
proof -
  have all: "\<forall>p \<in> set (as @ bs). plain_component p"
    using assms by auto
  consider "as = []" "bs = []" | "as = []" "bs \<noteq> []" | "as \<noteq> []" "bs = []" | "as \<noteq> []" "bs \<noteq> []"
    by blast
  then show ?thesis
  proof cases
    case 3
    have "PathJoin (Join CHR ''/'' as) [] = Clean (Join CHR ''/'' (as @ [[]]))"
      using 3 assms by (simp add: PathJoin_def Join_append)
    also have "\<dots> = Join CHR ''/'' as"
    proof -
      let ?j = "Join CHR ''/'' (as @ [[]])"
      have hd: "Join CHR ''/'' as \<noteq> []" "hd (Join CHR ''/'' as) \<noteq> CHR ''/''"
        using hd_Join_plain [of as] 3 assms by auto
      have "Split CHR ''/'' ?j = as @ [[]]"
        using 3 assms by (intro Split_Join) (auto simp: plain_component_def)
      moreover have "\<not> prefix ''/'' ?j"
        using hd 3 by (cases "Join CHR ''/'' as") (auto simp: Join_append)
      moreover have "fold (clean_step False) (as @ [[]]) [] = rev as"
        using assms by (simp add: fold_clean_plain clean_step_def)
      ultimately show ?thesis
        using hd 3 by (auto simp: Clean_def Join_append)
    qed
    finally show ?thesis using 3 by simp
  next
    case 4
    with all show ?thesis
      using Clean_Join [of "as @ bs"] assms by (simp add: PathJoin_def Join_append)
  qed (use assms Clean_Join [of bs] in \<open>auto simp: PathJoin_def\<close>)
qed

lemma Split_snoc: "c \<notin> set x \<Longrightarrow> Split c (a @ c # x) = Split c a @ [x]"
proof (induction a)
  case Nil
  then show ?case by (simp add: Split_no_sep)
next
  case (Cons y a)
  then show ?case by (cases "Split c a") auto
qed

lemma Join_snoc_suffix: "suffix x (Join c (ys @ [x]))"
  by (cases "ys = []") (simp_all add: Join_append suffix_def)

text \<open>The last component of a joined path is kept.\<close>

lemma PathJoin_suffix:
  assumes "plain_component x"
  shows "suffix x (PathJoin d x)"
proof -
  define j where "j = (if d = [] then x else d @ CHR ''/'' # x)"
  have j: "PathJoin d x = Clean j" "j \<noteq> []"
    using assms by (auto simp: PathJoin_def plain_component_def j_def)
  obtain ys where "Split CHR ''/'' j = ys @ [x]"
    using assms by (cases "d = []") (auto simp: plain_component_def Split_no_sep Split_snoc j_def)
  then obtain zs where
    zs: "rev (fold (clean_step (prefix ''/'' j)) (Split CHR ''/'' j) []) = zs @ [x]"
    using assms by simp
  have "Join CHR ''/'' (zs @ [x]) \<noteq> []"
    using assms by (cases "zs = []") (auto simp: Join_append plain_component_def)
  then have "Clean j = (if prefix ''/'' j then ''/'' else []) @ Join CHR ''/'' (zs @ [x])"
    using j(2) by (simp add: Clean_def zs)
  then show ?thesis
    using Join_snoc_suffix [of x "CHR ''/''" zs] by (auto simp: j(1) suffix_def)
qed

end
