(* ===== verification/Go_Json.thy ===== *)
theory Go_Json
  imports Go_Text
begin

text \<open>
  Package \<open>encoding/json\<close> as the backend uses it. A response body is a byte string;
  \<open>json_parse\<close> is the reader of RFC 8259 text (numbers keep their literal, string literals
  are unquoted to UTF-8 with Go's replacement of malformed input), and the \<open>dec_...\<close>
  functions are \<open>json.Unmarshal\<close> into the backend's structs: keys match a field name up to
  case, \<open>null\<close> leaves a field as it is, a later duplicate wins, and a value of the wrong type
  leaves the field unchanged, lets decoding go on and makes the call report an error. A decoder
  returns the value and whether every value had the right type. The reader recurses on fuel;
  \<open>json_parse\<close> passes twice the length of the text plus two, which \<open>parse_fuel_enough\<close>
  shows to be as good as any larger amount. Go's limit of 10000 nested values is not modelled.
\<close>

datatype json =
    JNull
  | JBool bool
  | JNum string
  | JStr string
  | JArr "json list"
  | JObj "(string \<times> json) list"

section \<open>UTF-8\<close>

abbreviation byte :: "char \<Rightarrow> nat" where
  "byte c \<equiv> of_char c"

definition in_range :: "nat \<Rightarrow> nat \<Rightarrow> char \<Rightarrow> bool" where
  "in_range lo hi c \<longleftrightarrow> lo \<le> byte c \<and> byte c \<le> hi"

text \<open>Length of the well-formed UTF-8 sequence at the front, or 0.\<close>

definition utf8_len :: "string \<Rightarrow> nat" where
  "utf8_len s =
     (case s of
        [] \<Rightarrow> 0
      | a # r \<Rightarrow>
          if byte a < 128 then 1
          else (case r of
            [] \<Rightarrow> 0
          | b # r' \<Rightarrow>
              if in_range 194 223 a then (if in_range 128 191 b then 2 else 0)
              else (case r' of
                [] \<Rightarrow> 0
              | c # r'' \<Rightarrow>
                  if in_range 224 239 a then
                    (if in_range (if byte a = 224 then 160 else 128)
                                 (if byte a = 237 then 159 else 191) b
                        \<and> in_range 128 191 c then 3 else 0)
                  else (case r'' of
                    [] \<Rightarrow> 0
                  | d # _ \<Rightarrow>
                      if in_range 240 244 a
                         \<and> in_range (if byte a = 240 then 144 else 128)
                                    (if byte a = 244 then 143 else 191) b
                         \<and> in_range 128 191 c \<and> in_range 128 191 d then 4 else 0))))"

definition utf8_rune :: "nat \<Rightarrow> string" where
  "utf8_rune n =
     (if n < 128 then [char_of n]
      else if n < 2048 then [char_of (192 + n div 64), char_of (128 + n mod 64)]
      else if n < 65536 then
        [char_of (224 + n div 4096), char_of (128 + n div 64 mod 64), char_of (128 + n mod 64)]
      else
        [char_of (240 + n div 262144), char_of (128 + n div 4096 mod 64),
         char_of (128 + n div 64 mod 64), char_of (128 + n mod 64)])"

definition rune_error :: string where
  "rune_error = [CHR 0xEF, CHR 0xBF, CHR 0xBD]"

text \<open>\<open>utf16.DecodeRune\<close>: the code point of a surrogate pair, if it is one.\<close>

definition surrogate_pair :: "nat \<Rightarrow> nat \<Rightarrow> nat option" where
  "surrogate_pair hi lo =
     (if 55296 \<le> hi \<and> hi < 56320 \<and> 56320 \<le> lo \<and> lo < 57344
      then Some ((hi - 55296) * 1024 + (lo - 56320) + 65536) else None)"

definition is_surrogate :: "nat \<Rightarrow> bool" where
  "is_surrogate n \<longleftrightarrow> 55296 \<le> n \<and> n < 57344"

section \<open>Tokens\<close>

fun skip_ws :: "string \<Rightarrow> string" where
  "skip_ws [] = []"
| "skip_ws (c # r) =
     (if c = CHR '' '' \<or> c = CHR 0x09 \<or> c = CHR 0x0A \<or> c = CHR 0x0D then skip_ws r else c # r)"

definition hex_val :: "char \<Rightarrow> nat option" where
  "hex_val c =
     (if in_range 48 57 c then Some (byte c - 48)
      else if in_range 97 102 c then Some (byte c - 87)
      else if in_range 65 70 c then Some (byte c - 55)
      else None)"

definition hex4 :: "string \<Rightarrow> nat option" where
  "hex4 s =
     (case s of
        a # b # c # d # _ \<Rightarrow>
          (case (hex_val a, hex_val b, hex_val c, hex_val d) of
             (Some a', Some b', Some c', Some d') \<Rightarrow> Some (4096 * a' + 256 * b' + 16 * c' + d')
           | _ \<Rightarrow> None)
      | _ \<Rightarrow> None)"

definition simple_escape :: "char \<Rightarrow> char option" where
  "simple_escape c =
     (if c = CHR 0x22 \<or> c = CHR 0x5C \<or> c = CHR ''/'' then Some c
      else if c = CHR ''b'' then Some (CHR 0x08)
      else if c = CHR ''f'' then Some (CHR 0x0C)
      else if c = CHR ''n'' then Some (CHR 0x0A)
      else if c = CHR ''r'' then Some (CHR 0x0D)
      else if c = CHR ''t'' then Some (CHR 0x09)
      else None)"

text \<open>An escape after the backslash: the bytes it stands for and the rest of the input.\<close>

definition lex_escape :: "string \<Rightarrow> (string \<times> string) option" where
  "lex_escape r =
     (case r of
        [] \<Rightarrow> None
      | e # r1 \<Rightarrow>
          if e = CHR ''u'' then
            (case hex4 r1 of
               None \<Rightarrow> None
             | Some v \<Rightarrow>
                 let r2 = drop 4 r1 in
                 if is_surrogate v then
                   (case (if prefix [CHR 0x5C, CHR ''u''] r2 then hex4 (drop 2 r2) else None) of
                      Some w \<Rightarrow>
                        (case surrogate_pair v w of
                           Some n \<Rightarrow> Some (utf8_rune n, drop 6 r2)
                         | None \<Rightarrow> Some (rune_error, r2))
                    | None \<Rightarrow> Some (rune_error, r2))
                 else Some (utf8_rune v, r2))
          else (case simple_escape e of None \<Rightarrow> None | Some c \<Rightarrow> Some ([c], r1)))"

lemma lex_escape_shorter: "lex_escape r = Some (t, r') \<Longrightarrow> length r' < length r"
  by (auto simp: lex_escape_def Let_def split: list.splits if_splits option.splits)

text \<open>A string literal after its opening quote: the unquoted bytes and the rest.\<close>

function lex_string :: "string \<Rightarrow> (string \<times> string) option" where
  "lex_string s =
     (case s of
        [] \<Rightarrow> None
      | c # r \<Rightarrow>
          if c = CHR 0x22 then Some ([], r)
          else if c = CHR 0x5C then
            (case lex_escape r of
               None \<Rightarrow> None
             | Some (t, r') \<Rightarrow> map_option (\<lambda>(u, q). (t @ u, q)) (lex_string r'))
          else if byte c < 32 then None
          else if utf8_len s = 0 then
            map_option (\<lambda>(u, q). (rune_error @ u, q)) (lex_string r)
          else
            map_option (\<lambda>(u, q). (take (utf8_len s) s @ u, q))
              (lex_string (drop (utf8_len s - 1) r)))"
  by pat_completeness auto
termination
  by (relation "measure length") (auto dest: lex_escape_shorter)

declare lex_string.simps [simp del]

fun take_digits :: "string \<Rightarrow> string \<times> string" where
  "take_digits [] = ([], [])"
| "take_digits (c # r) =
     (if in_range 48 57 c then (case take_digits r of (d, q) \<Rightarrow> (c # d, q)) else ([], c # r))"

definition lex_frac :: "string \<Rightarrow> (string \<times> string) option" where
  "lex_frac s =
     (case s of
        c # r \<Rightarrow>
          if c = CHR ''.'' then
            (case take_digits r of (d, q) \<Rightarrow> if d = [] then None else Some (c # d, q))
          else Some ([], s)
      | [] \<Rightarrow> Some ([], s))"

definition lex_exp :: "string \<Rightarrow> (string \<times> string) option" where
  "lex_exp s =
     (case s of
        c # r \<Rightarrow>
          if c = CHR ''e'' \<or> c = CHR ''E'' then
            (case r of
               [] \<Rightarrow> None
             | x # r' \<Rightarrow>
                 let (sg, r1) = (if x = CHR ''+'' \<or> x = CHR ''-'' then ([x], r') else ([], r)) in
                 (case take_digits r1 of
                    (d, q) \<Rightarrow> if d = [] then None else Some (c # sg @ d, q)))
          else Some ([], s)
      | [] \<Rightarrow> Some ([], s))"

text \<open>A number literal, kept as its text.\<close>

definition lex_number :: "string \<Rightarrow> (string \<times> string) option" where
  "lex_number s =
     (let (sg, r0) = (case s of c # r \<Rightarrow> if c = CHR ''-'' then ([c], r) else ([], s) | [] \<Rightarrow> ([], s))
      in case r0 of
           [] \<Rightarrow> None
         | c # r \<Rightarrow>
             let (ds, r1) = (if c = CHR ''0'' then ([c], r) else take_digits r0) in
             if ds = [] then None
             else (case lex_frac r1 of
                     None \<Rightarrow> None
                   | Some (fr, r2) \<Rightarrow>
                       (case lex_exp r2 of
                          None \<Rightarrow> None
                        | Some (ex, r3) \<Rightarrow> Some (sg @ ds @ fr @ ex, r3))))"

section \<open>The reader\<close>

fun parse_value :: "nat \<Rightarrow> string \<Rightarrow> (json \<times> string) option"
  and parse_elems :: "nat \<Rightarrow> string \<Rightarrow> (json list \<times> string) option"
  and parse_members :: "nat \<Rightarrow> string \<Rightarrow> ((string \<times> json) list \<times> string) option"
where
  "parse_value 0 s = None"
| "parse_value (Suc f) s =
     (case skip_ws s of
        [] \<Rightarrow> None
      | c # r \<Rightarrow>
          if c = CHR 0x22 then map_option (\<lambda>(t, q). (JStr t, q)) (lex_string r)
          else if c = CHR ''['' then
            (if prefix '']'' (skip_ws r) then Some (JArr [], drop 1 (skip_ws r))
             else map_option (\<lambda>(vs, q). (JArr vs, q)) (parse_elems f r))
          else if c = CHR ''{'' then
            (if prefix ''}'' (skip_ws r) then Some (JObj [], drop 1 (skip_ws r))
             else map_option (\<lambda>(kvs, q). (JObj kvs, q)) (parse_members f r))
          else if prefix ''null'' (c # r) then Some (JNull, drop 3 r)
          else if prefix ''true'' (c # r) then Some (JBool True, drop 3 r)
          else if prefix ''false'' (c # r) then Some (JBool False, drop 4 r)
          else map_option (\<lambda>(n, q). (JNum n, q)) (lex_number (c # r)))"
| "parse_elems 0 s = None"
| "parse_elems (Suc f) s =
     (case parse_value f s of
        None \<Rightarrow> None
      | Some (v, r) \<Rightarrow>
          (case skip_ws r of
             [] \<Rightarrow> None
           | c # q \<Rightarrow>
               if c = CHR '']'' then Some ([v], q)
               else if c = CHR '','' then map_option (\<lambda>(vs, q'). (v # vs, q')) (parse_elems f q)
               else None))"
| "parse_members 0 s = None"
| "parse_members (Suc f) s =
     (case skip_ws s of
        [] \<Rightarrow> None
      | c # r \<Rightarrow>
          if c \<noteq> CHR 0x22 then None
          else (case lex_string r of
            None \<Rightarrow> None
          | Some (k, r1) \<Rightarrow>
              (case skip_ws r1 of
                 [] \<Rightarrow> None
               | c1 # r2 \<Rightarrow>
                   if c1 \<noteq> CHR '':'' then None
                   else (case parse_value f r2 of
                     None \<Rightarrow> None
                   | Some (v, r3) \<Rightarrow>
                       (case skip_ws r3 of
                          [] \<Rightarrow> None
                        | c3 # q \<Rightarrow>
                            if c3 = CHR ''}'' then Some ([(k, v)], q)
                            else if c3 = CHR '','' then
                              map_option (\<lambda>(kvs, q'). ((k, v) # kvs, q')) (parse_members f q)
                            else None)))))"

definition json_parse :: "string \<Rightarrow> json option" where
  "json_parse s =
     (case parse_value (2 * length s + 2) s of
        None \<Rightarrow> None
      | Some (v, r) \<Rightarrow> if skip_ws r = [] then Some v else None)"


subsection \<open>The reader consumes its input, so the fuel is enough\<close>

lemma skip_ws_le: "length (skip_ws s) \<le> length s"
  by (induction s) auto

lemma skip_ws_Cons_shorter: "skip_ws s = c # r \<Longrightarrow> length r < length s"
  using skip_ws_le [of s] by simp

lemma lex_string_shorter: "lex_string s = Some (t, q) \<Longrightarrow> length q < length s"
proof (induction s arbitrary: t q rule: lex_string.induct)
  case (1 s)
  obtain c r where s: "s = c # r"
    using "1.prems" by (cases s) (auto simp: lex_string.simps)
  note ih = "1.IH" [OF s]
  note eq = "1.prems" [unfolded s lex_string.simps [of "c # r"]]
  consider (stop) "c = CHR 0x22" | (esc) "c \<noteq> CHR 0x22" "c = CHR 0x5C"
    | (plain) "c \<noteq> CHR 0x22" "c \<noteq> CHR 0x5C" by blast
  then show ?case
  proof cases
    case stop
    with eq s show ?thesis by simp
  next
    case esc
    with eq s obtain u r' t' where u: "lex_escape r = Some (u, r')" and "lex_string r' = Some (t', q)"
      by (auto split: option.splits)
    with ih(1) esc have "length q < length r'" by blast
    with lex_escape_shorter [OF u] s show ?thesis by simp
  next
    case plain
    with eq s have c: "\<not> byte c < 32" by (auto split: if_splits)
    show ?thesis
    proof (cases "utf8_len s = 0")
      case True
      with eq s plain c obtain t' where "lex_string r = Some (t', q)"
        by (auto split: if_splits)
      with ih(2) plain c True s show ?thesis by fastforce
    next
      case False
      with eq s plain c obtain t' where "lex_string (drop (utf8_len s - 1) r) = Some (t', q)"
        by (auto split: if_splits)
      with ih(3) plain c False s have "length q < length (drop (utf8_len s - 1) r)" by blast
      with s show ?thesis by simp
    qed
  qed
qed

lemma take_digits_le:
  "take_digits r = (d, q) \<Longrightarrow> length q \<le> length r \<and> (d \<noteq> [] \<longrightarrow> length q < length r)"
  by (induction r arbitrary: d q) (auto split: if_splits prod.splits)

lemma lex_frac_le: "lex_frac s = Some (t, q) \<Longrightarrow> length q \<le> length s"
  by (auto simp: lex_frac_def split: list.splits if_splits prod.splits dest: take_digits_le)

lemma lex_exp_le: "lex_exp s = Some (t, q) \<Longrightarrow> length q \<le> length s"
  by (auto simp: lex_exp_def Let_def split: list.splits if_splits prod.splits dest: take_digits_le)

lemma lex_number_shorter: "lex_number s = Some (t, q) \<Longrightarrow> length q < length s"
  by (fastforce simp: lex_number_def Let_def
      split: list.splits if_splits prod.splits option.splits
      dest: lex_frac_le lex_exp_le take_digits_le)

lemma parse_shorter:
  "parse_value f s = Some (v, q) \<Longrightarrow> length q < length s"
  "parse_elems f s = Some (vs, q) \<Longrightarrow> length q < length s"
  "parse_members f s = Some (kvs, q) \<Longrightarrow> length q < length s"
proof (induction f s and f s and f s arbitrary: v q and vs q and kvs q
    rule: parse_value_parse_elems_parse_members.induct)
  case (2 f s)
  from "2.prems" obtain c r where s: "skip_ws s = c # r"
    by (auto split: list.splits)
  have "length (c # r) \<le> length s"
    using skip_ws_le [of s] s by simp
  moreover have "length q < length (c # r)"
  proof -
    consider "c = CHR 0x22" | "c = CHR ''[''" | "c = CHR ''{''"
      | "c \<noteq> CHR 0x22" "c \<noteq> CHR ''[''" "c \<noteq> CHR ''{''" by blast
    then show ?thesis
    proof cases
      case 1
      with "2.prems" s show ?thesis by (auto dest: lex_string_shorter)
    next
      case 2
      with "2.prems" s "2.IH"(1) [OF s] skip_ws_le [of r] show ?thesis
        by (fastforce split: if_splits)
    next
      case 3
      with "2.prems" s "2.IH"(2) [OF s] skip_ws_le [of r] show ?thesis
        by (fastforce split: if_splits)
    next
      case 4
      then have "parse_value (Suc f) s =
          (if prefix ''null'' (c # r) then Some (JNull, drop 3 r)
           else if prefix ''true'' (c # r) then Some (JBool True, drop 3 r)
           else if prefix ''false'' (c # r) then Some (JBool False, drop 4 r)
           else map_option (\<lambda>(n, q). (JNum n, q)) (lex_number (c # r)))"
        by (simp add: s del: prefix_Cons Cons_prefix_Cons)
      with "2.prems" have "(if prefix ''null'' (c # r) then Some (JNull, drop 3 r)
           else if prefix ''true'' (c # r) then Some (JBool True, drop 3 r)
           else if prefix ''false'' (c # r) then Some (JBool False, drop 4 r)
           else map_option (\<lambda>(n, q). (JNum n, q)) (lex_number (c # r))) = Some (v, q)"
        by (simp only:)
      then show ?thesis
        by (auto simp del: Cons_prefix_Cons split: if_splits dest: lex_number_shorter)
    qed
  qed
  ultimately show ?case by linarith
next
  case (4 f s)
  then show ?case
    by (fastforce split: option.splits list.splits if_splits dest: skip_ws_Cons_shorter)
next
  case (6 f s)
  then show ?case
    by (fastforce split: option.splits list.splits if_splits
        dest: skip_ws_Cons_shorter lex_string_shorter)
qed simp_all


lemmas parser_simps = parse_value.simps parse_elems.simps parse_members.simps

declare parser_simps [simp del]

lemma parse_fuel_Suc:
  "(\<forall>s. 2 * length s + 1 \<le> f \<longrightarrow> parse_value (Suc f) s = parse_value f s) \<and>
   (\<forall>s. 2 * length s + 2 \<le> f \<longrightarrow> parse_elems (Suc f) s = parse_elems f s) \<and>
   (\<forall>s. 2 * length s + 2 \<le> f \<longrightarrow> parse_members (Suc f) s = parse_members f s)"
proof (induction f)
  case (Suc f)
  then have V: "\<And>s. 2 * length s + 1 \<le> f \<Longrightarrow> parse_value (Suc f) s = parse_value f s"
    and E: "\<And>s. 2 * length s + 2 \<le> f \<Longrightarrow> parse_elems (Suc f) s = parse_elems f s"
    and M: "\<And>s. 2 * length s + 2 \<le> f \<Longrightarrow> parse_members (Suc f) s = parse_members f s"
    by blast+
  have "parse_value (Suc (Suc f)) s = parse_value (Suc f) s" if "2 * length s + 1 \<le> Suc f" for s
  proof (cases "skip_ws s")
    case (Cons c r)
    then have "2 * length r + 2 \<le> f"
      using that skip_ws_Cons_shorter [OF Cons] by simp
    with E [of r] M [of r] show ?thesis
      by (simp only: parse_value.simps(2) Cons list.case)
  qed (simp add: parser_simps)
  moreover have "parse_elems (Suc (Suc f)) s = parse_elems (Suc f) s"
    if s: "2 * length s + 2 \<le> Suc f" for s
  proof (cases "parse_value f s")
    case None
    with V [of s] s show ?thesis by (simp add: parse_elems.simps(2))
  next
    case (Some vr)
    obtain v r where vr: "vr = (v, r)" by (cases vr)
    have "parse_elems (Suc f) q = parse_elems f q" if "skip_ws r = c # q" for c q
      using E [of q] s parse_shorter(1) [OF Some [unfolded vr]] skip_ws_Cons_shorter [OF that]
      by simp
    with V [of s] s Some vr show ?thesis
      by (simp add: parse_elems.simps(2) split: list.split)
  qed
  moreover have "parse_members (Suc (Suc f)) s = parse_members (Suc f) s"
    if s: "2 * length s + 2 \<le> Suc f" for s
  proof -
    have "parse_value (Suc f) r2 = parse_value f r2"
      if "skip_ws s = c # r" "lex_string r = Some (k, r1)" "skip_ws r1 = c1 # r2" for c r k r1 c1 r2
      using V [of r2] s skip_ws_Cons_shorter [OF that(1)] lex_string_shorter [OF that(2)]
        skip_ws_Cons_shorter [OF that(3)] by simp
    moreover have "parse_members (Suc f) q = parse_members f q"
      if "skip_ws s = c # r" "lex_string r = Some (k, r1)" "skip_ws r1 = c1 # r2"
        "parse_value f r2 = Some (v, r3)" "skip_ws r3 = c3 # q" for c r k r1 c1 r2 v r3 c3 q
      using M [of q] s skip_ws_Cons_shorter [OF that(1)] lex_string_shorter [OF that(2)]
        skip_ws_Cons_shorter [OF that(3)] parse_shorter(1) [OF that(4)]
        skip_ws_Cons_shorter [OF that(5)] by simp
    ultimately show ?thesis
      by (simp add: parse_members.simps(2) split: list.split option.split)
  qed
  ultimately show ?case by blast
qed simp

lemma parse_fuel_enough:
  "2 * length s + 1 \<le> f \<Longrightarrow> parse_value (f + n) s = parse_value f s"
  by (induction n) (use parse_fuel_Suc in \<open>auto\<close>)

section \<open>Unmarshal\<close>

text \<open>Scalar fields.\<close>

definition dec_str :: "string \<Rightarrow> json \<Rightarrow> string \<times> bool" where
  "dec_str old j = (case j of JStr s \<Rightarrow> (s, True) | JNull \<Rightarrow> (old, True) | _ \<Rightarrow> (old, False))"

definition dec_int :: "int64 \<Rightarrow> json \<Rightarrow> int64 \<times> bool" where
  "dec_int old j =
     (case j of
        JNum n \<Rightarrow> (case ParseInt n of Some x \<Rightarrow> (x, True) | None \<Rightarrow> (old, False))
      | JNull \<Rightarrow> (old, True)
      | _ \<Rightarrow> (old, False))"

text \<open>A field of \<open>json.RawMessage\<close> keeps the value it is given.\<close>

definition dec_raw :: "json option \<Rightarrow> json \<Rightarrow> json option \<times> bool" where
  "dec_raw old j = (Some j, True)"

text \<open>
  A slice: every element is decoded from the zero value. (Where a key of the object is repeated, Go
  reuses the elements of the earlier array, which is not modelled.)
\<close>

definition dec_list :: "('a \<Rightarrow> json \<Rightarrow> 'a \<times> bool) \<Rightarrow> 'a \<Rightarrow> 'a list \<Rightarrow> json \<Rightarrow> 'a list \<times> bool" where
  "dec_list dec zero old j =
     (case j of
        JArr vs \<Rightarrow> (map (\<lambda>v. fst (dec zero v)) vs, \<forall>v \<in> set vs. snd (dec zero v))
      | JNull \<Rightarrow> ([], True)
      | _ \<Rightarrow> (old, False))"

text \<open>A map with string keys, merged into the old one.\<close>

definition dec_map ::
    "('a \<Rightarrow> json \<Rightarrow> 'a \<times> bool) \<Rightarrow> 'a \<Rightarrow> (string \<rightharpoonup> 'a) \<Rightarrow> json \<Rightarrow> (string \<rightharpoonup> 'a) \<times> bool" where
  "dec_map dec zero old j =
     (case j of
        JObj kvs \<Rightarrow> (foldl (\<lambda>m (k, v). m(k \<mapsto> fst (dec zero v))) old kvs,
                    \<forall>(k, v) \<in> set kvs. snd (dec zero v))
      | JNull \<Rightarrow> (Map.empty, True)
      | _ \<Rightarrow> (old, False))"

text \<open>One field of a struct: every entry of the object whose key matches is decoded in turn.\<close>

fun dec_field :: "string \<Rightarrow> ('a \<Rightarrow> json \<Rightarrow> 'a \<times> bool) \<Rightarrow> 'a \<Rightarrow> (string \<times> json) list \<Rightarrow> 'a \<times> bool" where
  "dec_field name dec old [] = (old, True)"
| "dec_field name dec old ((k, v) # kvs) =
     (if EqualFold k name then
        (case dec old v of (x, ok) \<Rightarrow>
           case dec_field name dec x kvs of (y, ok') \<Rightarrow> (y, ok \<and> ok'))
      else dec_field name dec old kvs)"

text \<open>The entries a struct is decoded from; \<open>None\<close> when the value is not an object.\<close>

definition struct_entries :: "json \<Rightarrow> (string \<times> json) list option" where
  "struct_entries j = (case j of JObj kvs \<Rightarrow> Some kvs | JNull \<Rightarrow> Some [] | _ \<Rightarrow> None)"

section \<open>http.StatusText\<close>

definition status_texts :: "(int \<times> string) list" where
  "status_texts =
    [(100, ''Continue''), (101, ''Switching Protocols''), (102, ''Processing''),
      (103, ''Early Hints''), (200, ''OK''), (201, ''Created''), (202, ''Accepted''),
      (203, ''Non-Authoritative Information''), (204, ''No Content''),
      (205, ''Reset Content''), (206, ''Partial Content''), (207, ''Multi-Status''),
      (208, ''Already Reported''), (226, ''IM Used''), (300, ''Multiple Choices''),
      (301, ''Moved Permanently''), (302, ''Found''), (303, ''See Other''),
      (304, ''Not Modified''), (305, ''Use Proxy''), (307, ''Temporary Redirect''),
      (308, ''Permanent Redirect''), (400, ''Bad Request''), (401, ''Unauthorized''),
      (402, ''Payment Required''), (403, ''Forbidden''), (404, ''Not Found''),
      (405, ''Method Not Allowed''), (406, ''Not Acceptable''),
      (407, ''Proxy Authentication Required''), (408, ''Request Timeout''),
      (409, ''Conflict''), (410, ''Gone''), (411, ''Length Required''),
      (412, ''Precondition Failed''), (413, ''Request Entity Too Large''),
      (414, ''Request URI Too Long''), (415, ''Unsupported Media Type''),
      (416, ''Requested Range Not Satisfiable''), (417, ''Expectation Failed''),
      (421, ''Misdirected Request''), (422, ''Unprocessable Entity''), (423, ''Locked''),
      (424, ''Failed Dependency''), (425, ''Too Early''), (426, ''Upgrade Required''),
      (428, ''Precondition Required''), (429, ''Too Many Requests''),
      (431, ''Request Header Fields Too Large''), (451, ''Unavailable For Legal Reasons''),
      (500, ''Internal Server Error''), (501, ''Not Implemented''), (502, ''Bad Gateway''),
      (503, ''Service Unavailable''), (504, ''Gateway Timeout''),
      (505, ''HTTP Version Not Supported''), (506, ''Variant Also Negotiates''),
      (507, ''Insufficient Storage''), (508, ''Loop Detected''), (510, ''Not Extended''),
      (511, ''Network Authentication Required''),
      (418, CHR ''I'' # CHR 0x27 # ''m a teapot'')]"

definition StatusText :: "int \<Rightarrow> string" where
  "StatusText s = (case map_of status_texts s of Some t \<Rightarrow> t | None \<Rightarrow> [])"

section \<open>fmt.Sscan into an int64\<close>

text \<open>
  \<open>fmt.Sscan(s, &n)\<close>: white space, a sign, a base prefix and the longest run of digits and
  underscores, read as \<open>strconv.ParseInt\<close> reads it in base 0. \<open>None\<close> leaves \<open>n\<close> as it is.
\<close>

datatype underscore_state = Start | Digit | Underscore

fun underscores_ok :: "underscore_state \<Rightarrow> string \<Rightarrow> bool" where
  "underscores_ok st [] = (st \<noteq> Underscore)"
| "underscores_ok st (c # cs) =
     (if c = CHR ''_'' then st = Digit \<and> underscores_ok Underscore cs
      else underscores_ok Digit cs)"

definition digits_value :: "int \<Rightarrow> string \<Rightarrow> int" where
  "digits_value b ds =
     foldl (\<lambda>a c. case hex_val c of Some d \<Rightarrow> b * a + int d | None \<Rightarrow> a) 0 ds"

definition scan_token :: "string \<Rightarrow> (int \<times> underscore_state \<times> string) option" where
  "scan_token s =
     (let run = (\<lambda>allowed r. takeWhile (\<lambda>c. c \<in> set allowed) r);
          nonempty = (\<lambda>b st ds. if ds = [] then None else Some (b, st, ds))
      in case s of
           [] \<Rightarrow> None
         | c # r \<Rightarrow>
             if c = CHR ''0'' then
               (case r of
                  [] \<Rightarrow> Some (8, Digit, [])
                | x # r' \<Rightarrow>
                    if x \<in> set ''bB'' then nonempty 2 Digit (run ''01_'' r')
                    else if x \<in> set ''oO'' then nonempty 8 Digit (run ''01234567_'' r')
                    else if x \<in> set ''xX'' then
                      nonempty 16 Digit (run ''0123456789aAbBcCdDeEfF_'' r')
                    else Some (8, Digit, run ''01234567_'' r))
             else nonempty 10 Start (run ''0123456789_'' s))"

definition Sscan_int :: "string \<Rightarrow> int option" where
  "Sscan_int s =
     (case split_sign (strip_front spaces s) of (neg, r) \<Rightarrow>
        (case scan_token r of
           None \<Rightarrow> None
         | Some (b, st, ds) \<Rightarrow>
             if \<not> underscores_ok st ds then None
             else (let v = digits_value b ds; x = (if neg then - v else v)
                   in if in_i64 x then Some x else None)))"

lemma Sscan_examples:
  "Sscan_int '' 403203'' = Some 403203"
  "Sscan_int ''0x1F rest'' = Some 31"
  "Sscan_int ''-1_000'' = Some (- 1000)"
  "Sscan_int ''1__0'' = None"
  "Sscan_int ''code'' = None"
  by code_simp+

end
