(* ===== verification/Go_Runtime.thy ===== *)
theory Go_Runtime
  imports Go_Json
begin

text \<open>
  The run-time setting of the backend: Go's error values with \<open>errors.Is\<close> and
  \<open>errors.As\<close>, the HTTP requests the code sends, the world it runs in and the operations it
  is given by code outside the repository (the PKU Disk service behind \<open>net/http\<close>, the
  context's clock, rclone's directory cache and filename encoder). An operation of the backend
  is a function from the world to a result or an error and the world after it; the world keeps
  the list of the HTTP requests sent so far, in order, so that a theorem can say what an
  operation may send. The last section is the calculus of such statements.
\<close>

section \<open>Error values\<close>

text \<open>Sentinel errors of package \<open>fs\<close> of rclone.\<close>

datatype fs_error =
    ErrorDirNotFound | ErrorObjectNotFound | ErrorIsDir | ErrorIsFile
  | ErrorCantCopy | ErrorCantMove | ErrorCantDirMove | ErrorDirectoryNotEmpty

text \<open>
  \<open>Errorf fmt args shown wrapped\<close> is \<open>fmt.Errorf\<close> (and \<open>errors.New\<close>) with its format, its
  string and number arguments, the errors printed with \<open>%v\<close> and the errors wrapped with
  \<open>%w\<close>. \<open>NetError\<close> is an error of package \<open>net\<close> or \<open>net/url\<close> with its
  \<open>Timeout()\<close> and the error it wraps. \<open>NoRetry\<close> and \<open>RetryErrorf\<close> are the markers of
  rclone's \<open>fserrors\<close>; \<open>Panic\<close> is a run-time panic and \<open>Foreign\<close> any other error of code
  outside the repository.
\<close>

datatype goerr =
    ApiError int int string
  | DeadlineExceeded
  | Canceled
  | NetError bool goerr
  | FsError fs_error
  | FileTooSmall int
  | Errorf string "string list" "goerr list" "goerr list"
  | NoRetry goerr
  | RetryErrorf string "string list"
  | Panic string
  | Foreign string

abbreviation ErrNew :: "string \<Rightarrow> goerr" where
  "ErrNew m \<equiv> Errorf m [] [] []"

text \<open>\<open>errors.As\<close> and \<open>errors.Is\<close>: depth first through the wrapped errors.\<close>

fun as_first :: "(goerr \<Rightarrow> 'a option) \<Rightarrow> goerr \<Rightarrow> 'a option"
  and as_first_list :: "(goerr \<Rightarrow> 'a option) \<Rightarrow> goerr list \<Rightarrow> 'a option" where
  "as_first f (NetError t e) =
     (case f (NetError t e) of Some x \<Rightarrow> Some x | None \<Rightarrow> as_first f e)"
| "as_first f (NoRetry e) = (case f (NoRetry e) of Some x \<Rightarrow> Some x | None \<Rightarrow> as_first f e)"
| "as_first f (Errorf m as sh es) =
     (case f (Errorf m as sh es) of Some x \<Rightarrow> Some x | None \<Rightarrow> as_first_list f es)"
| "as_first f e = f e"
| "as_first_list f [] = None"
| "as_first_list f (e # es) =
     (case as_first f e of Some x \<Rightarrow> Some x | None \<Rightarrow> as_first_list f es)"

definition as_api :: "goerr \<Rightarrow> (int \<times> int) option" where
  "as_api = as_first (\<lambda>e. case e of ApiError s c m \<Rightarrow> Some (s, c) | _ \<Rightarrow> None)"

definition as_net_timeout :: "goerr \<Rightarrow> bool option" where
  "as_net_timeout =
     as_first (\<lambda>e. case e of NetError t _ \<Rightarrow> Some t | DeadlineExceeded \<Rightarrow> Some True | _ \<Rightarrow> None)"

definition err_is :: "goerr \<Rightarrow> goerr \<Rightarrow> bool" where
  "err_is e target \<longleftrightarrow> as_first (\<lambda>x. if x = target then Some () else None) e \<noteq> None"

lemma err_is_FsError [simp]: "err_is (FsError a) (FsError b) \<longleftrightarrow> a = b"
  by (simp add: err_is_def)

lemma as_api_ApiError [simp]: "as_api (ApiError s c m) = Some (s, c)"
  by (simp add: as_api_def)

lemma as_api_FsError [simp]: "as_api (FsError x) = None"
  by (simp add: as_api_def)

section \<open>Requests, responses and the world\<close>

text \<open>The HTTP clients of the backend; they differ in their time-outs and their root CAs.\<close>

datatype client = ApiHTTP | RecursiveDeleteHTTP | ObjectHTTP | RegistrationHTTP

text \<open>
  A request has no body, a JSON value, bytes, a stream of a declared length, or a form with a
  file streamed after its fields (fields, file name, declared length, bytes).
\<close>

datatype payload =
    NoBody
  | JsonBody json
  | RawBody string
  | StreamBody int string
  | FormBody "(string \<times> string) list" string int string

record request =
  via :: client
  deadline :: "int option"  \<comment> \<open>the time-out of the request's own context, in milliseconds\<close>
  verb :: string
  url :: string
  headers :: "(string \<times> string) list"
  payload :: payload

record response =
  resp_status :: int
  resp_headers :: "(string \<times> string) list"
  resp_body :: string
  body_read :: int  \<comment> \<open>the bytes of a streamed request body that were read\<close>
  read_error :: "goerr option"
  close_error :: "goerr option"

text \<open>
  \<open>'s\<close> is the state of everything outside the repository and outside the local file system,
  whose regular files are \<open>files\<close>, by path.
\<close>

record 's world =
  ext :: 's
  files :: "string \<rightharpoonup> string"
  sent :: "request list"

type_synonym ('s, 'a) act = "'s world \<Rightarrow> (goerr + 'a) \<times> 's world"

text \<open>
  Options of an open or an upload: metadata, an HTTP header, or another option of rclone, by
  its header.
\<close>

datatype openOption =
    MetadataOption "(string \<times> string) list"
  | HTTPOption string string
  | OtherOption string string

text \<open>The callbacks an \<open>Fs\<close> hands to the directory cache: \<open>FindLeaf\<close> and \<open>CreateDir\<close>.\<close>

type_synonym 's find_leaf = "string \<Rightarrow> string \<Rightarrow> ('s, string option) act"
type_synonym 's create_dir = "string \<Rightarrow> string \<Rightarrow> ('s, string) act"

text \<open>
  What the repository's code is given. \<open>http_do\<close> is \<open>http.Client.Do\<close> followed by reading and
  closing the body, \<open>token\<close> is the configured token provider, \<open>request_error\<close> is the error of
  \<open>http.NewRequest\<close> for a method and URL, \<open>sleep\<close> waits and reports a cancelled context,
  \<open>parse_uri\<close> is the error of \<open>url.ParseRequestURI\<close>. \<open>encode\<close> and \<open>decode\<close> are
  rclone's filename encoder, \<open>split_path\<close> is \<open>dircache.SplitPath\<close>, and the \<open>dc_\<close>
  operations are those of a \<open>dircache.DirCache\<close>, which is named by a number.
  \<open>io_error op path\<close> is the failure of an operation of package \<open>os\<close> on a path, if it fails,
  \<open>random\<close> the number that \<open>os.CreateTemp\<close> draws for a new name, \<open>windows\<close> is
  \<open>runtime.GOOS == "windows"\<close>, \<open>try_lock\<close> and \<open>unlock\<close> are those of a \<open>flock.Flock\<close> of
  a path, \<open>sha256\<close> is the digest in hexadecimal, and \<open>fix_range\<close> and \<open>check_range\<close> are
  rclone's \<open>fs.FixRangeOption\<close> and \<open>rest.CheckContentRange\<close>.
\<close>

record 's env =
  base_url :: string
  http_do :: "request \<Rightarrow> 's \<Rightarrow> (goerr + response) \<times> 's"
  token :: "bool \<Rightarrow> 's \<Rightarrow> (goerr + string) \<times> 's"
  request_error :: "string \<Rightarrow> string \<Rightarrow> goerr option"
  sleep :: "int \<Rightarrow> 's \<Rightarrow> goerr option \<times> 's"
  parse_uri :: "string \<Rightarrow> goerr option"
  encode :: "string \<Rightarrow> string"
  decode :: "string \<Rightarrow> string"
  split_path :: "string \<Rightarrow> string \<times> string"
  dc_new :: "string \<Rightarrow> string \<Rightarrow> 's \<Rightarrow> nat \<times> 's"
  dc_put :: "nat \<Rightarrow> string \<Rightarrow> string \<Rightarrow> 's \<Rightarrow> 's"
  dc_flush :: "nat \<Rightarrow> 's \<Rightarrow> 's"
  dc_flush_dir :: "nat \<Rightarrow> string \<Rightarrow> 's \<Rightarrow> 's"
  dc_find_dir :: "nat \<Rightarrow> 's find_leaf \<Rightarrow> 's create_dir \<Rightarrow> string \<Rightarrow> bool \<Rightarrow> ('s, string) act"
  dc_find_path ::
    "nat \<Rightarrow> 's find_leaf \<Rightarrow> 's create_dir \<Rightarrow> string \<Rightarrow> bool \<Rightarrow> ('s, string \<times> string) act"
  dc_find_root :: "nat \<Rightarrow> 's find_leaf \<Rightarrow> 's create_dir \<Rightarrow> bool \<Rightarrow> ('s, unit) act"
  dc_root_parent_id :: "nat \<Rightarrow> 's find_leaf \<Rightarrow> 's create_dir \<Rightarrow> bool \<Rightarrow> ('s, string) act"
  dc_dir_move ::
    "nat \<Rightarrow> 's find_leaf \<Rightarrow> 's create_dir \<Rightarrow> nat \<Rightarrow> 's find_leaf \<Rightarrow>
       string \<Rightarrow> string \<Rightarrow> string \<Rightarrow> string \<Rightarrow> ('s, string \<times> string \<times> string \<times> string \<times> string) act"
  io_error :: "string \<Rightarrow> string \<Rightarrow> 's \<Rightarrow> goerr option \<times> 's"
  random :: "'s \<Rightarrow> nat"
  windows :: bool
  try_lock :: "string \<Rightarrow> 's \<Rightarrow> (goerr + bool) \<times> 's"
  unlock :: "string \<Rightarrow> 's \<Rightarrow> 's"
  sha256 :: "string \<Rightarrow> string"
  fix_range :: "openOption list \<Rightarrow> int \<Rightarrow> openOption list"
  check_range :: "response \<Rightarrow> openOption list \<Rightarrow> int \<Rightarrow> goerr option"

section \<open>Operations\<close>

definition ok :: "'a \<Rightarrow> ('s, 'a) act" where
  "ok x = (\<lambda>w. (Inr x, w))"

definition throw :: "goerr \<Rightarrow> ('s, 'a) act" where
  "throw e = (\<lambda>w. (Inl e, w))"

text \<open>\<open>x, err := m(); if err != nil { return err }; f(x)\<close>\<close>

definition andThen :: "('s, 'a) act \<Rightarrow> ('a \<Rightarrow> ('s, 'b) act) \<Rightarrow> ('s, 'b) act" where
  "andThen m f = (\<lambda>w. case m w of (Inl e, w') \<Rightarrow> (Inl e, w') | (Inr x, w') \<Rightarrow> f x w')"

text \<open>\<open>x, err := m()\<close> with the error inspected by what follows.\<close>

definition inspect :: "('s, 'a) act \<Rightarrow> (goerr + 'a \<Rightarrow> ('s, 'b) act) \<Rightarrow> ('s, 'b) act" where
  "inspect m f = (\<lambda>w. case m w of (r, w') \<Rightarrow> f r w')"

text \<open>A pure check that may fail, and an update of the state outside.\<close>

definition lift :: "goerr + 'a \<Rightarrow> ('s, 'a) act" where
  "lift r = (\<lambda>w. (r, w))"

definition check :: "goerr option \<Rightarrow> ('s, unit) act" where
  "check e = (case e of None \<Rightarrow> ok () | Some x \<Rightarrow> throw x)"

definition tell :: "('s \<Rightarrow> 's) \<Rightarrow> ('s, unit) act" where
  "tell f = (\<lambda>w. (Inr (), w\<lparr>ext := f (ext w)\<rparr>))"

text \<open>Sending a request records it.\<close>

definition perform :: "'s env \<Rightarrow> request \<Rightarrow> ('s, response) act" where
  "perform E r =
     (\<lambda>w. case http_do E r (ext w) of (x, s) \<Rightarrow> (x, w\<lparr>ext := s, sent := sent w @ [r]\<rparr>))"

definition get_token :: "'s env \<Rightarrow> bool \<Rightarrow> ('s, string) act" where
  "get_token E refresh = (\<lambda>w. case token E refresh (ext w) of (x, s) \<Rightarrow> (x, w\<lparr>ext := s\<rparr>))"

definition pause :: "'s env \<Rightarrow> int \<Rightarrow> ('s, unit) act" where
  "pause E ms =
     (\<lambda>w. case sleep E ms (ext w) of
        (None, s) \<Rightarrow> (Inr (), w\<lparr>ext := s\<rparr>) | (Some e, s) \<Rightarrow> (Inl e, w\<lparr>ext := s\<rparr>))"

text \<open>An operation of package \<open>os\<close> that may fail, and what one does on the machine itself.\<close>

definition io :: "'s env \<Rightarrow> string \<Rightarrow> string \<Rightarrow> ('s, unit) act" where
  "io E op path =
     (\<lambda>w. case io_error E op path (ext w) of
        (None, s) \<Rightarrow> (Inr (), w\<lparr>ext := s\<rparr>) | (Some e, s) \<Rightarrow> (Inl e, w\<lparr>ext := s\<rparr>))"

definition on_disk ::
    "('s \<Rightarrow> (string \<rightharpoonup> string) \<Rightarrow> (goerr + 'a) \<times> 's \<times> (string \<rightharpoonup> string)) \<Rightarrow> ('s, 'a) act" where
  "on_disk f = (\<lambda>w. case f (ext w) (files w) of (r, s, m) \<Rightarrow> (r, w\<lparr>ext := s, files := m\<rparr>))"

section \<open>What an operation sends\<close>

text \<open>
  \<open>runs m Q\<close>: from every world, \<open>m\<close> keeps the requests already sent, appends a list
  \<open>l\<close> and returns \<open>r\<close> with \<open>Q l r\<close>.
\<close>

definition runs :: "('s, 'a) act \<Rightarrow> (request list \<Rightarrow> goerr + 'a \<Rightarrow> bool) \<Rightarrow> bool" where
  "runs m Q \<longleftrightarrow> (\<forall>w. \<exists>l. sent (snd (m w)) = sent w @ l \<and> Q l (fst (m w)))"

named_theorems runs_rules "rules of the calculus of sent requests"

lemma runsI:
  "(\<And>w. \<exists>l. sent (snd (m w)) = sent w @ l \<and> Q l (fst (m w))) \<Longrightarrow> runs m Q"
  by (simp add: runs_def)

lemma runsE:
  assumes "runs m Q"
  obtains l where "sent (snd (m w)) = sent w @ l" and "Q l (fst (m w))"
  using assms by (auto simp: runs_def)

lemma runs_mono: "runs m Q \<Longrightarrow> (\<And>l r. Q l r \<Longrightarrow> R l r) \<Longrightarrow> runs m R"
  by (fastforce simp: runs_def)

lemma runs_ok: "Q [] (Inr x) \<Longrightarrow> runs (ok x) Q"
  by (simp add: runs_def ok_def)

lemma runs_throw: "Q [] (Inl e) \<Longrightarrow> runs (throw e) Q"
  by (simp add: runs_def throw_def)

lemma runs_lift: "Q [] r \<Longrightarrow> runs (lift r) Q"
  by (simp add: runs_def lift_def)

lemma runs_tell: "Q [] (Inr ()) \<Longrightarrow> runs (tell f) Q"
  by (simp add: runs_def tell_def)

lemma runs_check: "Q [] (case e of None \<Rightarrow> Inr () | Some x \<Rightarrow> Inl x) \<Longrightarrow> runs (check e) Q"
  by (cases e) (simp_all add: check_def runs_ok runs_throw)

lemma runs_perform: "(\<And>x. Q [r] x) \<Longrightarrow> runs (perform E r) Q"
  by (rule runsI) (simp add: perform_def split: prod.split)

lemma runs_get_token: "(\<And>x. Q [] x) \<Longrightarrow> runs (get_token E b) Q"
  by (rule runsI) (simp add: get_token_def split: prod.split)

lemma runs_pause: "(\<And>x. Q [] x) \<Longrightarrow> runs (pause E ms) Q"
  by (rule runsI) (simp add: pause_def split: prod.split option.split)

lemma runs_io: "(\<And>x. Q [] x) \<Longrightarrow> runs (io E op p) Q"
  by (rule runsI) (simp add: io_def split: prod.split option.split)

lemma runs_on_disk: "(\<And>x. Q [] x) \<Longrightarrow> runs (on_disk f) Q"
  by (rule runsI) (simp add: on_disk_def split: prod.split)

lemma runs_andThen:
  assumes m: "runs m (\<lambda>l r. case r of Inl e \<Rightarrow> Q l (Inl e) | Inr x \<Rightarrow> P l x)"
    and f: "\<And>l x. P l x \<Longrightarrow> runs (f x) (\<lambda>l' r. Q (l @ l') r)"
  shows "runs (andThen m f) Q"
proof (rule runsI)
  fix w
  from m obtain l where l: "sent (snd (m w)) = sent w @ l"
    and q: "case fst (m w) of Inl e \<Rightarrow> Q l (Inl e) | Inr x \<Rightarrow> P l x"
    by (rule runsE)
  show "\<exists>l. sent (snd (andThen m f w)) = sent w @ l \<and> Q l (fst (andThen m f w))"
  proof (cases "m w")
    case (Pair r w')
    show ?thesis
    proof (cases r)
      case (Inl e)
      with Pair l q show ?thesis by (simp add: andThen_def)
    next
      case (Inr x)
      with Pair q have "runs (f x) (\<lambda>l' r. Q (l @ l') r)" by (simp add: f)
      then obtain l' where "sent (snd (f x w')) = sent w' @ l'" and "Q (l @ l') (fst (f x w'))"
        by (rule runsE)
      with Pair Inr l show ?thesis by (simp add: andThen_def)
    qed
  qed
qed

lemma runs_inspect:
  assumes m: "runs m P" and f: "\<And>l r. P l r \<Longrightarrow> runs (f r) (\<lambda>l' r'. Q (l @ l') r')"
  shows "runs (inspect m f) Q"
proof (rule runsI)
  fix w
  from m obtain l where l: "sent (snd (m w)) = sent w @ l" and p: "P l (fst (m w))"
    by (rule runsE)
  obtain r w' where mw: "m w = (r, w')" by (cases "m w")
  from f [OF p] mw have "runs (f r) (\<lambda>l' r'. Q (l @ l') r')" by simp
  then obtain l' where "sent (snd (f r w')) = sent w' @ l'" and "Q (l @ l') (fst (f r w'))"
    by (rule runsE)
  with mw l show "\<exists>l. sent (snd (inspect m f w)) = sent w @ l \<and> Q l (fst (inspect m f w))"
    by (simp add: inspect_def)
qed

text \<open>The special case \<open>sends P m\<close>: every request that \<open>m\<close> sends satisfies \<open>P\<close>.\<close>

definition sends :: "(request \<Rightarrow> bool) \<Rightarrow> ('s, 'a) act \<Rightarrow> bool" where
  "sends P m \<longleftrightarrow> runs m (\<lambda>l r. list_all P l)"

lemma sends_mono: "sends P m \<Longrightarrow> (\<And>r. P r \<Longrightarrow> R r) \<Longrightarrow> sends R m"
  by (auto simp: sends_def list_all_iff elim: runs_mono)

lemma sends_ok [runs_rules, simp]: "sends P (ok x)"
  and sends_throw [runs_rules, simp]: "sends P (throw e)"
  and sends_lift [runs_rules, simp]: "sends P (lift r)"
  and sends_tell [runs_rules, simp]: "sends P (tell f)"
  and sends_check [runs_rules, simp]: "sends P (check c)"
  and sends_get_token [runs_rules, simp]: "sends P (get_token E b)"
  and sends_pause [runs_rules, simp]: "sends P (pause E ms)"
  and sends_io [runs_rules, simp]: "sends P (io E op p)"
  and sends_on_disk [runs_rules, simp]: "sends P (on_disk g)"
  by (simp_all add: sends_def runs_ok runs_throw runs_lift runs_tell runs_check runs_get_token
      runs_pause runs_io runs_on_disk)

lemma sends_perform [runs_rules]: "P r \<Longrightarrow> sends P (perform E r)"
  by (simp add: sends_def runs_perform)

lemma sends_andThen [runs_rules]:
  "sends P m \<Longrightarrow> (\<And>x. sends P (f x)) \<Longrightarrow> sends P (andThen m f)"
  unfolding sends_def
  by (rule runs_andThen [where P = "\<lambda>l x. list_all P l"])
    (auto elim!: runs_mono split: sum.splits)

lemma sends_inspect [runs_rules]:
  "sends P m \<Longrightarrow> (\<And>r. sends P (f r)) \<Longrightarrow> sends P (inspect m f)"
  unfolding sends_def
  by (rule runs_inspect) (auto elim!: runs_mono)

lemma sends_check_then: "(c = None \<Longrightarrow> sends P (f ())) \<Longrightarrow> sends P (andThen (check c) f)"
  by (cases c) (simp_all add: check_def sends_def runs_def andThen_def ok_def throw_def)

lemma sends_lift_then:
  "(\<And>x. r = Inr x \<Longrightarrow> sends P (f x)) \<Longrightarrow> sends P (andThen (lift r) f)"
  by (cases r) (simp_all add: sends_def runs_def andThen_def lift_def)

lemma sendsD:
  assumes "sends P m"
  obtains l where "sent (snd (m w)) = sent w @ l" and "list_all P l"
  using assms unfolding sends_def by (rule runsE)

text \<open>Splitting the operation of a conditional or a case distinction.\<close>

lemma sends_if [runs_rules]:
  "(b \<Longrightarrow> sends P m) \<Longrightarrow> (\<not> b \<Longrightarrow> sends P n) \<Longrightarrow> sends P (if b then m else n)"
  by simp

lemma sends_sum [runs_rules]:
  "(\<And>e. r = Inl e \<Longrightarrow> sends P (f e)) \<Longrightarrow> (\<And>x. r = Inr x \<Longrightarrow> sends P (g x)) \<Longrightarrow>
     sends P (case r of Inl e \<Rightarrow> f e | Inr x \<Rightarrow> g x)"
  by (cases r) auto

lemma sends_option [runs_rules]:
  "(r = None \<Longrightarrow> sends P m) \<Longrightarrow> (\<And>x. r = Some x \<Longrightarrow> sends P (g x)) \<Longrightarrow>
     sends P (case r of None \<Rightarrow> m | Some x \<Rightarrow> g x)"
  by (cases r) auto

lemma sends_prod [runs_rules]:
  "(\<And>a b. r = (a, b) \<Longrightarrow> sends P (f a b)) \<Longrightarrow> sends P (case r of (a, b) \<Rightarrow> f a b)"
  by (cases r) auto

lemma sends_let [runs_rules]: "sends P (f x) \<Longrightarrow> sends P (let y = x in f y)"
  by simp

section \<open>The requests of one run\<close>

definition requests :: "('s, 'a) act \<Rightarrow> 's world \<Rightarrow> request list" where
  "requests m w = drop (length (sent w)) (sent (snd (m w)))"

lemma runs_requests: "runs m Q \<Longrightarrow> Q (requests m w) (fst (m w))"
  by (erule runsE [where w = w]) (simp add: requests_def)

lemma sends_requests: "sends P m \<Longrightarrow> r \<in> set (requests m w) \<Longrightarrow> P r"
  unfolding sends_def by (drule runs_requests [where w = w]) (simp add: list_all_iff)

text \<open>An operation that never takes back what was sent.\<close>

abbreviation extends :: "('s, 'a) act \<Rightarrow> bool" where
  "extends m \<equiv> sends (\<lambda>_. True) m"

lemma sends_extends: "sends P m \<Longrightarrow> extends m"
  by (erule sends_mono) simp

lemma sent_requests: "extends m \<Longrightarrow> sent (snd (m w)) = sent w @ requests m w"
  unfolding sends_def by (erule runsE [where w = w]) (simp add: requests_def)

lemma andThen_Inl: "m w = (Inl e, w') \<Longrightarrow> andThen m f w = (Inl e, w')"
  and andThen_Inr: "m w = (Inr x, w') \<Longrightarrow> andThen m f w = f x w'"
  by (simp_all add: andThen_def)

lemma inspect_eq: "m w = (r, w') \<Longrightarrow> inspect m f w = f r w'"
  by (simp add: inspect_def)

lemma andThen_kept:
  "m w = (Inr x, w') \<Longrightarrow> r \<in> set (sent w') \<Longrightarrow> extends (f x) \<Longrightarrow>
     r \<in> set (sent (snd (andThen m f w)))"
  by (simp add: andThen_def sent_requests)

lemmas act_steps = andThen_Inl andThen_Inr inspect_eq

lemma requests_pure [simp]:
  "requests (ok x) w = []" "requests (throw e) w = []" "requests (lift r) w = []"
  "requests (tell f) w = []"
  by (simp_all add: requests_def ok_def throw_def lift_def tell_def)

lemma requests_andThen_Inl: "m w = (Inl e, w') \<Longrightarrow> requests (andThen m f) w = requests m w"
  by (simp add: requests_def andThen_Inl)

lemma requests_andThen_Inr:
  assumes "m w = (Inr x, w')" and "extends m" and "extends (f x)"
  shows "requests (andThen m f) w = requests m w @ requests (f x) w'"
proof -
  have "andThen m f w = f x w'" by (simp add: andThen_def assms(1))
  with sent_requests [OF assms(2), of w] sent_requests [OF assms(3), of w'] show ?thesis
    by (simp add: requests_def [of "andThen m f"] assms(1))
qed

lemma requests_inspect:
  assumes "m w = (r, w')" and "extends m" and "extends (f r)"
  shows "requests (inspect m f) w = requests m w @ requests (f r) w'"
proof -
  have "inspect m f w = f r w'" by (simp add: inspect_def assms(1))
  with sent_requests [OF assms(2), of w] sent_requests [OF assms(3), of w'] show ?thesis
    by (simp add: requests_def [of "inspect m f"] assms(1))
qed

text \<open>Which part of an operation sent a request, when the first part cannot have.\<close>

lemma requests_after:
  assumes "r \<in> set (requests (andThen m f) w)" and "sends (\<lambda>r. \<not> D r) m" and "\<And>x. extends (f x)" and "D r"
  obtains x w' where "m w = (Inr x, w')" and "r \<in> set (requests (f x) w')"
proof -
  have ext: "extends m" using assms(2) by (rule sends_extends)
  have none: "r \<notin> set (requests m w)" using assms(2,4) sends_requests by blast
  obtain x' w' where m: "m w = (x', w')" by (cases "m w")
  show ?thesis
  proof (cases x')
    case (Inl e)
    with m none assms(1) show ?thesis by (simp add: requests_andThen_Inl)
  next
    case (Inr x)
    with m none assms(1) ext assms(3) have "r \<in> set (requests (f x) w')"
      by (simp add: requests_andThen_Inr)
    with m Inr that show ?thesis by blast
  qed
qed

lemma requests_after_inspect:
  assumes "r \<in> set (requests (inspect m f) w)" and "sends (\<lambda>r. \<not> D r) m" and "\<And>x. extends (f x)" and "D r"
  obtains x w' where "m w = (x, w')" and "r \<in> set (requests (f x) w')"
proof -
  obtain x w' where m: "m w = (x, w')" by (cases "m w")
  have "r \<notin> set (requests m w)" using assms(2,4) sends_requests by blast
  with m assms(1,3) sends_extends [OF assms(2)] have "r \<in> set (requests (f x) w')"
    by (simp add: requests_inspect)
  with m that show ?thesis by blast
qed

lemma requests_check: "requests (check c) w = []"
  by (simp add: requests_def check_def ok_def throw_def split: option.split)

lemma requests_sends_only: "r \<in> set (requests m w) \<Longrightarrow> sends (\<lambda>r. \<not> D r) m \<Longrightarrow> \<not> D r"
  using sends_requests by blast

lemma act_simps [simp]:
  "ok x w = (Inr x, w)" "throw e w = (Inl e, w)" "lift r w = (r, w)"
  by (simp_all add: ok_def throw_def lift_def)

section \<open>What an operation does to the world\<close>

text \<open>\<open>leads P m Q\<close>: from a world with \<open>P\<close>, \<open>m\<close> returns \<open>r\<close> in a world with \<open>Q r\<close>.\<close>

definition leads ::
    "('s world \<Rightarrow> bool) \<Rightarrow> ('s, 'a) act \<Rightarrow> (goerr + 'a \<Rightarrow> 's world \<Rightarrow> bool) \<Rightarrow> bool" where
  "leads P m Q \<longleftrightarrow> (\<forall>w. P w \<longrightarrow> Q (fst (m w)) (snd (m w)))"

named_theorems leads_rules "rules of the calculus of effects"

lemma leadsD: "leads P m Q \<Longrightarrow> m w = (r, w') \<Longrightarrow> P w \<Longrightarrow> Q r w'"
  by (auto simp: leads_def)

lemma leads_mono:
  "leads P m Q \<Longrightarrow> (\<And>w. P' w \<Longrightarrow> P w) \<Longrightarrow> (\<And>r w. Q r w \<Longrightarrow> Q' r w) \<Longrightarrow> leads P' m Q'"
  by (simp add: leads_def)

lemma leads_andThen:
  assumes "leads P m (\<lambda>r w. case r of Inl e \<Rightarrow> Q (Inl e) w | Inr x \<Rightarrow> R x w)"
    and "\<And>x. leads (R x) (f x) Q"
  shows "leads P (andThen m f) Q"
  unfolding leads_def
proof (intro allI impI)
  fix w assume "P w"
  obtain r w' where m: "m w = (r, w')" by (cases "m w")
  with leadsD [OF assms(1) this \<open>P w\<close>] assms(2) show "Q (fst (andThen m f w)) (snd (andThen m f w))"
    by (cases r) (auto simp: andThen_def leads_def)
qed

lemma leads_inspect:
  assumes "leads P m R" and "\<And>r. leads (R r) (f r) Q"
  shows "leads P (inspect m f) Q"
  unfolding leads_def
proof (intro allI impI)
  fix w assume "P w"
  obtain r w' where m: "m w = (r, w')" by (cases "m w")
  with leadsD [OF assms(1) this \<open>P w\<close>] assms(2) show "Q (fst (inspect m f w)) (snd (inspect m f w))"
    by (auto simp: inspect_def leads_def)
qed

lemma leads_ok: "(\<And>w. P w \<Longrightarrow> Q (Inr x) w) \<Longrightarrow> leads P (ok x) Q"
  and leads_throw: "(\<And>w. P w \<Longrightarrow> Q (Inl e) w) \<Longrightarrow> leads P (throw e) Q"
  and leads_lift: "(\<And>w. P w \<Longrightarrow> Q r w) \<Longrightarrow> leads P (lift r) Q"
  by (simp_all add: leads_def ok_def throw_def lift_def)

lemma leads_io: "(\<And>w s r. P w \<Longrightarrow> Q r (w\<lparr>ext := s\<rparr>)) \<Longrightarrow> leads P (io E op p) Q"
  by (auto simp: leads_def io_def split: prod.split option.split)

lemma leads_on_disk:
  "(\<And>w r s m. P w \<Longrightarrow> f (ext w) (files w) = (r, s, m) \<Longrightarrow> Q r (w\<lparr>ext := s, files := m\<rparr>)) \<Longrightarrow>
     leads P (on_disk f) Q"
  by (auto simp: leads_def on_disk_def split: prod.split)

section \<open>What an operation returns\<close>

text \<open>\<open>gives R m\<close>: whenever \<open>m\<close> returns a value, the value satisfies \<open>R\<close>.\<close>

definition gives :: "('a \<Rightarrow> bool) \<Rightarrow> ('s, 'a) act \<Rightarrow> bool" where
  "gives R m \<longleftrightarrow> (\<forall>w x w'. m w = (Inr x, w') \<longrightarrow> R x)"

named_theorems gives_rules "rules of the calculus of results"

lemma givesD: "gives R m \<Longrightarrow> m w = (Inr x, w') \<Longrightarrow> R x"
  by (auto simp: gives_def)

lemma gives_mono: "gives R m \<Longrightarrow> (\<And>x. R x \<Longrightarrow> Q x) \<Longrightarrow> gives Q m"
  by (auto simp: gives_def)

lemma gives_ok [gives_rules]: "R x \<Longrightarrow> gives R (ok x)"
  and gives_throw [gives_rules, simp]: "gives R (throw e)"
  and gives_lift: "(\<And>x. r = Inr x \<Longrightarrow> R x) \<Longrightarrow> gives R (lift r)"
  and gives_True [simp]: "gives (\<lambda>_. True) m"
  by (simp_all add: gives_def)

lemma gives_andThen: "gives R m \<Longrightarrow> (\<And>x. R x \<Longrightarrow> gives Q (f x)) \<Longrightarrow> gives Q (andThen m f)"
  by (fastforce simp: gives_def andThen_def split: prod.splits sum.splits)

lemma gives_then [gives_rules]: "(\<And>x. gives Q (f x)) \<Longrightarrow> gives Q (andThen m f)"
  by (rule gives_andThen [where R = "\<lambda>_. True"]) simp_all

lemma gives_check_then: "(c = None \<Longrightarrow> gives Q (f ())) \<Longrightarrow> gives Q (andThen (check c) f)"
  by (cases c) (simp_all add: gives_def check_def andThen_def)

lemma gives_lift_then: "(\<And>x. r = Inr x \<Longrightarrow> gives Q (f x)) \<Longrightarrow> gives Q (andThen (lift r) f)"
  by (cases r) (simp_all add: gives_def andThen_def)

lemma gives_inspect:
  "gives R m \<Longrightarrow> (\<And>e. gives Q (f (Inl e))) \<Longrightarrow> (\<And>x. R x \<Longrightarrow> gives Q (f (Inr x))) \<Longrightarrow> gives Q (inspect m f)"
  unfolding gives_def inspect_def by (auto split: prod.splits) (metis old.sum.exhaust)

lemma gives_inspected [gives_rules]: "(\<And>r. gives Q (f r)) \<Longrightarrow> gives Q (inspect m f)"
  by (rule gives_inspect [where R = "\<lambda>_. True"]) simp_all

lemma gives_if [gives_rules]:
  "(b \<Longrightarrow> gives R m) \<Longrightarrow> (\<not> b \<Longrightarrow> gives R n) \<Longrightarrow> gives R (if b then m else n)"
  by simp

lemma gives_sum [gives_rules]:
  "(\<And>e. r = Inl e \<Longrightarrow> gives R (f e)) \<Longrightarrow> (\<And>x. r = Inr x \<Longrightarrow> gives R (g x)) \<Longrightarrow>
     gives R (case r of Inl e \<Rightarrow> f e | Inr x \<Rightarrow> g x)"
  by (cases r) auto

lemma gives_option [gives_rules]:
  "(r = None \<Longrightarrow> gives R m) \<Longrightarrow> (\<And>x. r = Some x \<Longrightarrow> gives R (g x)) \<Longrightarrow>
     gives R (case r of None \<Rightarrow> m | Some x \<Rightarrow> g x)"
  by (cases r) auto

lemma gives_prod [gives_rules]:
  "(\<And>a b. r = (a, b) \<Longrightarrow> gives R (f a b)) \<Longrightarrow> gives R (case r of (a, b) \<Rightarrow> f a b)"
  by (cases r) auto

text \<open>An operation whose continuation depends on what the first part returned.\<close>

lemma sends_gives:
  assumes "sends P m" and "gives R m" and "\<And>x. R x \<Longrightarrow> sends P (f x)"
  shows "sends P (andThen m f)"
  unfolding sends_def
proof (rule runsI)
  fix w
  obtain r w' where m: "m w = (r, w')" by (cases "m w")
  from assms(1) obtain l where l: "sent w' = sent w @ l" "list_all P l"
    by (rule sendsD [where w = w]) (simp add: m)
  show "\<exists>l. sent (snd (andThen m f w)) = sent w @ l \<and> list_all P l"
  proof (cases r)
    case (Inl e)
    with m l show ?thesis by (simp add: andThen_def)
  next
    case (Inr x)
    with assms(2) m have "sends P (f x)" by (intro assms(3)) (auto dest: givesD)
    then obtain l' where "sent (snd (f x w')) = sent w' @ l'" "list_all P l'"
      by (rule sendsD)
    with m Inr l show ?thesis by (simp add: andThen_def)
  qed
qed

section \<open>Evaluating a run\<close>

text \<open>
  Rewriting a run in a concrete setting from its first operation on: the operations that follow
  are not touched before the result they depend on is known.
\<close>

definition step_case ::
    "(goerr + 'a) \<times> 's world \<Rightarrow> ('a \<Rightarrow> ('s, 'b) act) \<Rightarrow> (goerr + 'b) \<times> 's world" where
  "step_case p f = (case p of (Inl e, w) \<Rightarrow> (Inl e, w) | (Inr x, w) \<Rightarrow> f x w)"

definition inspect_case ::
    "(goerr + 'a) \<times> 's world \<Rightarrow> (goerr + 'a \<Rightarrow> ('s, 'b) act) \<Rightarrow> (goerr + 'b) \<times> 's world" where
  "inspect_case p f = (case p of (x, w) \<Rightarrow> f x w)"

lemma run_simps:
  "andThen m f w = step_case (m w) f" "inspect m g w = inspect_case (m w) g"
  "step_case (Inl e, w) f = (Inl e, w)" "step_case (Inr x, w) f = f x w"
  "inspect_case (r, w) g = g r w" "tell h w = (Inr (), w\<lparr>ext := h (ext w)\<rparr>)"
  "check None w = (Inr (), w)" "check (Some e) w = (Inl e, w)"
  by (simp_all add: andThen_def inspect_def step_case_def inspect_case_def tell_def check_def)

lemma run_congs:
  "w = w' \<Longrightarrow> andThen m f w = andThen m f w'" "w = w' \<Longrightarrow> inspect m g w = inspect m g w'"
  "p = q \<Longrightarrow> step_case p f = step_case q f" "p' = q' \<Longrightarrow> inspect_case p' g = inspect_case q' g"
  by simp_all

end
