(* ===== verification/Api_Types.thy ===== *)
theory Api_Types
  imports Go_Runtime
begin

text \<open>
  The data of the AnyShare API client of \<open>api.go\<close>: the response structs with their JSON
  decoding, the error envelope with its codes, and the classification of errors that the
  re-authentication and the retry loops branch on.
\<close>

section \<open>Response types\<close>

record library =
  lib_ID :: string
  lib_Name :: string
  lib_Type :: string
  lib_ModifiedAt :: string

record apiEntry =
  e_DocID :: string
  e_Name :: string
  e_Size :: int64
  e_Modified :: int64
  e_ClientMTime :: int64
  e_Rev :: string

record directoryListing =
  l_Dirs :: "apiEntry list"
  l_Files :: "apiEntry list"

record fileMetadata =
  m_DocID :: string
  m_Name :: string
  m_NameAlt :: string
  m_Size :: int64
  m_Modified :: int64
  m_ClientMTime :: int64
  m_Rev :: string
  m_DocLibType :: string

definition fileName :: "fileMetadata \<Rightarrow> string" where
  "fileName m = (if m_Name m \<noteq> [] then m_Name m else m_NameAlt m)"

record mutationResult =
  r_DocID :: string
  r_ID :: string
  r_Name :: string
  r_Rev :: string

definition docID :: "mutationResult \<Rightarrow> string" where
  "docID r = (if r_DocID r \<noteq> [] then r_DocID r else r_ID r)"

section \<open>Decoding of the response types\<close>

text \<open>
  A decoder takes the entries of a JSON object and gives the struct filled from the zero value
  and whether every field had the right type.
\<close>

definition str_field :: "string \<Rightarrow> (string \<times> json) list \<Rightarrow> string \<times> bool" where
  "str_field name kvs = dec_field name dec_str [] kvs"

definition int_field :: "string \<Rightarrow> (string \<times> json) list \<Rightarrow> int64 \<times> bool" where
  "int_field name kvs = dec_field name dec_int 0 kvs"

definition zero_library :: library where
  "zero_library = \<lparr>lib_ID = [], lib_Name = [], lib_Type = [], lib_ModifiedAt = []\<rparr>"

definition dec_library :: "library \<Rightarrow> json \<Rightarrow> library \<times> bool" where
  "dec_library old j =
     (case struct_entries j of
        None \<Rightarrow> (old, False)
      | Some kvs \<Rightarrow>
          (let (i, a) = dec_field ''id'' dec_str (lib_ID old) kvs;
               (n, b) = dec_field ''name'' dec_str (lib_Name old) kvs;
               (t, c) = dec_field ''type'' dec_str (lib_Type old) kvs;
               (m, d) = dec_field ''modified_at'' dec_str (lib_ModifiedAt old) kvs
           in (\<lparr>lib_ID = i, lib_Name = n, lib_Type = t, lib_ModifiedAt = m\<rparr>, a \<and> b \<and> c \<and> d)))"

definition zero_entry :: "apiEntry" where
  "zero_entry =
     \<lparr>e_DocID = [], e_Name = [], e_Size = 0, e_Modified = 0, e_ClientMTime = 0, e_Rev = []\<rparr>"

definition dec_entry :: "apiEntry \<Rightarrow> json \<Rightarrow> apiEntry \<times> bool" where
  "dec_entry old j =
     (case struct_entries j of
        None \<Rightarrow> (old, False)
      | Some kvs \<Rightarrow>
          (let (i, a) = dec_field ''docid'' dec_str (e_DocID old) kvs;
               (n, b) = dec_field ''name'' dec_str (e_Name old) kvs;
               (z, c) = dec_field ''size'' dec_int (e_Size old) kvs;
               (m, d) = dec_field ''modified'' dec_int (e_Modified old) kvs;
               (t, e) = dec_field ''client_mtime'' dec_int (e_ClientMTime old) kvs;
               (r, f) = dec_field ''rev'' dec_str (e_Rev old) kvs
           in (\<lparr>e_DocID = i, e_Name = n, e_Size = z, e_Modified = m, e_ClientMTime = t, e_Rev = r\<rparr>,
               a \<and> b \<and> c \<and> d \<and> e \<and> f)))"

definition zero_listing :: directoryListing where
  "zero_listing = \<lparr>l_Dirs = [], l_Files = []\<rparr>"

definition dec_listing :: "directoryListing \<Rightarrow> json \<Rightarrow> directoryListing \<times> bool" where
  "dec_listing old j =
     (case struct_entries j of
        None \<Rightarrow> (old, False)
      | Some kvs \<Rightarrow>
          (let (d, a) = dec_field ''dirs'' (dec_list dec_entry zero_entry) (l_Dirs old) kvs;
               (f, b) = dec_field ''files'' (dec_list dec_entry zero_entry) (l_Files old) kvs
           in (\<lparr>l_Dirs = d, l_Files = f\<rparr>, a \<and> b)))"

definition zero_metadata :: fileMetadata where
  "zero_metadata =
     \<lparr>m_DocID = [], m_Name = [], m_NameAlt = [], m_Size = 0, m_Modified = 0, m_ClientMTime = 0,
      m_Rev = [], m_DocLibType = []\<rparr>"

definition dec_metadata :: "fileMetadata \<Rightarrow> json \<Rightarrow> fileMetadata \<times> bool" where
  "dec_metadata old j =
     (case struct_entries j of
        None \<Rightarrow> (old, False)
      | Some kvs \<Rightarrow>
          (let (i, a) = dec_field ''docid'' dec_str (m_DocID old) kvs;
               (n, b) = dec_field ''file_name'' dec_str (m_Name old) kvs;
               (x, c) = dec_field ''name'' dec_str (m_NameAlt old) kvs;
               (z, d) = dec_field ''size'' dec_int (m_Size old) kvs;
               (m, e) = dec_field ''modified'' dec_int (m_Modified old) kvs;
               (t, f) = dec_field ''client_mtime'' dec_int (m_ClientMTime old) kvs;
               (r, g) = dec_field ''rev'' dec_str (m_Rev old) kvs;
               (l, h) = dec_field ''doc_lib_type'' dec_str (m_DocLibType old) kvs
           in (\<lparr>m_DocID = i, m_Name = n, m_NameAlt = x, m_Size = z, m_Modified = m,
                m_ClientMTime = t, m_Rev = r, m_DocLibType = l\<rparr>,
               a \<and> b \<and> c \<and> d \<and> e \<and> f \<and> g \<and> h)))"

definition zero_mutation :: mutationResult where
  "zero_mutation = \<lparr>r_DocID = [], r_ID = [], r_Name = [], r_Rev = []\<rparr>"

definition dec_mutation :: "mutationResult \<Rightarrow> json \<Rightarrow> mutationResult \<times> bool" where
  "dec_mutation old j =
     (case struct_entries j of
        None \<Rightarrow> (old, False)
      | Some kvs \<Rightarrow>
          (let (i, a) = dec_field ''docid'' dec_str (r_DocID old) kvs;
               (d, b) = dec_field ''id'' dec_str (r_ID old) kvs;
               (n, c) = dec_field ''name'' dec_str (r_Name old) kvs;
               (r, e) = dec_field ''rev'' dec_str (r_Rev old) kvs
           in (\<lparr>r_DocID = i, r_ID = d, r_Name = n, r_Rev = r\<rparr>, a \<and> b \<and> c \<and> e)))"

section \<open>Errors of the API\<close>

definition editRevisionConflictCode :: int where
  "editRevisionConflictCode = 403203"

definition reauthenticationCodes :: "int list" where
  "reauthenticationCodes =
     [401001001, 401001002, 401001003, 401001004, 401001005, 401001011, 401001025, 401001031,
      401001033, 401001036, 401001051]"

text \<open>\<open>Error\<close> of an \<open>apiError\<close>, from its fields.\<close>

definition apiError_Error :: "int \<Rightarrow> int64 \<Rightarrow> string \<Rightarrow> string" where
  "apiError_Error st c m =
     (if c \<noteq> 0 then ''PKU Disk API error: HTTP '' @ FormatInt st @ '', code '' @ FormatInt c @ '': '' @ m
      else ''PKU Disk API error: HTTP '' @ FormatInt st @ '': '' @ m)"

definition isEditRevisionConflict :: "goerr \<Rightarrow> bool" where
  "isEditRevisionConflict e =
     (case as_api e of Some (s, c) \<Rightarrow> c = editRevisionConflictCode | None \<Rightarrow> False)"

fun firstNonEmpty :: "string list \<Rightarrow> string" where
  "firstNonEmpty [] = []"
| "firstNonEmpty (v # vs) = (if v \<noteq> [] then v else firstNonEmpty vs)"

text \<open>The error code of a response; it is sent as a number or as a string.\<close>

definition parseErrorCode :: "json option \<Rightarrow> int64" where
  "parseErrorCode raw =
     (case raw of
        None \<Rightarrow> 0
      | Some JNull \<Rightarrow> 0
      | Some v \<Rightarrow>
          (case dec_int 0 v of
             (n, True) \<Rightarrow> n
           | (_, False) \<Rightarrow>
               (case v of
                  JStr s \<Rightarrow> (case Sscan_int s of Some n \<Rightarrow> n | None \<Rightarrow> 0)
                | _ \<Rightarrow> 0)))"

record apiErrorEnvelope =
  env_Code :: "json option"
  env_ErrCode :: "json option"
  env_Message :: string
  env_Msg :: string
  env_Detail :: string
  env_Error :: string

definition dec_envelope :: "string \<Rightarrow> apiErrorEnvelope" where
  "dec_envelope data =
     (let kvs = (case json_parse data of
                   None \<Rightarrow> []
                 | Some j \<Rightarrow> (case struct_entries j of None \<Rightarrow> [] | Some kvs \<Rightarrow> kvs))
      in \<lparr>env_Code = fst (dec_field ''code'' dec_raw None kvs),
          env_ErrCode = fst (dec_field ''errcode'' dec_raw None kvs),
          env_Message = fst (str_field ''message'' kvs),
          env_Msg = fst (str_field ''msg'' kvs),
          env_Detail = fst (str_field ''detail'' kvs),
          env_Error = fst (str_field ''error'' kvs)\<rparr>)"

definition parseAPIError :: "int \<Rightarrow> string \<Rightarrow> goerr option" where
  "parseAPIError st data =
     (let envelope = dec_envelope data;
          c0 = parseErrorCode (env_Code envelope);
          c = (if c0 = 0 then parseErrorCode (env_ErrCode envelope) else c0);
          m0 = firstNonEmpty [env_Message envelope, env_Msg envelope, env_Detail envelope,
                              env_Error envelope];
          m = (if m0 = [] then StatusText st else m0)
      in if st \<ge> 400 \<or> c \<ge> 400000000 then Some (ApiError st c m) else None)"

definition isAuthError :: "goerr \<Rightarrow> bool" where
  "isAuthError e =
     (case as_api e of
        None \<Rightarrow> False
      | Some (s, c) \<Rightarrow> s = 401 \<or> c \<in> set reauthenticationCodes)"

definition isTransientError :: "goerr \<Rightarrow> bool" where
  "isTransientError e =
     (if err_is e DeadlineExceeded then True
      else case as_api e of
             Some (s, c) \<Rightarrow> s = 429 \<or> s \<ge> 500
           | None \<Rightarrow> (case as_net_timeout e of Some t \<Rightarrow> t | None \<Rightarrow> False))"

end
