(* ===== verification/Api_Client.thy ===== *)
theory Api_Client
  imports Api_Types
begin

text \<open>
  The AnyShare API client of \<open>api.go\<close>: the bearer-token request with one re-authentication,
  the bounded retry of transient failures, and the API operations on libraries, directories and
  files. The service is the parameter \<open>http_do\<close> of the environment. A time-out or a delay is
  a number of milliseconds; a Go time is the number of nanoseconds since the epoch, \<open>None\<close>
  being the zero \<open>time.Time\<close>.
\<close>

section \<open>Requests\<close>

definition defaultBaseURL :: string where
  "defaultBaseURL = ''https://disk.pku.edu.cn''"

text \<open>\<open>newAPIClient\<close> keeps the base URL without trailing slashes.\<close>

definition newAPIClient_base :: "string \<Rightarrow> string" where
  "newAPIClient_base u =
     TrimRight CHR ''/'' (if TrimSpace u = [] then defaultBaseURL else u)"

definition endpoint :: "'s env \<Rightarrow> string \<Rightarrow> string" where
  "endpoint E p = base_url E @ ''/api/'' @ TrimLeft CHR ''/'' p"

text \<open>\<open>io.ReadAll(io.LimitReader(body, n))\<close>.\<close>

definition limit_read :: "int \<Rightarrow> string \<Rightarrow> string" where
  "limit_read n s = (if int (length s) \<le> n then s else take (nat n) s)"

definition api_request ::
    "'s env \<Rightarrow> client \<Rightarrow> int option \<Rightarrow> string \<Rightarrow> string \<Rightarrow> json option \<Rightarrow> string \<Rightarrow> request" where
  "api_request E cl dl method ep body tok =
     \<lparr>via = cl, deadline = dl, verb = method, url = endpoint E ep,
      headers = [(''Authorization'', ''Bearer '' @ tok), (''Accept'', ''application/json'')]
        @ (if body = None then [] else [(''Content-Type'', ''application/json'')]),
      payload = (case body of None \<Rightarrow> NoBody | Some j \<Rightarrow> JsonBody j)\<rparr>"

text \<open>One round of the loop of \<open>doWithClient\<close>, up to the response's status and data.\<close>

definition exchange ::
    "'s env \<Rightarrow> client \<Rightarrow> int option \<Rightarrow> string \<Rightarrow> string \<Rightarrow> json option \<Rightarrow> bool \<Rightarrow>
       ('s, int \<times> string) act" where
  "exchange E cl dl method ep body refresh =
     andThen (get_token E refresh) (\<lambda>tok.
     andThen (check (request_error E method (endpoint E ep))) (\<lambda>_.
     inspect (perform E (api_request E cl dl method ep body tok)) (\<lambda>r.
       case r of
         Inl e \<Rightarrow> throw (Errorf ''PKU Disk request failed: %w'' [] [] [e])
       | Inr resp \<Rightarrow>
           andThen (check (read_error resp)) (\<lambda>_.
           andThen (check (close_error resp)) (\<lambda>_.
             ok (resp_status resp, limit_read 16777216 (resp_body resp)))))))"

fun doWithClient_from ::
    "'s env \<Rightarrow> client \<Rightarrow> int option \<Rightarrow> string \<Rightarrow> string \<Rightarrow> json option \<Rightarrow> nat \<Rightarrow> nat \<Rightarrow>
       ('s, string) act" where
  "doWithClient_from E cl dl method ep body attempt 0 =
     throw (ErrNew ''PKU Disk authentication failed after token refresh'')"
| "doWithClient_from E cl dl method ep body attempt (Suc n) =
     andThen (exchange E cl dl method ep body (attempt > 0)) (\<lambda>(st, data).
       case parseAPIError st data of
         None \<Rightarrow> ok data
       | Some apiErr \<Rightarrow>
           if attempt = 0 \<and> isAuthError apiErr
           then doWithClient_from E cl dl method ep body (Suc attempt) n
           else throw apiErr)"

definition doWithClient ::
    "'s env \<Rightarrow> client \<Rightarrow> int option \<Rightarrow> string \<Rightarrow> string \<Rightarrow> json option \<Rightarrow> ('s, string) act" where
  "doWithClient E cl dl method ep body = doWithClient_from E cl dl method ep body 0 2"

definition do_api ::
    "'s env \<Rightarrow> int option \<Rightarrow> string \<Rightarrow> string \<Rightarrow> json option \<Rightarrow> ('s, string) act" where
  "do_api E dl method ep body = doWithClient E ApiHTTP dl method ep body"

definition decode_response ::
    "string \<Rightarrow> ('a \<Rightarrow> json \<Rightarrow> 'a \<times> bool) \<Rightarrow> 'a \<Rightarrow> string \<Rightarrow> goerr + 'a" where
  "decode_response ep dec zero data =
     (let bad = Inl (Errorf ''decode PKU Disk response from %s: %w'' [ep] [] [Foreign ''json''])
      in if TrimSpace data = [] then Inr zero
         else (case json_parse data of
                 None \<Rightarrow> bad
               | Some j \<Rightarrow> (case dec zero j of (x, True) \<Rightarrow> Inr x | (_, False) \<Rightarrow> bad)))"

definition doJSON ::
    "'s env \<Rightarrow> int option \<Rightarrow> string \<Rightarrow> string \<Rightarrow> json option \<Rightarrow>
       ('a \<Rightarrow> json \<Rightarrow> 'a \<times> bool) \<Rightarrow> 'a \<Rightarrow> ('s, 'a) act" where
  "doJSON E dl method ep body dec zero =
     andThen (do_api E dl method ep body) (\<lambda>data. lift (decode_response ep dec zero data))"

section \<open>Bounded retry\<close>

definition transientReadAttempts :: nat where
  "transientReadAttempts = 3"

definition transientRetryDelay :: int where
  "transientRetryDelay = 250"

definition transientReadTimeout :: "nat \<Rightarrow> int" where
  "transientReadTimeout attempt = (if attempt = 0 then 20000 else 60000)"

text \<open>
  The loop of \<open>retryTransient\<close> from attempt \<open>i\<close> on; \<open>zero\<close> is what the callback's result
  variable holds when the loop body never runs.
\<close>

function retry_from ::
    "'s env \<Rightarrow> nat \<Rightarrow> 'a \<Rightarrow> (nat \<Rightarrow> ('s, 'a) act) \<Rightarrow> nat \<Rightarrow> ('s, 'a) act" where
  "retry_from E attempts zero fn i =
     (if i < attempts then
        inspect (fn i) (\<lambda>r.
          case r of
            Inr x \<Rightarrow> ok x
          | Inl e \<Rightarrow>
              if \<not> isTransientError e \<or> i + 1 = attempts then throw e
              else andThen (pause E (transientRetryDelay * 2 ^ i)) (\<lambda>_.
                     retry_from E attempts zero fn (i + 1)))
      else ok zero)"
  by pat_completeness auto
termination
  by (relation "measure (\<lambda>(E, attempts, zero, fn, i). attempts - i)") auto

declare retry_from.simps [simp del]

definition retryTransient ::
    "'s env \<Rightarrow> nat \<Rightarrow> 'a \<Rightarrow> (nat \<Rightarrow> ('s, 'a) act) \<Rightarrow> ('s, 'a) act" where
  "retryTransient E attempts zero fn = retry_from E attempts zero fn 0"

definition doJSONWithTransientRetry ::
    "'s env \<Rightarrow> string \<Rightarrow> string \<Rightarrow> json option \<Rightarrow>
       ('a \<Rightarrow> json \<Rightarrow> 'a \<times> bool) \<Rightarrow> 'a \<Rightarrow> ('s, 'a) act" where
  "doJSONWithTransientRetry E method ep body dec zero =
     retryTransient E transientReadAttempts zero (\<lambda>attempt.
       doJSON E (Some (transientReadTimeout attempt)) method ep body dec zero)"

section \<open>API operations\<close>

definition libraries :: "'s env \<Rightarrow> ('s, library list) act" where
  "libraries E =
     doJSONWithTransientRetry E ''GET'' ''efast/v1/entry-doc-lib'' None
       (dec_list dec_library zero_library) []"

definition listDir :: "'s env \<Rightarrow> string \<Rightarrow> ('s, directoryListing) act" where
  "listDir E docid =
     doJSONWithTransientRetry E ''POST'' ''efast/v1/dir/list''
       (Some (JObj [(''docid'', JStr docid), (''by'', JStr ''name''), (''sort'', JStr ''asc'')]))
       dec_listing zero_listing"

definition metadata :: "'s env \<Rightarrow> string \<Rightarrow> ('s, fileMetadata) act" where
  "metadata E docid =
     andThen (doJSONWithTransientRetry E ''POST'' ''efast/v1/file/metadata''
         (Some (JObj [(''docid'', JStr docid)])) dec_metadata zero_metadata)
       (\<lambda>m. ok (if m_DocID m = [] then m\<lparr>m_DocID := docid\<rparr> else m))"

definition getInfoByPath :: "'s env \<Rightarrow> string \<Rightarrow> ('s, apiEntry) act" where
  "getInfoByPath E namePath =
     doJSONWithTransientRetry E ''POST'' ''efast/v1/file/getinfobypath''
       (Some (JObj [(''namepath'', JStr namePath)])) dec_entry zero_entry"

definition createDir :: "'s env \<Rightarrow> string \<Rightarrow> string \<Rightarrow> ('s, string) act" where
  "createDir E parentID name =
     andThen (doJSON E None ''POST'' ''efast/v1/dir/create''
         (Some (JObj [(''docid'', JStr parentID), (''name'', JStr name), (''ondup'', JNum ''1'')]))
         dec_mutation zero_mutation)
       (\<lambda>result.
         if docID result \<noteq> [] then ok (docID result)
         else andThen (listDir E parentID) (\<lambda>listing.
           case find (\<lambda>item. e_Name item = name) (l_Dirs listing) of
             Some item \<Rightarrow> ok (e_DocID item)
           | None \<Rightarrow>
               throw (Errorf ''directory %q was created but could not be resolved'' [name] [] [])))"

definition deleteEntry :: "'s env \<Rightarrow> string \<Rightarrow> bool \<Rightarrow> ('s, unit) act" where
  "deleteEntry E docid isDir =
     andThen (doWithClient E (if isDir then RecursiveDeleteHTTP else ApiHTTP) None ''POST''
         (''efast/v1/'' @ (if isDir then ''dir'' else ''file'') @ ''/delete'')
         (Some (JObj ((''docid'', JStr docid)
            # (if isDir then [(''check_upload_process'', JBool True)] else [])))))
       (\<lambda>_. ok ())"

definition renameEntry :: "'s env \<Rightarrow> string \<Rightarrow> string \<Rightarrow> bool \<Rightarrow> ('s, unit) act" where
  "renameEntry E docid name isDir =
     andThen (do_api E None ''POST''
         (''efast/v1/'' @ (if isDir then ''dir'' else ''file'') @ ''/rename'')
         (Some (JObj [(''docid'', JStr docid), (''name'', JStr name), (''ondup'', JNum ''1'')])))
       (\<lambda>_. ok ())"

definition moveEntry ::
    "'s env \<Rightarrow> string \<Rightarrow> string \<Rightarrow> string \<Rightarrow> bool \<Rightarrow> ('s, string) act" where
  "moveEntry E docid parentID newName isDir =
     andThen (doJSON E None ''POST''
         (''efast/v1/'' @ (if isDir then ''dir'' else ''file'') @ ''/move'')
         (Some (JObj ([(''docid'', JStr docid), (''destparent'', JStr parentID), (''ondup'', JNum ''1'')]
            @ (if newName \<noteq> [] then [(''new_name'', JStr newName)] else [])
            @ (if isDir then [(''check_upload_process'', JBool True)] else []))))
         dec_mutation zero_mutation)
       (\<lambda>result.
         if docID result = [] then
           throw (ErrNew ''PKU Disk move response is missing docid; remote state may have changed'')
         else ok (docID result))"

definition copyFile :: "'s env \<Rightarrow> string \<Rightarrow> string \<Rightarrow> int \<Rightarrow> ('s, string) act" where
  "copyFile E docid parentID ondup =
     andThen (doJSON E None ''POST'' ''efast/v1/file/copy''
         (Some (JObj [(''docid'', JStr docid), (''destparent'', JStr parentID),
            (''ondup'', JNum (FormatInt ondup))]))
         dec_mutation zero_mutation)
       (\<lambda>result.
         if docID result = [] then throw (ErrNew ''PKU Disk copy response is missing docid'')
         else ok (docID result))"

definition dec_authrequest :: "json option list \<Rightarrow> json \<Rightarrow> json option list \<times> bool" where
  "dec_authrequest old j =
     (case struct_entries j of
        None \<Rightarrow> (old, False)
      | Some kvs \<Rightarrow> dec_field ''authrequest'' (dec_list dec_raw None) old kvs)"

definition downloadURL :: "'s env \<Rightarrow> fileMetadata \<Rightarrow> ('s, string) act" where
  "downloadURL E meta =
     andThen (doJSON E None ''POST'' ''efast/v1/file/osdownload''
         (Some (JObj [(''docid'', JStr (m_DocID meta)), (''authtype'', JStr ''QUERY_STRING''),
            (''savename'', JStr (fileName meta)), (''usehttps'', JBool True),
            (''rev'', JStr (m_Rev meta))]))
         dec_authrequest [])
       (\<lambda>auth.
         case auth of
           _ # Some (JStr signed) # _ \<Rightarrow>
             if signed = [] then
               throw (ErrNew ''PKU Disk download response contains an invalid signed URL'')
             else (case parse_uri E signed of
                     Some e \<Rightarrow> throw (Errorf ''invalid signed download URL: %w'' [] [] [e])
                   | None \<Rightarrow> ok signed)
         | _ # _ # _ \<Rightarrow>
             throw (ErrNew ''PKU Disk download response contains an invalid signed URL'')
         | _ \<Rightarrow> throw (ErrNew ''PKU Disk download response is missing signed URL''))"

section \<open>Modification times\<close>

type_synonym gotime = "int64 option"

definition parseModifiedMicros :: "int64 \<Rightarrow> gotime" where
  "parseModifiedMicros micros = (if micros \<le> 0 then None else Some (i64 (micros * 1000)))"

definition fileModTime :: "int64 \<Rightarrow> int64 \<Rightarrow> gotime" where
  "fileModTime clientMTime modified =
     (if clientMTime > 0 then parseModifiedMicros clientMTime else parseModifiedMicros modified)"

section \<open>What the client sends\<close>

text \<open>A request to one endpoint of the API, and its two kinds: reads and the others.\<close>

definition api_call :: "'s env \<Rightarrow> string \<Rightarrow> request \<Rightarrow> bool" where
  "api_call E ep r \<longleftrightarrow> via r \<noteq> ObjectHTTP \<and> url r = endpoint E ep"

definition api_post :: "'s env \<Rightarrow> string \<Rightarrow> json \<Rightarrow> request \<Rightarrow> bool" where
  "api_post E ep j r \<longleftrightarrow> api_call E ep r \<and> verb r = ''POST'' \<and> payload r = JsonBody j"

definition read_endpoints :: "string list" where
  "read_endpoints =
     [''efast/v1/entry-doc-lib'', ''efast/v1/dir/list'', ''efast/v1/file/metadata'',
      ''efast/v1/file/getinfobypath'']"

definition read_request :: "'s env \<Rightarrow> request \<Rightarrow> bool" where
  "read_request E r \<longleftrightarrow> (\<exists>ep \<in> set read_endpoints. api_call E ep r)"

lemma api_request_sel [simp]:
  "via (api_request E cl dl method ep body tok) = cl"
  "verb (api_request E cl dl method ep body tok) = method"
  "url (api_request E cl dl method ep body tok) = endpoint E ep"
  "payload (api_request E cl dl method ep body tok) =
     (case body of None \<Rightarrow> NoBody | Some j \<Rightarrow> JsonBody j)"
  by (simp_all add: api_request_def)

lemma endpoint_inject [simp]:
  "endpoint E p = endpoint E q \<longleftrightarrow> TrimLeft CHR ''/'' p = TrimLeft CHR ''/'' q"
  by (simp add: endpoint_def)

lemma exchange_runs:
  "runs (exchange E cl dl method ep body refresh)
     (\<lambda>l r. (l = [] \<longrightarrow> isl r) \<and> (\<exists>tok. l = [] \<or> l = [api_request E cl dl method ep body tok]))"
  unfolding exchange_def
  by (rule runs_andThen [where P = "\<lambda>l x. l = []"], rule runs_get_token, simp split: sum.split,
      rule runs_andThen [where P = "\<lambda>l x. l = []"], rule runs_check, simp split: option.split,
      rule runs_inspect [where P = "\<lambda>l r. \<exists>tok. l = [api_request E cl dl method ep body tok]"],
      rule runs_perform, blast)
    (auto simp: check_def runs_throw intro!: runs_ok runs_throw split: sum.splits option.splits
      intro!: runs_andThen [where P = "\<lambda>l x. l = []"])

lemma exchange_sends [runs_rules]:
  assumes "\<And>tok. P (api_request E cl dl method ep body tok)"
  shows "sends P (exchange E cl dl method ep body refresh)"
  unfolding sends_def
  by (rule runs_mono [OF exchange_runs]) (auto simp: assms)

text \<open>The loop of \<open>doWithClient\<close> unrolled: its last statement is never reached.\<close>

lemma doWithClient_unroll:
  "doWithClient E cl dl method ep body =
     andThen (exchange E cl dl method ep body False) (\<lambda>(st, data).
       case parseAPIError st data of
         None \<Rightarrow> ok data
       | Some e \<Rightarrow>
           if isAuthError e then
             andThen (exchange E cl dl method ep body True) (\<lambda>(st, data).
               case parseAPIError st data of None \<Rightarrow> ok data | Some e' \<Rightarrow> throw e')
           else throw e)"
  by (simp add: doWithClient_def numeral_2_eq_2 cong: option.case_cong if_cong)

lemma doWithClient_sends [runs_rules]:
  assumes "\<And>tok. P (api_request E cl dl method ep body tok)"
  shows "sends P (doWithClient E cl dl method ep body)"
  unfolding doWithClient_unroll by (intro runs_rules assms)

lemma do_api_sends [runs_rules]:
  "(\<And>tok. P (api_request E ApiHTTP dl method ep body tok)) \<Longrightarrow> sends P (do_api E dl method ep body)"
  unfolding do_api_def by (intro runs_rules)

lemma doJSON_sends [runs_rules]:
  "(\<And>tok. P (api_request E ApiHTTP dl method ep body tok)) \<Longrightarrow>
     sends P (doJSON E dl method ep body dec zero)"
  unfolding doJSON_def by (intro runs_rules)

lemma retry_sends [runs_rules]:
  "(\<And>i. sends P (fn i)) \<Longrightarrow> sends P (retry_from E attempts zero fn i)"
proof (induction E attempts zero fn i rule: retry_from.induct)
  case (1 E attempts zero fn i)
  have "sends P (retry_from E attempts zero fn (i + 1))"
    if "i < attempts" "isTransientError e" "i + 1 \<noteq> attempts" for e
    using 1 that by blast
  then show ?case
    by (subst retry_from.simps) (intro runs_rules "1.prems", blast)
qed

lemma doJSONWithTransientRetry_sends [runs_rules]:
  assumes "\<And>dl tok. P (api_request E ApiHTTP dl method ep body tok)"
  shows "sends P (doJSONWithTransientRetry E method ep body dec zero)"
  unfolding doJSONWithTransientRetry_def retryTransient_def by (intro runs_rules assms)

lemma TrimLeft_efast [simp]: "TrimLeft CHR ''/'' (CHR ''e'' # s) = CHR ''e'' # s"
  by (simp add: TrimLeft_def)

lemma api_call_request [simp]:
  "api_call E ep (api_request E cl dl method ep' body tok) \<longleftrightarrow>
     cl \<noteq> ObjectHTTP \<and> TrimLeft CHR ''/'' ep' = TrimLeft CHR ''/'' ep"
  by (auto simp: api_call_def)

lemma reads_send [runs_rules]:
  "sends (read_request E) (libraries E)"
  "sends (read_request E) (listDir E d)"
  "sends (read_request E) (metadata E d)"
  "sends (read_request E) (getInfoByPath E p)"
  unfolding libraries_def listDir_def metadata_def getInfoByPath_def
  by (intro runs_rules; simp add: read_request_def read_endpoints_def)+

end
