(* ===== verification/Fs_Core.thy ===== *)
theory Fs_Core
  imports Api_Client
begin

text \<open>
  The types \<open>Fs\<close> and \<open>Object\<close> of \<open>pkudisk.go\<close>, the two callbacks that an \<open>Fs\<close> gives to
  rclone's directory cache, and the use the backend makes of that cache. The cache is code
  outside the repository: its operations are parameters of the environment, and
  \<open>dircache_frame\<close> states what is documented of them and relied on here, that they reach the
  service through the callbacks only and create directories only when they are asked to.
\<close>

definition virtualRootID :: string where
  "virtualRootID = ''pkudisk://root''"

text \<open>
  An \<open>Fs\<close>; \<open>fs_cache\<close> names its directory cache, \<open>fs_base_url\<close> and
  \<open>fs_upload_concurrency\<close> are options as they were given, and the API client and the encoder
  are those of the environment.
\<close>

record Fs =
  fs_name :: string
  fs_root :: string
  fs_cache :: nat
  fs_base_url :: string
  fs_upload_concurrency :: int
  fs_resume_dir :: string

record Object =
  o_fs :: Fs
  o_remote :: string
  o_id :: string
  o_size :: int64
  o_modTime :: gotime
  o_rev :: string

definition objectFromEntry :: "Fs \<Rightarrow> string \<Rightarrow> apiEntry \<Rightarrow> Object" where
  "objectFromEntry f remote item =
     \<lparr>o_fs = f, o_remote = remote, o_id = e_DocID item, o_size = e_Size item,
      o_modTime = fileModTime (e_ClientMTime item) (e_Modified item), o_rev = e_Rev item\<rparr>"

text \<open>
  What the backend asks of an \<open>fs.ObjectInfo\<close>: the configuration string of its \<open>Fs\<close>, its
  remote, its fast fingerprint, its ID where it has one, its size and modification time, and
  for an object of the local backend \<open>Open\<close> with a range of bytes, which gives what the
  reader delivers and the error of closing it.
\<close>

record 's source =
  src_config :: string
  src_remote :: string
  src_fingerprint :: string
  src_id :: "string option"
  src_size :: int64
  src_modTime :: int
  src_open :: "(int \<Rightarrow> int \<Rightarrow> 's \<Rightarrow> (goerr + string \<times> goerr option) \<times> 's) option"

section \<open>The callbacks of the directory cache\<close>

definition FindLeaf :: "'s env \<Rightarrow> 's find_leaf" where
  "FindLeaf E pathID leaf =
     (if pathID = virtualRootID then
        andThen (libraries E) (\<lambda>libs.
          ok (map_option lib_ID (find (\<lambda>lib. lib_Name lib = leaf) libs)))
      else
        andThen (listDir E pathID) (\<lambda>listing.
          ok (map_option e_DocID (find (\<lambda>item. decode E (e_Name item) = leaf) (l_Dirs listing)))))"

definition CreateDir :: "'s env \<Rightarrow> 's create_dir" where
  "CreateDir E pathID leaf =
     (if pathID = virtualRootID then
        throw (ErrNew ''PKU Disk document libraries cannot be created through the file API'')
      else createDir E pathID (encode E leaf))"

section \<open>The directory cache of an Fs\<close>

definition FindDir :: "'s env \<Rightarrow> Fs \<Rightarrow> string \<Rightarrow> bool \<Rightarrow> ('s, string) act" where
  "FindDir E f path create = dc_find_dir E (fs_cache f) (FindLeaf E) (CreateDir E) path create"

definition FindPath :: "'s env \<Rightarrow> Fs \<Rightarrow> string \<Rightarrow> bool \<Rightarrow> ('s, string \<times> string) act" where
  "FindPath E f path create = dc_find_path E (fs_cache f) (FindLeaf E) (CreateDir E) path create"

definition FindRoot :: "'s env \<Rightarrow> Fs \<Rightarrow> bool \<Rightarrow> ('s, unit) act" where
  "FindRoot E f create = dc_find_root E (fs_cache f) (FindLeaf E) (CreateDir E) create"

definition RootParentID :: "'s env \<Rightarrow> Fs \<Rightarrow> bool \<Rightarrow> ('s, string) act" where
  "RootParentID E f create = dc_root_parent_id E (fs_cache f) (FindLeaf E) (CreateDir E) create"

definition DirCacheMove ::
    "'s env \<Rightarrow> Fs \<Rightarrow> Fs \<Rightarrow> string \<Rightarrow> string \<Rightarrow>
       ('s, string \<times> string \<times> string \<times> string \<times> string) act" where
  "DirCacheMove E f source srcRemote dstRemote =
     dc_dir_move E (fs_cache f) (FindLeaf E) (CreateDir E) (fs_cache source) (FindLeaf E)
       (fs_root source) srcRemote (fs_root f) dstRemote"

definition NewDirCache :: "'s env \<Rightarrow> string \<Rightarrow> ('s, nat) act" where
  "NewDirCache E root =
     (\<lambda>w. case dc_new E root virtualRootID (ext w) of (h, s) \<Rightarrow> (Inr h, w\<lparr>ext := s\<rparr>))"

text \<open>What the backend relies on: the cache sends what its callbacks send.\<close>

definition dircache_frame :: "'s env \<Rightarrow> bool" where
  "dircache_frame E \<longleftrightarrow>
     (\<forall>P Q h fl cd. (\<forall>p l. sends P (fl p l)) \<longrightarrow> (\<forall>p l. sends Q (cd p l)) \<longrightarrow>
       (\<forall>path create. sends (\<lambda>r. P r \<or> create \<and> Q r) (dc_find_dir E h fl cd path create)) \<and>
       (\<forall>path create. sends (\<lambda>r. P r \<or> create \<and> Q r) (dc_find_path E h fl cd path create)) \<and>
       (\<forall>create. sends (\<lambda>r. P r \<or> create \<and> Q r) (dc_find_root E h fl cd create)) \<and>
       (\<forall>create. sends (\<lambda>r. P r \<or> create \<and> Q r) (dc_root_parent_id E h fl cd create)) \<and>
       (\<forall>h' fl' sr s dr d. (\<forall>p l. sends P (fl' p l)) \<longrightarrow>
         sends (\<lambda>r. P r \<or> Q r) (dc_dir_move E h fl cd h' fl' sr s dr d)))"

lemma FindLeaf_sends [runs_rules]: "sends (read_request E) (FindLeaf E p l)"
  unfolding FindLeaf_def by (intro runs_rules)

text \<open>Creating a directory sends the creation and, to resolve the new ID, a listing.\<close>

definition create_request :: "'s env \<Rightarrow> request \<Rightarrow> bool" where
  "create_request E r \<longleftrightarrow> api_call E ''efast/v1/dir/create'' r"

lemma createDir_sends: "sends (\<lambda>r. create_request E r \<or> read_request E r) (createDir E p l)"
  unfolding createDir_def
  by (intro runs_rules; (simp add: create_request_def)?)
    (rule sends_mono [OF reads_send(2)], simp)

lemma CreateDir_sends: "sends (\<lambda>r. create_request E r \<or> read_request E r) (CreateDir E p l)"
  unfolding CreateDir_def by (intro runs_rules createDir_sends)

definition lookup_request :: "'s env \<Rightarrow> bool \<Rightarrow> request \<Rightarrow> bool" where
  "lookup_request E create r \<longleftrightarrow> read_request E r \<or> create \<and> create_request E r"

lemma dircache_sends [runs_rules]:
  assumes "dircache_frame E"
  shows "sends (lookup_request E create) (FindDir E f path create)"
    and "sends (lookup_request E create) (FindPath E f path create)"
    and "sends (lookup_request E create) (FindRoot E f create)"
    and "sends (lookup_request E create) (RootParentID E f create)"
    and "sends (lookup_request E True) (DirCacheMove E f source sr dr)"
proof -
  let ?P = "read_request E" and ?Q = "\<lambda>r. create_request E r \<or> read_request E r"
  have lookup: "\<And>c m. sends (\<lambda>r. ?P r \<or> c \<and> ?Q r) m \<Longrightarrow> sends (lookup_request E c) m"
    by (erule sends_mono) (auto simp: lookup_request_def)
  note frame = assms [unfolded dircache_frame_def, rule_format,
      where fl = "FindLeaf E" and P = ?P and cd = "CreateDir E" and Q = ?Q,
      OF FindLeaf_sends CreateDir_sends]
  show "sends (lookup_request E create) (FindDir E f path create)"
    and "sends (lookup_request E create) (FindPath E f path create)"
    and "sends (lookup_request E create) (FindRoot E f create)"
    and "sends (lookup_request E create) (RootParentID E f create)"
    using frame by (auto simp: FindDir_def FindPath_def FindRoot_def RootParentID_def intro!: lookup)
  have "sends (\<lambda>r. ?P r \<or> ?Q r) (DirCacheMove E f source sr dr)"
    unfolding DirCacheMove_def
    using frame [THEN conjunct2, THEN conjunct2, THEN conjunct2, THEN conjunct2] FindLeaf_sends
    by blast
  then show "sends (lookup_request E True) (DirCacheMove E f source sr dr)"
    using lookup [of True] by simp
qed

lemma NewDirCache_sends [runs_rules, simp]: "sends P (NewDirCache E root)"
  by (simp add: sends_def runs_def NewDirCache_def split: prod.split)

end
