(* ===== verification/Sample_Service.thy ===== *)
theory Sample_Service
  imports Fs_Core
begin

text \<open>
  A concrete setting: a service that answers from a script, a token provider that hands out one
  token, a directory cache that remembers nothing, and an encoder that does nothing. The
  witnesses of the properties run the model in it, and it shows that what is assumed of the
  directory cache can hold.
\<close>

type_synonym script = "(goerr + response) list"

definition answer :: "int \<Rightarrow> string \<Rightarrow> goerr + response" where
  "answer st body =
     Inr \<lparr>resp_status = st, resp_headers = [], resp_body = body, body_read = 0, read_error = None,
          close_error = None\<rparr>"

text \<open>The object storage: it reads the stream and answers with an ETag.\<close>

definition stored :: "string \<Rightarrow> goerr + response" where
  "stored etag =
     Inr \<lparr>resp_status = 200, resp_headers = [(''Etag'', etag)], resp_body = [], body_read = 0,
          read_error = None, close_error = None\<rparr>"

fun stream_length :: "payload \<Rightarrow> int" where
  "stream_length (StreamBody n d) = int (length d)"
| "stream_length (FormBody fs nm n d) = int (length d)"
| "stream_length p = 0"

definition script_do :: "request \<Rightarrow> script \<Rightarrow> (goerr + response) \<times> script" where
  "script_do r s =
     (case s of
        [] \<Rightarrow> (Inl (Foreign ''connection refused''), [])
      | Inl e # s' \<Rightarrow> (Inl e, s')
      | Inr resp # s' \<Rightarrow> (Inr (resp\<lparr>body_read := stream_length (payload r)\<rparr>), s'))"

text \<open>A directory cache that walks the path from the root every time.\<close>

fun walk ::
    "'s find_leaf \<Rightarrow> 's create_dir \<Rightarrow> bool \<Rightarrow> string \<Rightarrow> string list \<Rightarrow> ('s, string) act" where
  "walk fl cd create dir [] = ok dir"
| "walk fl cd create dir (p # ps) =
     andThen (fl dir p) (\<lambda>found. case found of
       Some child \<Rightarrow> walk fl cd create child ps
     | None \<Rightarrow>
         if create then andThen (cd dir p) (\<lambda>child. walk fl cd create child ps)
         else throw (FsError ErrorDirNotFound))"

definition components :: "string \<Rightarrow> string list" where
  "components p = (if p = [] then [] else Split CHR ''/'' p)"

definition split_last :: "string \<Rightarrow> string \<times> string" where
  "split_last p =
     (case LastIndex CHR ''/'' p of
        None \<Rightarrow> ([], p)
      | Some i \<Rightarrow> (take i p, drop (Suc i) p))"

text \<open>A digest of 64 hexadecimal digits, the sum of the bytes in the last one.\<close>

definition toy_digest :: "string \<Rightarrow> string" where
  "toy_digest s =
     replicate 63 CHR ''0'' @ [''0123456789abcdef'' ! (sum_list (map (\<lambda>c. byte c) s) mod 16)]"

definition sample_env :: "script env" where
  "sample_env =
     \<lparr>base_url = ''https://h'', http_do = script_do, token = (\<lambda>refresh s. (Inr ''T'', s)),
      request_error = (\<lambda>m u. None), sleep = (\<lambda>ms s. (None, s)), parse_uri = (\<lambda>u. None),
      encode = id, decode = id, split_path = split_last,
      dc_new = (\<lambda>root rootID s. (1, s)), dc_put = (\<lambda>h p i s. s), dc_flush = (\<lambda>h s. s),
      dc_flush_dir = (\<lambda>h p s. s),
      dc_find_dir = (\<lambda>h fl cd path create. walk fl cd create virtualRootID (components path)),
      dc_find_path = (\<lambda>h fl cd path create.
        andThen (walk fl cd create virtualRootID (components (fst (split_last path))))
          (\<lambda>dir. ok (snd (split_last path), dir))),
      dc_find_root = (\<lambda>h fl cd create. ok ()),
      dc_root_parent_id = (\<lambda>h fl cd create. ok virtualRootID),
      dc_dir_move = (\<lambda>h fl cd h' fl' sr s dr d.
        andThen (walk fl' cd False virtualRootID (components s)) (\<lambda>srcID.
        andThen (walk fl' cd False virtualRootID (components (fst (split_last s)))) (\<lambda>srcDir.
        andThen (walk fl cd True virtualRootID (components (fst (split_last d)))) (\<lambda>dstDir.
          ok (srcID, srcDir, snd (split_last s), dstDir, snd (split_last d)))))),
      io_error = (\<lambda>op p s. (None, s)), random = (\<lambda>s. 7), windows = False,
      try_lock = (\<lambda>p s. (Inr True, s)), unlock = (\<lambda>p s. s), sha256 = toy_digest,
      fix_range = (\<lambda>opts z. opts), check_range = (\<lambda>resp opts z. None)\<rparr>"

definition start_world :: "script \<Rightarrow> script world" where
  "start_world s = \<lparr>ext = s, files = Map.empty, sent = []\<rparr>"

text \<open>A source.\<close>

definition sample_source :: "script source" where
  "sample_source =
     \<lparr>src_config = ''/home'', src_remote = ''f'', src_fingerprint = ''3,1'', src_id = None,
      src_size = 3, src_modTime = 1, src_open = None\<rparr>"

lemma walk_sends:
  assumes "\<And>p l. sends P (fl p l)" and "\<And>p l. sends Q (cd p l)"
  shows "sends (\<lambda>r. P r \<or> create \<and> Q r) (walk fl cd create dir ps)"
proof (induction ps arbitrary: dir)
  case (Cons p ps)
  have "sends (\<lambda>r. P r \<or> create \<and> Q r) (fl dir p)"
    using assms(1) by (rule sends_mono) simp
  moreover have "create \<Longrightarrow> sends (\<lambda>r. P r \<or> create \<and> Q r) (cd dir p)"
    using assms(2) by (rule sends_mono) simp
  ultimately show ?case
    unfolding walk.simps using Cons.IH by (intro runs_rules) auto
qed simp

text \<open>What is assumed of the directory cache holds for this one.\<close>

lemma sample_frame: "dircache_frame sample_env"
proof -
  have any: "sends (\<lambda>r. P r \<or> Q r) (walk fl cd create dir ps)"
    if "\<forall>p l. sends P (fl p l)" and "\<forall>p l. sends Q (cd p l)"
    for P Q and fl :: "script find_leaf" and cd create dir ps
    using that by (intro sends_mono [OF walk_sends]) auto
  show ?thesis
    unfolding dircache_frame_def sample_env_def env.simps
    by (intro allI impI conjI runs_rules; (rule walk_sends | rule any)?; simp)
qed

section \<open>Running the client against the script\<close>

lemma sample_env_sel [simp]:
  "base_url sample_env = ''https://h''" "http_do sample_env = script_do"
  "token sample_env b s = (Inr ''T'', s)" "request_error sample_env m u = None"
  "sleep sample_env ms s = (None, s)" "parse_uri sample_env u = None" "encode sample_env x = x"
  "decode sample_env x = x" "io_error sample_env op p s = (None, s)" "windows sample_env = False"
  "sha256 sample_env = toy_digest" "random sample_env s = 7" "split_path sample_env = split_last" "unlock sample_env p s = s" "try_lock sample_env p s = (Inr True, s)"
  by (simp_all add: sample_env_def)

text \<open>An answer of the script that the client takes for a success.\<close>

definition accepted :: "string \<Rightarrow> bool" where
  "accepted body \<longleftrightarrow> parseAPIError 200 body = None \<and> int (length body) \<le> 16777216"

lemma sample_do_api:
  assumes "ext w = answer 200 body # s" and "accepted body"
  shows "do_api sample_env dl method ep jb w =
    (Inr body, w\<lparr>ext := s, sent := sent w @ [api_request sample_env ApiHTTP dl method ep jb ''T'']\<rparr>)"
  using assms
  by (simp add: do_api_def doWithClient_unroll exchange_def accepted_def answer_def script_do_def
      limit_read_def get_token_def perform_def run_simps cong: run_congs)

lemma sample_doJSON:
  assumes "ext w = answer 200 body # s" and "accepted body"
  shows "doJSON sample_env dl method ep jb dec zero w =
    (decode_response ep dec zero body,
     w\<lparr>ext := s, sent := sent w @ [api_request sample_env ApiHTTP dl method ep jb ''T'']\<rparr>)"
  by (simp add: doJSON_def run_simps sample_do_api [OF assms] cong: run_congs)

lemma sample_read:
  assumes "ext w = answer 200 body # s" and "accepted body"
    and "decode_response ep dec zero body = Inr x"
  shows "doJSONWithTransientRetry sample_env method ep jb dec zero w =
    (Inr x, w\<lparr>ext := s,
       sent := sent w @ [api_request sample_env ApiHTTP (Some 20000) method ep jb ''T'']\<rparr>)"
  by (simp add: doJSONWithTransientRetry_def retryTransient_def transientReadAttempts_def
      transientReadTimeout_def retry_from.simps [of sample_env] run_simps sample_doJSON [OF assms(1,2)] assms(3)
      cong: run_congs)

lemmas sample_steps = sample_do_api sample_doJSON sample_read run_simps

text \<open>Bodies the scripts answer with.\<close>

definition empty_body :: string where
  "empty_body = ''{}''"

lemma empty_body: "accepted empty_body" "TrimSpace empty_body = ''{}''"
  by code_simp+

end
