(* ===== verification/Api_Contract.thy ===== *)
theory Api_Contract
  imports Sample_Service
begin

text \<open>
  How often the API client of \<open>api.go\<close> asks: a call is sent once, a second time only after the
  service has rejected its token, and a read is repeated a bounded number of times.
\<close>

text \<open>The answer to the first request is a rejection of the token.\<close>

definition token_rejected ::
    "'s env \<Rightarrow> client \<Rightarrow> int option \<Rightarrow> string \<Rightarrow> string \<Rightarrow> json option \<Rightarrow> 's world \<Rightarrow> bool" where
  "token_rejected E cl dl meth ep body w \<longleftrightarrow>
     (case fst (exchange E cl dl meth ep body False w) of
        Inl _ \<Rightarrow> False
      | Inr (st, data) \<Rightarrow>
          (case parseAPIError st data of None \<Rightarrow> False | Some e \<Rightarrow> isAuthError e))"

lemma exchange_once:
  obtains l where "sent (snd (exchange E cl dl meth ep body b w)) = sent w @ l" and "length l \<le> 1"
    and "\<forall>r \<in> set l. \<exists>tok. r = api_request E cl dl meth ep body tok"
  using exchange_runs [of E cl dl meth ep body b]
  by (rule runsE [where w = w]) fastforce

lemma doWithClient_cases:
  "doWithClient E cl dl meth ep body w =
    (let (r, w1) = exchange E cl dl meth ep body False w
     in if token_rejected E cl dl meth ep body w
        then andThen (exchange E cl dl meth ep body True) (\<lambda>(st, data).
               case parseAPIError st data of None \<Rightarrow> ok data | Some e' \<Rightarrow> throw e') w1
        else (case r of Inl e \<Rightarrow> (Inl e, w1)
              | Inr (st, data) \<Rightarrow> (case parseAPIError st data of None \<Rightarrow> (Inr data, w1) | Some e \<Rightarrow> (Inl e, w1))))"
  unfolding doWithClient_unroll andThen_def token_rejected_def
  by (auto simp: Let_def split: prod.split sum.split option.split)

lemma snd_andThen_pure: "(\<And>x v. snd (f x v) = v) \<Longrightarrow> snd (andThen m f w) = snd (m w)"
  by (simp add: andThen_def split: prod.split sum.split)

lemma answer_pure:
  "snd ((\<lambda>(st, data). case parseAPIError st data of None \<Rightarrow> ok data | Some e \<Rightarrow> throw e) x w) = w"
  by (simp split: prod.split option.split)

lemma doWithClient_runs:
  obtains l where "sent (snd (doWithClient E cl dl meth ep body w)) = sent w @ l"
    and "length l \<le> (if token_rejected E cl dl meth ep body w then 2 else 1)"
proof -
  obtain r w1 where ex: "exchange E cl dl meth ep body False w = (r, w1)"
    by (cases "exchange E cl dl meth ep body False w")
  from exchange_once [of E cl dl meth ep body False w] ex
  obtain l where l: "sent w1 = sent w @ l" "length l \<le> 1" by auto
  let ?f = "\<lambda>(st, data). case parseAPIError st data of None \<Rightarrow> ok data | Some e' \<Rightarrow> throw e'"
  show ?thesis
  proof (cases "token_rejected E cl dl meth ep body w")
    case True
    obtain l' where "sent (snd (andThen (exchange E cl dl meth ep body True) ?f w1)) = sent w1 @ l'"
      and "length l' \<le> 1"
      by (rule exchange_once [of E cl dl meth ep body True w1])
        (simp only: snd_andThen_pure [of ?f, OF answer_pure])
    with True l ex that [of "l @ l'"] show ?thesis
      by (simp add: doWithClient_cases)
  next
    case False
    with l ex that [of l] show ?thesis
      by (simp add: doWithClient_cases split: sum.split prod.split option.split)
  qed
qed

lemma doJSON_twice:
  "runs (doJSON E dl meth ep body dec zero) (\<lambda>l r. length l \<le> 2)"
proof (rule runsI)
  fix w
  obtain l where l: "sent (snd (doWithClient E ApiHTTP dl meth ep body w)) = sent w @ l"
    and "length l \<le> (if token_rejected E ApiHTTP dl meth ep body w then 2 else 1)"
    by (rule doWithClient_runs)
  moreover from this(2) have "length l \<le> 2" by (simp split: if_splits)
  ultimately show "\<exists>l. sent (snd (doJSON E dl meth ep body dec zero w)) = sent w @ l \<and> length l \<le> 2"
    unfolding doJSON_def do_api_def by (subst snd_andThen_pure) (simp_all add: lift_def)
qed

lemma retry_bounded:
  assumes "\<And>i. runs (fn i) (\<lambda>l r. length l \<le> k)"
  shows "runs (retry_from E attempts zero fn i) (\<lambda>l r. length l \<le> k * (attempts - i))"
  using assms
proof (induction E attempts zero fn i rule: retry_from.induct)
  case (1 E attempts zero fn i)
  note fn = "1.prems"
  let ?rest = "k * (attempts - (i + 1))"
  let ?next = "\<lambda>r. case r of Inr x \<Rightarrow> ok x | Inl e \<Rightarrow>
      if \<not> isTransientError e \<or> i + 1 = attempts then throw e
      else andThen (pause E (transientRetryDelay * 2 ^ i)) (\<lambda>_. retry_from E attempts zero fn (i + 1))"
  show ?case
  proof (cases "i < attempts")
    case True
    then have total: "k * (attempts - i) = k + ?rest"
      by (simp add: Suc_diff_Suc flip: mult_Suc_right)
    have IH: "runs (retry_from E attempts zero fn (i + 1)) (\<lambda>l r. length l \<le> ?rest)"
      if "\<not> (\<not> isTransientError e \<or> i + 1 = attempts)" for e
      using 1 True that by blast
    have again: "runs (andThen (pause E ms) (\<lambda>_. retry_from E attempts zero fn (i + 1))) (\<lambda>l r. length l \<le> ?rest)"
      if "\<not> (\<not> isTransientError e \<or> i + 1 = attempts)" for e ms
      by (rule runs_andThen [where P = "\<lambda>l x. l = []"], rule runs_pause)
        (simp_all add: IH [OF that, simplified] split: sum.split)
    have "runs (?next r) (\<lambda>l' r'. length l' \<le> ?rest)" for r
      by (cases r) (auto intro: runs_ok runs_throw again [simplified])
    then have step: "runs (?next r) (\<lambda>l' r'. length (l @ l') \<le> k + ?rest)" if "length l \<le> k" for l r
      by (rule runs_mono) (use that in simp)
    have "runs (inspect (fn i) ?next) (\<lambda>l r. length l \<le> k + ?rest)"
      by (rule runs_inspect [OF fn step])
    then show ?thesis
      unfolding total by (subst retry_from.simps) (simp only: \<open>i < attempts\<close> if_True)
  next
    case False
    then show ?thesis by (subst retry_from.simps) (simp add: runs_ok)
  qed
qed

text \<open>
  C20. Requests are bounded. A call of the API client sends its request once, and once more only
  when the answer to the first was a rejection of the token; so an operation that changes
  something is never repeated for another reason. A read is sent at most six times, however
  the service fails, and then returns.
\<close>

theorem requests_bounded:
  "length (requests (doWithClient E cl dl meth ep body) w)
      \<le> (if token_rejected E cl dl meth ep body w then 2 else 1)
   \<and> list_all (\<lambda>r. \<exists>tok. r = api_request E cl dl meth ep body tok)
       (requests (doWithClient E cl dl meth ep body) w)
   \<and> length (requests (doJSONWithTransientRetry E meth ep body dec zero) w) \<le> 6"
proof (intro conjI)
  obtain l where "sent (snd (doWithClient E cl dl meth ep body w)) = sent w @ l"
    and "length l \<le> (if token_rejected E cl dl meth ep body w then 2 else 1)"
    by (rule doWithClient_runs)
  then show "length (requests (doWithClient E cl dl meth ep body) w)
      \<le> (if token_rejected E cl dl meth ep body w then 2 else 1)"
    by (simp add: requests_def)
  have "sends (\<lambda>r. \<exists>tok. r = api_request E cl dl meth ep body tok) (doWithClient E cl dl meth ep body)"
    by (rule doWithClient_sends) blast
  then show "list_all (\<lambda>r. \<exists>tok. r = api_request E cl dl meth ep body tok)
      (requests (doWithClient E cl dl meth ep body) w)"
    using sends_requests by (fastforce simp: list_all_iff)
  show "length (requests (doJSONWithTransientRetry E meth ep body dec zero) w) \<le> 6"
    using runs_requests [OF retry_bounded [of "\<lambda>i. doJSON E (Some (transientReadTimeout i)) meth ep body dec zero"
        2 E transientReadAttempts zero 0, OF doJSON_twice]]
    by (simp add: doJSONWithTransientRetry_def retryTransient_def transientReadAttempts_def)
qed

end
