(* ===== verification/Point_Lookup.thy ===== *)
theory Point_Lookup
  imports Sample_Service
begin

text \<open>
  Point lookups by path, \<open>point_lookup.go\<close>: document IDs of the form
  \<open>gns://LIBRARY/.../ENTRY\<close> and their parents, the encoded name path of a remote, seeding
  the directory cache from a document ID, and the two lookups built on \<open>getinfobypath\<close>.
\<close>

definition getInfoPathNotFoundCode :: int where
  "getInfoPathNotFoundCode = 404002006"

definition isGetInfoPathNotFound :: "goerr \<Rightarrow> bool" where
  "isGetInfoPathNotFound e =
     (case as_api e of
        Some (s, c) \<Rightarrow> s = 404 \<and> c = getInfoPathNotFoundCode
      | None \<Rightarrow> False)"

definition encodedNamePath :: "'s env \<Rightarrow> Fs \<Rightarrow> string \<Rightarrow> string" where
  "encodedNamePath E f remote =
     (let full = Trim CHR ''/'' (PathJoin (fs_root f) remote)
      in if full = [] then []
         else (case Split CHR ''/'' full of
                 [] \<Rightarrow> []
               | p # ps \<Rightarrow> Join CHR ''/'' (p # map (encode E) ps)))"

definition gns :: string where
  "gns = ''gns://''"

text \<open>The pairs that seeding puts into the cache, shortest first; \<open>None\<close> when it refuses.\<close>

definition seed_pairs :: "string \<Rightarrow> string \<Rightarrow> (string \<times> string) list option" where
  "seed_pairs standardPath docid =
     (let p = Trim CHR ''/'' standardPath
      in if p = [] \<or> \<not> HasPrefix docid gns then None
         else let names = Split CHR ''/'' p;
                  ids = Split CHR ''/'' (TrimPrefix docid gns)
              in if length names \<noteq> length ids then None
                 else Some (map (\<lambda>i. (Join CHR ''/'' (take (i + 1) names),
                                     gns @ Join CHR ''/'' (take (i + 1) ids)))
                              [0..<length names]))"

definition seedDirCacheFromDocID :: "'s env \<Rightarrow> nat \<Rightarrow> string \<Rightarrow> string \<Rightarrow> ('s, bool) act" where
  "seedDirCacheFromDocID E h standardPath docid =
     (case seed_pairs standardPath docid of
        None \<Rightarrow> ok False
      | Some ps \<Rightarrow> andThen (tell (fold (\<lambda>(n, i). dc_put E h n i) ps)) (\<lambda>_. ok True))"

definition parentDocID :: "string \<Rightarrow> string option" where
  "parentDocID docid =
     (if \<not> HasPrefix docid gns then None
      else (case LastIndex CHR ''/'' docid of
              None \<Rightarrow> None
            | Some i \<Rightarrow> if i \<le> length gns then None else Some (take i docid)))"

text \<open>The result is \<open>handled\<close>, \<open>isFile\<close> and the \<open>Fs\<close>, whose root a file moves to its parent.\<close>

definition tryResolveRootByPath :: "'s env \<Rightarrow> Fs \<Rightarrow> ('s, bool \<times> bool \<times> Fs) act" where
  "tryResolveRootByPath E f =
     (if fs_root f = [] then ok (False, False, f)
      else inspect (getInfoByPath E (encodedNamePath E f [])) (\<lambda>r. case r of
        Inl _ \<Rightarrow> ok (False, False, f)
      | Inr meta \<Rightarrow>
          if e_Size meta < 0 then
            andThen (seedDirCacheFromDocID E (fs_cache f) (fs_root f) (e_DocID meta)) (\<lambda>seeded.
              if \<not> seeded then ok (False, False, f)
              else inspect (FindRoot E f False) (\<lambda>r. case r of
                Inl _ \<Rightarrow> ok (False, False, f)
              | Inr _ \<Rightarrow> ok (True, False, f)))
          else
            (let parentRoot = fst (split_path E (fs_root f)) in
             case parentDocID (e_DocID meta) of
               None \<Rightarrow> ok (False, False, f)
             | Some parentID \<Rightarrow>
                 if parentRoot = [] then ok (False, False, f)
                 else andThen (NewDirCache E parentRoot) (\<lambda>h.
                   let tempF = f\<lparr>fs_root := parentRoot, fs_cache := h\<rparr> in
                   andThen (seedDirCacheFromDocID E h parentRoot parentID) (\<lambda>seeded.
                     if \<not> seeded then ok (False, False, f)
                     else inspect (FindRoot E tempF False) (\<lambda>r. case r of
                       Inl _ \<Rightarrow> ok (False, False, f)
                     | Inr _ \<Rightarrow> ok (True, True, tempF)))))))"

text \<open>\<open>None\<close> is \<open>handled = false\<close>: the caller falls back to a directory listing.\<close>

definition newObjectByPath :: "'s env \<Rightarrow> Fs \<Rightarrow> string \<Rightarrow> ('s, (goerr + Object) option) act" where
  "newObjectByPath E f remote =
     (let namePath = encodedNamePath E f remote
      in if namePath = [] then ok None
         else inspect (getInfoByPath E namePath) (\<lambda>r. case r of
           Inl e \<Rightarrow>
             if isGetInfoPathNotFound e then ok (Some (Inl (FsError ErrorObjectNotFound)))
             else ok None
         | Inr meta \<Rightarrow>
             if e_Size meta < 0 then ok (Some (Inl (FsError ErrorIsDir)))
             else ok (Some (Inr (objectFromEntry f remote meta)))))"

section \<open>Document IDs\<close>

lemma HasPrefix_gns [simp]: "HasPrefix (gns @ s) gns"
  by (simp add: HasPrefix_def)

lemma TrimPrefix_gns [simp]: "TrimPrefix (gns @ s) gns = s"
  by (simp add: TrimPrefix_def)

lemma length_gns [simp]: "length gns = 6"
  by (simp add: gns_def)

lemma parentDocID_append:
  "c \<noteq> [] \<Longrightarrow> CHR ''/'' \<notin> set leaf \<Longrightarrow> parentDocID (gns @ c @ CHR ''/'' # leaf) = Some (gns @ c)"
  using LastIndex_append_sep [of "CHR ''/''" leaf "gns @ c"]
  by (simp add: parentDocID_def HasPrefix_def)

lemma parentDocID_SomeD:
  assumes "parentDocID d = Some p"
  shows "\<exists>c leaf. d = gns @ c @ CHR ''/'' # leaf \<and> c \<noteq> [] \<and> CHR ''/'' \<notin> set leaf \<and> p = gns @ c"
proof -
  obtain i where i: "LastIndex CHR ''/'' d = Some i" "length gns < i" "prefix gns d" "p = take i d"
    using assms by (auto simp: parentDocID_def HasPrefix_def split: if_splits option.splits)
  from LastIndex_SomeD [OF i(1)]
  have d: "d = take i d @ CHR ''/'' # drop (Suc i) d" "CHR ''/'' \<notin> set (drop (Suc i) d)"
    and "i < length d" by auto
  from i(3) obtain rest where rest: "d = gns @ rest" by (auto simp: prefix_def)
  with i have "take i d = gns @ take (i - 6) rest" and "take (i - 6) rest \<noteq> []"
    using \<open>i < length d\<close> by auto
  with d i(4) show ?thesis by (metis append.assoc)
qed

text \<open>
  The parent of a document ID. \<open>parentDocID\<close> succeeds exactly on IDs with the scheme
  \<open>gns://\<close>, at least two components and a non-empty path before the last slash, and then
  returns the ID without its last component: a document library and a malformed ID have no
  parent.
\<close>

lemma parentDocID_iff:
  "parentDocID d = Some p \<longleftrightarrow>
     (\<exists>c leaf. d = gns @ c @ CHR ''/'' # leaf \<and> c \<noteq> [] \<and> CHR ''/'' \<notin> set leaf \<and> p = gns @ c)"
  using parentDocID_SomeD parentDocID_append by blast

section \<open>Seeding the directory cache\<close>

lemma seed_pairs_SomeE:
  assumes "seed_pairs path docid = Some ps"
  obtains names ids where "names = Split CHR ''/'' (Trim CHR ''/'' path)" and "docid = gns @ Join CHR ''/'' ids"
    and "ids = Split CHR ''/'' (TrimPrefix docid gns)" and "length names = length ids"
    and "ps = map (\<lambda>i. (Join CHR ''/'' (take (i + 1) names), gns @ Join CHR ''/'' (take (i + 1) ids)))
                [0..<length names]"
proof -
  have "prefix gns docid"
    using assms by (auto simp: seed_pairs_def HasPrefix_def Let_def split: if_splits)
  then have "docid = gns @ Join CHR ''/'' (Split CHR ''/'' (TrimPrefix docid gns))"
    by (auto simp: TrimPrefix_def prefix_def)
  with assms that show ?thesis
    by (auto simp: seed_pairs_def Let_def split: if_splits)
qed

lemma take_Suc_Join:
  assumes "0 < k" and "k < length xs"
  shows "Join c (take (Suc k) xs) = Join c (take k xs) @ c # xs ! k"
proof -
  have "take (Suc k) xs = take k xs @ [xs ! k]"
    using assms by (simp add: take_Suc_conv_app_nth)
  moreover have "take k xs \<noteq> []"
    using assms by auto
  ultimately show ?thesis by (simp add: Join_append)
qed

text \<open>
  Seeding is consistent. When \<open>seedDirCacheFromDocID\<close> accepts a path and a document ID
  whose library part is not empty, what it puts into the cache ends with the whole path and the
  whole ID, has one entry for every component of the path, and every entry's ID is the
  \<open>parentDocID\<close> of the next entry's.
\<close>

lemma seed_pairs_chain:
  assumes seed: "seed_pairs path docid = Some ps" and lib: "\<not> prefix (gns @ ''/'') docid"
  shows "length ps = length (Split CHR ''/'' (Trim CHR ''/'' path))
    \<and> last ps = (Trim CHR ''/'' path, docid)
    \<and> (\<forall>k. k + 1 < length ps \<longrightarrow> parentDocID (snd (ps ! (k + 1))) = Some (snd (ps ! k)))"
proof -
  obtain names ids where names: "names = Split CHR ''/'' (Trim CHR ''/'' path)"
    and docid: "docid = gns @ Join CHR ''/'' ids"
    and ids: "ids = Split CHR ''/'' (TrimPrefix docid gns)" and len: "length names = length ids"
    and ps: "ps = map (\<lambda>i. (Join CHR ''/'' (take (i + 1) names), gns @ Join CHR ''/'' (take (i + 1) ids)))
                [0..<length names]"
    using seed by (rule seed_pairs_SomeE)
  obtain n where n: "length names = Suc n"
    by (cases names) (auto simp: names)
  then have "last ps = (Join CHR ''/'' names, docid)"
    using len by (simp add: ps docid)
  moreover have "parentDocID (snd (ps ! (k + 1))) = Some (snd (ps ! k))" if k: "k + 1 < length ps" for k
  proof -
    have k': "Suc k < length ids" using k len by (simp add: ps)
    have "CHR ''/'' \<notin> set (ids ! Suc k)"
      using k' by (intro Split_components [of _ "CHR ''/''" "TrimPrefix docid gns"]) (simp add: ids [symmetric])
    moreover have "Join CHR ''/'' (take (Suc k) ids) \<noteq> []"
    proof
      assume nil: "Join CHR ''/'' (take (Suc k) ids) = []"
      obtain x xs where x: "ids = x # xs" and "xs \<noteq> []"
        using k' by (cases ids) (auto simp: length_greater_0_conv [symmetric] simp del: length_greater_0_conv)
      with nil have "x = []" by (cases "take k xs") auto
      with x \<open>xs \<noteq> []\<close> docid have "docid = gns @ CHR ''/'' # Join CHR ''/'' xs"
        by (simp add: Join_Cons)
      with lib show False by (simp add: prefix_def)
    qed
    moreover have "snd (ps ! (k + 1)) = gns @ Join CHR ''/'' (take (Suc k) ids) @ CHR ''/'' # ids ! Suc k"
      using k k' by (simp add: ps take_Suc_Join)
    moreover have "snd (ps ! k) = gns @ Join CHR ''/'' (take (Suc k) ids)"
      using k by (simp add: ps)
    ultimately show ?thesis by (simp add: parentDocID_append)
  qed
  ultimately show ?thesis
    by (simp add: ps names)
qed


section \<open>Encoded name paths\<close>

lemma encodedNamePath_Join:
  assumes root: "fs_root f = Join CHR ''/'' rs" and remote: "remote = Join CHR ''/'' bs"
    and comps: "rs @ bs = lib # ps" and plain: "\<forall>p \<in> set (lib # ps). plain_component p"
  shows "encodedNamePath E f remote = Join CHR ''/'' (lib # map (encode E) ps)"
proof -
  have "\<forall>p \<in> set (rs @ bs). plain_component p"
    using plain by (simp only: comps)
  then have "\<forall>p \<in> set rs. plain_component p" and "\<forall>p \<in> set bs. plain_component p"
    by auto
  then have "PathJoin (fs_root f) remote = Join CHR ''/'' (rs @ bs)"
    by (simp add: root remote PathJoin_Join)
  then have full: "Trim CHR ''/'' (PathJoin (fs_root f) remote) = Join CHR ''/'' (lib # ps)"
    using Trim_Join_plain [of "lib # ps"] plain by (simp add: comps)
  moreover have "Split CHR ''/'' (Join CHR ''/'' (lib # ps)) = lib # ps"
    using plain by (intro Split_Join) (auto simp: plain_component_def)
  ultimately show ?thesis
    using plain by (simp add: encodedNamePath_def)
qed

text \<open>
  The name path sent to \<open>getinfobypath\<close> names the right entry. For a root and a remote
  made of ordinary components, the first component (the document library's display name) is
  sent as it is, every other component is sent encoded, and decoding the components of the
  path gives the remote back, for every encoder whose output has no slash and is decoded to
  the original name.
\<close>

lemma encodedNamePath_roundtrip:
  assumes root: "fs_root f = Join CHR ''/'' rs" and remote: "remote = Join CHR ''/'' bs"
    and comps: "rs @ bs = lib # ps" and plain: "\<forall>p \<in> set (lib # ps). plain_component p"
    and slash: "\<forall>p \<in> set ps. CHR ''/'' \<notin> set (encode E p)"
    and inverse: "\<forall>p \<in> set ps. decode E (encode E p) = p"
  shows "hd (Split CHR ''/'' (encodedNamePath E f remote)) = lib
    \<and> map (decode E) (tl (Split CHR ''/'' (encodedNamePath E f remote))) = ps"
proof -
  have "Split CHR ''/'' (Join CHR ''/'' (lib # map (encode E) ps)) = lib # map (encode E) ps"
    using plain slash by (intro Split_Join) (auto simp: plain_component_def)
  then show ?thesis
    using inverse by (simp add: encodedNamePath_Join [OF root remote comps plain] map_idI)
qed

end
