(* ===== verification/Part_Plan.thy ===== *)
theory Part_Plan
  imports Api_Client
begin

text \<open>
  The part sizes of a multipart upload: \<open>multipartPartSize\<close> of \<open>upload.go\<close>, the number of
  parts, the length of each part, and the ranges of missing part numbers that
  \<open>multipart_resume.go\<close> asks to be signed. All of it is \<open>int64\<close> arithmetic, with the
  wrap-around of products and sums written out.
\<close>

definition defaultMultipartPartSize :: int64 where
  "defaultMultipartPartSize = 20 * 1048576"

record multipartOptions =
  PartMinSize :: int64
  PartMaxSize :: int64
  PartMaxNum :: int64

definition zero_options :: multipartOptions where
  "zero_options = \<lparr>PartMinSize = 0, PartMaxSize = 0, PartMaxNum = 0\<rparr>"

definition dec_options :: "multipartOptions \<Rightarrow> json \<Rightarrow> multipartOptions \<times> bool" where
  "dec_options old j =
     (case struct_entries j of
        None \<Rightarrow> (old, False)
      | Some kvs \<Rightarrow>
          (let (a, oka) = dec_field ''partminsize'' dec_int (PartMinSize old) kvs;
               (b, okb) = dec_field ''partmaxsize'' dec_int (PartMaxSize old) kvs;
               (c, okc) = dec_field ''partmaxnum'' dec_int (PartMaxNum old) kvs
           in (\<lparr>PartMinSize = a, PartMaxSize = b, PartMaxNum = c\<rparr>, oka \<and> okb \<and> okc)))"

text \<open>The choice of the part size from the limits the service reports.\<close>

definition choosePartSize :: "multipartOptions \<Rightarrow> int64 \<Rightarrow> goerr + int64" where
  "choosePartSize opts sz =
     (if PartMinSize opts \<le> 0 \<or> PartMaxSize opts \<le> 0 \<or> PartMaxNum opts \<le> 0 then
        Inl (ErrNew ''PKU Disk returned invalid multipart limits'')
      else if i64 (PartMaxSize opts * PartMaxNum opts) < sz then
        Inl (ErrNew ''file exceeds PKU Disk multipart upload limits'')
      else
        (let p0 = defaultMultipartPartSize;
             p1 = (if i64 (p0 * PartMaxNum opts) < sz
                   then quot (i64 (i64 (sz + PartMaxNum opts) - 1)) (PartMaxNum opts) else p0);
             p2 = max p1 (PartMinSize opts)
         in Inr (min p2 (PartMaxSize opts))))"

definition multipartPartSize :: "'s env \<Rightarrow> int64 \<Rightarrow> ('s, int64) act" where
  "multipartPartSize E sz =
     andThen (doJSON E None ''POST'' ''efast/v1/file/osoption'' None dec_options zero_options)
       (\<lambda>opts. lift (choosePartSize opts sz))"

definition partCount :: "int64 \<Rightarrow> int64 \<Rightarrow> int64" where
  "partCount sz partSize = quot (i64 (i64 (sz + partSize) - 1)) partSize"

text \<open>The length of the part with the 0-based number \<open>k\<close>.\<close>

definition chunkLen :: "int64 \<Rightarrow> int64 \<Rightarrow> int64 \<Rightarrow> int64" where
  "chunkLen sz partSize k = min partSize (i64 (sz - i64 (k * partSize)))"

section \<open>The ranges of missing parts\<close>

text \<open>
  The inner loop of \<open>missingMultipartRanges\<close>: the first part from \<open>part\<close> on that is done or
  past the last one.
\<close>

function skip_missing :: "(string \<Rightarrow> bool) \<Rightarrow> int64 \<Rightarrow> int64 \<Rightarrow> int64" where
  "skip_missing has count part =
     (if part \<le> count \<and> \<not> has (FormatInt part) then skip_missing has count (part + 1) else part)"
  by pat_completeness auto
termination
  by (relation "measure (\<lambda>(has, count, part). nat (count + 1 - part))") auto

declare skip_missing.simps [simp del]

lemma skip_missing_ge: "part \<le> skip_missing has count part"
proof (induction has count part rule: skip_missing.induct)
  case (1 has count part)
  then show ?case by (subst skip_missing.simps) (auto split: if_splits)
qed

lemma skip_missing_gt:
  assumes "part \<le> count" and "\<not> has (FormatInt part)"
  shows "part < skip_missing has count part"
  using skip_missing_ge [of "part + 1" has count] assms
  by (subst skip_missing.simps) simp

function missing_from :: "(string \<Rightarrow> bool) \<Rightarrow> int64 \<Rightarrow> int64 \<Rightarrow> (int64 \<times> int64) list" where
  "missing_from has count part =
     (if part \<le> count then
        (if has (FormatInt part) then missing_from has count (part + 1)
         else (let stop = skip_missing has count part
               in (part, stop - 1) # missing_from has count stop))
      else [])"
  by pat_completeness auto
termination
  by (relation "measure (\<lambda>(has, count, part). nat (count + 1 - part))")
    (auto dest: skip_missing_gt)

declare missing_from.simps [simp del]

definition render_range :: "int64 \<times> int64 \<Rightarrow> string" where
  "render_range = (\<lambda>(a, b).
     if a = b then FormatInt a else FormatInt a @ ''-'' @ FormatInt b)"

text \<open>\<open>has\<close> tells which part numbers, as decimal keys, are keys of \<open>partInfo\<close>.\<close>

definition missingMultipartRanges :: "int64 \<Rightarrow> (string \<Rightarrow> bool) \<Rightarrow> string list" where
  "missingMultipartRanges count has = map render_range (missing_from has count 1)"

section \<open>Bounds of the part size\<close>

lemma ceil_bounds:
  fixes s p :: int
  assumes "0 < s" and "0 < p"
  shows "((s + p - 1) div p - 1) * p < s" and "s \<le> (s + p - 1) div p * p" and "1 \<le> (s + p - 1) div p"
proof -
  have eq: "(s + p - 1) div p * p + (s + p - 1) mod p = s + p - 1"
    by (rule div_mult_mod_eq)
  have m: "0 \<le> (s + p - 1) mod p" "(s + p - 1) mod p < p"
    using assms by simp_all
  show "((s + p - 1) div p - 1) * p < s" and le: "s \<le> (s + p - 1) div p * p"
    unfolding left_diff_distrib using eq m by linarith+
  show "1 \<le> (s + p - 1) div p"
    using le assms zero_less_mult_pos2 [of "(s + p - 1) div p" p] by linarith
qed

lemma ceil_le_iff:
  fixes s p n :: int
  assumes "0 < s" and "0 < p"
  shows "(s + p - 1) div p \<le> n \<longleftrightarrow> s \<le> n * p"
proof
  assume "(s + p - 1) div p \<le> n"
  then have "(s + p - 1) div p * p \<le> n * p"
    using assms by (intro mult_right_mono) simp_all
  with ceil_bounds(2) [OF assms] show "s \<le> n * p" by simp
next
  assume "s \<le> n * p"
  with ceil_bounds(1) [OF assms] have "((s + p - 1) div p - 1) * p < n * p" by simp
  with assms show "(s + p - 1) div p \<le> n" by (simp add: mult_less_cancel_right)
qed

lemma ceil_quot:
  assumes "0 < s" and "0 < p" and "in_i64 (s + p)"
  shows "quot (i64 (i64 (s + p) - 1)) p = (s + p - 1) div p"
proof -
  have fit: "in_i64 (s + p - 1)"
    using assms by (simp add: in_i64_def)
  then have "i64 (i64 (s + p) - 1) = s + p - 1"
    using assms(3) by (simp only: i64_id)
  moreover have "quot (s + p - 1) p = (s + p - 1) div p"
    using assms fit by (intro quot_nonneg) simp_all
  ultimately show ?thesis by simp
qed

lemma partCount_eq:
  "0 < s \<Longrightarrow> 0 < p \<Longrightarrow> in_i64 (s + p) \<Longrightarrow> partCount s p = (s + p - 1) div p"
  by (simp only: partCount_def ceil_quot)

text \<open>The limits and the size are small enough for the products and sums of the code.\<close>

definition no_overflow :: "multipartOptions \<Rightarrow> int64 \<Rightarrow> bool" where
  "no_overflow opts s \<longleftrightarrow>
     in_i64 (PartMaxSize opts * PartMaxNum opts)
     \<and> in_i64 (defaultMultipartPartSize * PartMaxNum opts)
     \<and> in_i64 (s + PartMaxNum opts) \<and> in_i64 (s + PartMaxSize opts)"

lemma choosePartSize_cases:
  assumes plan: "choosePartSize opts s = Inr p" and s: "0 < s" and nov: "no_overflow opts s"
  shows "0 < PartMaxNum opts" and "0 < p" and "p \<le> PartMaxSize opts"
    and "min (PartMinSize opts) (PartMaxSize opts) \<le> p" and "s \<le> PartMaxNum opts * p"
proof -
  let ?d = "defaultMultipartPartSize" and ?n = "PartMaxNum opts" and ?M = "PartMaxSize opts"
  let ?c = "(s + ?n - 1) div ?n"
  have pos: "0 < PartMinSize opts" "0 < ?M" "0 < ?n" and fit: "s \<le> ?M * ?n"
    and p: "p = min (max (if ?d * ?n < s then quot (i64 (i64 (s + ?n) - 1)) ?n else ?d) (PartMinSize opts)) ?M"
    using plan nov by (auto simp: choosePartSize_def no_overflow_def Let_def split: if_splits)
  have q: "quot (i64 (i64 (s + ?n) - 1)) ?n = ?c"
    using s pos nov by (intro ceil_quot) (simp_all add: no_overflow_def)
  show "0 < ?n" by fact
  have d: "0 < ?d" by (simp add: defaultMultipartPartSize_def)
  show "p \<le> ?M" and "min (PartMinSize opts) ?M \<le> p" and "0 < p"
    using p pos by auto
  have "s \<le> (if ?d * ?n < s then ?c else ?d) * ?n"
    using ceil_bounds(2) [of s ?n] s pos by auto
  also have "\<dots> \<le> max (if ?d * ?n < s then ?c else ?d) (PartMinSize opts) * ?n"
    using pos by (intro mult_right_mono) auto
  finally have "s \<le> max (if ?d * ?n < s then ?c else ?d) (PartMinSize opts) * ?n" .
  with fit show "s \<le> ?n * p"
    by (auto simp: p q min_def mult.commute)
qed

text \<open>
  C22. The part size respects the limits of the service. Without overflow, the size that
  \<open>multipartPartSize\<close> chooses for a non-empty file is positive, at most the largest part,
  at least the smallest part (when the limits are consistent), and cuts the file into at least
  one and at most \<open>partmaxnum\<close> parts, of which only the last may be short.
\<close>

theorem choosePartSize_within_limits:
  assumes "choosePartSize opts s = Inr p" and "0 < s" and "no_overflow opts s"
  shows "0 < p \<and> p \<le> PartMaxSize opts \<and> min (PartMinSize opts) (PartMaxSize opts) \<le> p
    \<and> 1 \<le> partCount s p \<and> partCount s p \<le> PartMaxNum opts
    \<and> (partCount s p - 1) * p < s \<and> s \<le> partCount s p * p"
proof -
  note c = choosePartSize_cases [OF assms]
  have "in_i64 (s + p)"
    using assms(2,3) c by (auto simp: no_overflow_def in_i64_def)
  then have "partCount s p = (s + p - 1) div p"
    using assms(2) c by (simp add: partCount_eq)
  with c assms(2) show ?thesis
    using ceil_bounds [of s p] ceil_le_iff [of s p "PartMaxNum opts"] by simp
qed

theorem choosePartSize_within_limits_witness:
  "partCount 300000000000 30000000 \<le> 10000"
proof -
  let ?o = "\<lparr>PartMinSize = 1048576, PartMaxSize = 5368709120, PartMaxNum = 10000\<rparr>"
  have "choosePartSize ?o 300000000000 = Inr 30000000"
    by (simp add: choosePartSize_def defaultMultipartPartSize_def i64_def quot_def)
  from choosePartSize_within_limits [OF this] show ?thesis
    by (simp add: no_overflow_def in_i64_def defaultMultipartPartSize_def)
qed

section \<open>The parts tile the file\<close>

lemma chunkLen_eq:
  assumes "0 < s" and "0 < p" and "in_i64 s" and "0 \<le> k" and "k * p < s"
  shows "chunkLen s p k = min p (s - k * p)"
proof -
  have "0 \<le> k * p" using assms by simp
  then have "in_i64 (k * p)" and "in_i64 (s - k * p)"
    using assms(3,5) by (auto simp: in_i64_def)
  then show ?thesis by (simp add: chunkLen_def)
qed

lemma sum_full_chunks:
  fixes s p :: int
  assumes "0 < p"
  shows "int m * p \<le> s \<Longrightarrow> (\<Sum>k<m. min p (s - int k * p)) = int m * p"
proof (induction m)
  case (Suc m)
  then have "int m * p \<le> s" and "p \<le> s - int m * p"
    using assms by (auto simp: algebra_simps)
  with Suc show ?case by (simp add: algebra_simps)
qed simp

lemma chunkLen_tiling:
  assumes "0 < s" and "in_i64 s" and "0 < p" and "0 < c" and "(c - 1) * p < s" and "s \<le> c * p"
  shows "(\<forall>k. 0 \<le> k \<and> k < c \<longrightarrow> 0 < chunkLen s p k \<and> chunkLen s p k \<le> p)
    \<and> (\<forall>m. int m < c \<longrightarrow> (\<Sum>k<m. chunkLen s p (int k)) = int m * p)
    \<and> (\<Sum>k<nat c. chunkLen s p (int k)) = s"
proof -
  have below: "k * p < s" if "k < c" for k
  proof -
    have "k * p \<le> (c - 1) * p"
      using that assms(3) by (intro mult_right_mono) simp_all
    with assms(5) show ?thesis by linarith
  qed
  have len: "chunkLen s p k = min p (s - k * p)" if "0 \<le> k" "k < c" for k
    using that below assms by (intro chunkLen_eq) simp_all
  have sum: "(\<Sum>k<m. chunkLen s p (int k)) = (\<Sum>k<m. min p (s - int k * p))" if "int m \<le> c" for m
    using that by (intro sum.cong refl len) simp_all
  obtain m where m: "nat c = Suc m" and c: "c = int m + 1"
    using assms(4) by (metis Suc_pred' add.commute int_nat_eq less_le of_nat_Suc zero_less_nat_eq)
  have "(\<Sum>k<nat c. chunkLen s p (int k)) = int m * p + min p (s - int m * p)"
    using sum [of "Suc m"] sum_full_chunks [of p m s] below [of "int m"] assms(3) c
    unfolding m by simp
  moreover have "s - int m * p \<le> p"
    using assms(6) c by (simp add: algebra_simps)
  ultimately have "(\<Sum>k<nat c. chunkLen s p (int k)) = s"
    by simp
  moreover have "(\<Sum>k<m. chunkLen s p (int k)) = int m * p" if "int m < c" for m
    using sum [of m] sum_full_chunks [of p m s] below [of "int m"] that assms(3) by simp
  ultimately show ?thesis
    using len below assms(3) by simp
qed

text \<open>
  C24. The parts tile the file. Whenever the part count and the part size cut a file of \<open>s\<close>
  bytes with only the last part short, every part \<open>k\<close> has between 1 byte and the part size,
  starts where the parts before it end, and the lengths of all parts add up to \<open>s\<close>.
\<close>

theorem chunkLen_tiles:
  assumes "0 < s" and "in_i64 s" and "0 < p" and "0 < c" and "(c - 1) * p < s" and "s \<le> c * p"
  shows "(\<forall>k. 0 \<le> k \<and> k < c \<longrightarrow> 0 < chunkLen s p k \<and> chunkLen s p k \<le> p)
    \<and> (\<forall>m. int m < c \<longrightarrow> (\<Sum>k<m. chunkLen s p (int k)) = int m * p)
    \<and> (\<Sum>k<nat c. chunkLen s p (int k)) = s"
  using assms by (rule chunkLen_tiling)

theorem chunkLen_tiles_witness: "(\<Sum>k<nat 3. chunkLen 25 10 (int k)) = 25"
  using chunkLen_tiles [of 25 10 3] by (simp add: in_i64_def)

section \<open>The ranges are the missing parts\<close>

lemma skip_missing_spec:
  "part \<le> n \<Longrightarrow> n < skip_missing has count part \<Longrightarrow> n \<le> count \<and> \<not> has (FormatInt n)"
  "skip_missing has count part \<le> count \<Longrightarrow> has (FormatInt (skip_missing has count part))"
proof (induction has count part rule: skip_missing.induct)
  case (1 has count part)
  have eq: "skip_missing has count part =
      (if part \<le> count \<and> \<not> has (FormatInt part) then skip_missing has count (part + 1) else part)"
    by (rule skip_missing.simps)
  show "n \<le> count \<and> \<not> has (FormatInt n)" if "part \<le> n" and "n < skip_missing has count part"
    using that "1.IH"(1) eq by (cases "part = n") (auto split: if_splits)
  show "has (FormatInt (skip_missing has count part))" if "skip_missing has count part \<le> count"
    using that "1.IH"(2) eq by (auto split: if_splits)
qed

definition covers :: "(int \<times> int) list \<Rightarrow> int \<Rightarrow> bool" where
  "covers rs n \<longleftrightarrow> (\<exists>(a, b) \<in> set rs. a \<le> n \<and> n \<le> b)"

lemma missing_from_covers:
  "covers (missing_from has count part) n \<longleftrightarrow> part \<le> n \<and> n \<le> count \<and> \<not> has (FormatInt n)"
proof (induction has count part rule: missing_from.induct)
  case (1 has count part)
  show ?case
  proof (cases "part \<le> count \<and> \<not> has (FormatInt part)")
    case True
    let ?stop = "skip_missing has count part"
    have stop: "part < ?stop"
      using True by (intro skip_missing_gt) simp_all
    have "covers (missing_from has count part) n \<longleftrightarrow>
        part \<le> n \<and> n < ?stop \<or> covers (missing_from has count ?stop) n"
      using True by (subst missing_from.simps) (auto simp: covers_def Let_def)
    also have "\<dots> \<longleftrightarrow> part \<le> n \<and> n < ?stop \<or> ?stop \<le> n \<and> n \<le> count \<and> \<not> has (FormatInt n)"
      using "1.IH"(2) True by blast
    also have "\<dots> \<longleftrightarrow> part \<le> n \<and> n \<le> count \<and> \<not> has (FormatInt n)"
      using skip_missing_spec(1) [of part n has count] stop by force
    finally show ?thesis .
  next
    case False
    show ?thesis
    proof (cases "part \<le> count")
      case True
      with False have "missing_from has count part = missing_from has count (part + 1)"
        by (subst missing_from.simps) simp
      with "1.IH"(1) True False show ?thesis
        by (cases "n = part") auto
    qed (subst missing_from.simps, simp add: covers_def)
  qed
qed

text \<open>The ranges are not empty, in order, and no two of them touch.\<close>

fun separated :: "(int \<times> int) list \<Rightarrow> bool" where
  "separated [] = True"
| "separated [(a, b)] = (a \<le> b)"
| "separated ((a, b) # (c, d) # rs) = (a \<le> b \<and> b + 1 < c \<and> separated ((c, d) # rs))"

lemma missing_from_fst:
  "(a, b) \<in> set (missing_from has count part) \<Longrightarrow> part \<le> a \<and> a \<le> count \<and> \<not> has (FormatInt a) \<and> a \<le> b"
proof (induction has count part rule: missing_from.induct)
  case (1 has count part)
  then show ?case
    by (subst (asm) (3) missing_from.simps)
      (auto simp: Let_def split: if_splits dest: skip_missing_gt)
qed

lemma missing_from_separated: "separated (missing_from has count part)"
proof (induction has count part rule: missing_from.induct)
  case (1 has count part)
  show ?case
  proof (cases "part \<le> count \<and> \<not> has (FormatInt part)")
    case True
    let ?stop = "skip_missing has count part" and ?rest = "missing_from has count (skip_missing has count part)"
    have stop: "part < ?stop"
      using True by (intro skip_missing_gt) simp_all
    have eq: "missing_from has count part = (part, ?stop - 1) # ?rest"
      using True by (subst missing_from.simps) (simp add: Let_def)
    have IH: "separated ?rest" using "1.IH"(2) True by blast
    show ?thesis
    proof (cases ?rest)
      case Nil
      with eq stop show ?thesis by simp
    next
      case (Cons r rs)
      obtain c d where r: "r = (c, d)" by (cases r)
      with Cons have "?stop \<le> c" and "c \<le> count" and "\<not> has (FormatInt c)"
        using missing_from_fst [of c d has count ?stop] by auto
      then have "?stop \<noteq> c"
        using skip_missing_spec(2) [of has count part] by auto
      with \<open>?stop \<le> c\<close> IH Cons r eq stop show ?thesis by simp
    qed
  next
    case False
    with "1.IH"(1) show ?thesis by (subst missing_from.simps) auto
  qed
qed

text \<open>
  C23. Exactly the missing parts are signed. The ranges that \<open>missingMultipartRanges\<close> renders
  cover a part number if and only if it is between 1 and the part count and its key is not in
  the part information, and they are as few as possible: not empty, ascending, and separated by
  at least one completed part.
\<close>

theorem missingMultipartRanges_exact:
  "\<exists>rs. missingMultipartRanges count has = map render_range rs \<and> separated rs
     \<and> {n. covers rs n} = {n. 1 \<le> n \<and> n \<le> count \<and> \<not> has (FormatInt n)}"
  using missing_from_covers missing_from_separated
  by (intro exI [of _ "missing_from has count 1"]) (auto simp: missingMultipartRanges_def)

end
