(* ===== verification/Signed_Request.thy ===== *)
theory Signed_Request
  imports Go_Runtime "HOL-Library.AList"
begin

text \<open>
  Signed object-storage requests, \<open>upload.go\<close>: the service hands out a list of strings (a
  method, a URL, then \<open>key: value\<close> lines) that becomes a form upload or a request with
  headers, and the response to \<open>oscompleteupload\<close> that carries the completion document and
  a signed request in one multipart text. Maps are association lists with one entry per key.
\<close>

record signedRequest =
  s_method :: string
  s_url :: string
  s_headers :: "(string \<times> string) list"
  s_fields :: "(string \<times> string) list"

section \<open>http.Header\<close>

text \<open>Bytes of an HTTP token; only keys made of these are put into canonical form.\<close>

definition token_byte :: "char \<Rightarrow> bool" where
  "token_byte c \<longleftrightarrow>
     in_range 48 57 c \<or> in_range 65 90 c \<or> in_range 97 122 c
     \<or> c \<in> set ''!#$%&*+-.^_`|~'' \<or> c = CHR 0x27"

text \<open>Upper case at the start and after a hyphen, lower case elsewhere.\<close>

fun canonical_from :: "bool \<Rightarrow> string \<Rightarrow> string" where
  "canonical_from up [] = []"
| "canonical_from up (c # cs) =
     (if up then upper_char c else lower_char c) # canonical_from (c = CHR ''-'') cs"

definition CanonicalHeaderKey :: "string \<Rightarrow> string" where
  "CanonicalHeaderKey k = (if list_all token_byte k then canonical_from True k else k)"

definition header_set :: "string \<Rightarrow> string \<Rightarrow> (string \<times> string) list \<Rightarrow> (string \<times> string) list" where
  "header_set k v h = AList.update (CanonicalHeaderKey k) v h"

definition header_get :: "string \<Rightarrow> (string \<times> string) list \<Rightarrow> string" where
  "header_get k h = (case map_of h (CanonicalHeaderKey k) of Some v \<Rightarrow> v | None \<Rightarrow> [])"

section \<open>The two parsers\<close>

fun form_fields :: "string list \<Rightarrow> (string \<times> string) list \<Rightarrow> goerr + (string \<times> string) list" where
  "form_fields [] acc = Inr acc"
| "form_fields (line # ls) acc =
     (case Cut '': '' line of
        None \<Rightarrow> Inl (Errorf ''malformed signed upload field %q'' [line] [] [])
      | Some (k, v) \<Rightarrow>
          if k = [] then Inl (Errorf ''malformed signed upload field %q'' [line] [] [])
          else form_fields ls (AList.update k v acc))"

definition parseFormSignedRequest :: "string list \<Rightarrow> goerr + signedRequest" where
  "parseFormSignedRequest vals =
     (case vals of
        m # u # ls \<Rightarrow>
          if ToUpper m \<noteq> ''POST'' \<or> u = [] then
            Inl (ErrNew ''signed upload request has invalid method or URL'')
          else (case form_fields ls [] of
                  Inl e \<Rightarrow> Inl e
                | Inr fs \<Rightarrow>
                    Inr \<lparr>s_method = ToUpper m, s_url = u, s_headers = [], s_fields = fs\<rparr>)
      | _ \<Rightarrow> Inl (ErrNew ''signed upload request is incomplete''))"

fun header_lines :: "string list \<Rightarrow> (string \<times> string) list \<Rightarrow> goerr + (string \<times> string) list" where
  "header_lines [] acc = Inr acc"
| "header_lines (line # ls) acc =
     (case Cut '': '' line of
        None \<Rightarrow> Inl (Errorf ''malformed signed object header %q'' [line] [] [])
      | Some (k, v) \<Rightarrow>
          if k = [] then Inl (Errorf ''malformed signed object header %q'' [line] [] [])
          else if EqualFold k ''x-as-userid'' then header_lines ls acc
          else header_lines ls (header_set k v acc))"

definition parseHeaderSignedRequest :: "string list \<Rightarrow> goerr + signedRequest" where
  "parseHeaderSignedRequest vals =
     (case vals of
        m # u # ls \<Rightarrow>
          if ToUpper m = [] \<or> u = [] then
            Inl (ErrNew ''signed object request has invalid method or URL'')
          else (case header_lines ls [] of
                  Inl e \<Rightarrow> Inl e
                | Inr hs \<Rightarrow>
                    Inr \<lparr>s_method = ToUpper m, s_url = u, s_headers = hs, s_fields = []\<rparr>)
      | _ \<Rightarrow> Inl (ErrNew ''signed object request is incomplete''))"

section \<open>The completion response\<close>

text \<open>
  The expression \<open>\s*--[A-Za-z0-9_-]+\s*\<close>: the length of its match at the front of the text,
  or \<open>None\<close>. The greedy runs never need to give bytes back, since the next item of the
  expression cannot match a byte they took, and a longer last run is what greedy matching gives.
\<close>

definition re_space :: "char \<Rightarrow> bool" where
  "re_space c \<longleftrightarrow> c = CHR '' '' \<or> c = CHR 0x09 \<or> c = CHR 0x0A \<or> c = CHR 0x0C \<or> c = CHR 0x0D"

definition re_word :: "char \<Rightarrow> bool" where
  "re_word c \<longleftrightarrow>
     in_range 65 90 c \<or> in_range 97 122 c \<or> in_range 48 57 c \<or> c = CHR ''_'' \<or> c = CHR ''-''"

definition boundary_len :: "string \<Rightarrow> nat option" where
  "boundary_len s =
     (let sp = takeWhile re_space s; r = drop (length sp) s
      in if \<not> prefix ''--'' r then None
         else (let name = takeWhile re_word (drop 2 r);
                   r' = drop (length name) (drop 2 r)
               in if name = [] then None
                  else Some (length sp + 2 + length name + length (takeWhile re_space r'))))"

lemma boundary_len_pos: "boundary_len s = Some n \<Longrightarrow> 0 < n"
  by (auto simp: boundary_len_def Let_def split: if_splits)

text \<open>\<open>completionBoundary.Split(s, -1)\<close>; \<open>cur\<close> holds the bytes since the last match.\<close>

function split_boundary :: "string \<Rightarrow> string \<Rightarrow> string list" where
  "split_boundary cur s =
     (case s of
        [] \<Rightarrow> [cur]
      | c # r \<Rightarrow>
          (case boundary_len s of
             Some n \<Rightarrow> cur # split_boundary [] (drop n s)
           | None \<Rightarrow> split_boundary (cur @ [c]) r))"
  by pat_completeness auto
termination
  by (relation "measure (\<lambda>(cur, s). length s)") (auto dest: boundary_len_pos)

declare split_boundary.simps [simp del]

definition dec_completion :: "string list \<Rightarrow> json \<Rightarrow> string list \<times> bool" where
  "dec_completion old j =
     (case struct_entries j of
        None \<Rightarrow> (old, False)
      | Some kvs \<Rightarrow> dec_field ''authrequest'' (dec_list dec_str []) old kvs)"

definition unmarshal_completion :: "string \<Rightarrow> string list option" where
  "unmarshal_completion t =
     (case json_parse t of
        None \<Rightarrow> None
      | Some j \<Rightarrow> (case dec_completion [] j of (a, True) \<Rightarrow> Some a | (_, False) \<Rightarrow> None))"

text \<open>The loop over the parts; \<open>prev\<close> is the part before the current one, if there is one.\<close>

fun completion_loop :: "string option \<Rightarrow> string \<Rightarrow> string list \<Rightarrow> goerr + (string \<times> string list)" where
  "completion_loop prev body [] = Inl (ErrNew ''multipart completion response is malformed'')"
| "completion_loop prev body (part # ps) =
     (let trimmed = TrimSpace part
      in if trimmed = [] then completion_loop (Some part) body ps
         else (case unmarshal_completion trimmed of
                 Some auth \<Rightarrow>
                   if length auth \<ge> 2 then
                     (let body' = (case prev of
                                     Some q \<Rightarrow> if body = [] then TrimSpace q else body
                                   | None \<Rightarrow> body)
                      in if body' = [] then
                           Inl (ErrNew ''multipart completion response is missing body'')
                         else Inr (body', auth))
                   else completion_loop (Some part) trimmed ps
               | None \<Rightarrow> completion_loop (Some part) trimmed ps))"

definition parseCompletionResponse :: "string \<Rightarrow> goerr + (string \<times> string list)" where
  "parseCompletionResponse data = completion_loop None [] (split_boundary [] data)"

section \<open>What the parsers guarantee\<close>

lemma keys_update [simp]: "fst ` set (AList.update k v al) = insert k (fst ` set al)"
  by (metis AList.update_keys image_set insert_absorb list.set_map list.simps(15) rotate1.simps(2)
      set_rotate1)

lemma token_byte_ascii: "token_byte c \<Longrightarrow> byte c < 128"
  by (auto simp: token_byte_def in_range_def)

lemma lower_upper_char [simp]: "lower_char (upper_char c) = lower_char c"
proof -
  have "byte c < 256" by simp
  then show ?thesis
    by (auto simp: lower_char_def upper_char_def Let_def)
qed

lemma lower_lower_char [simp]: "lower_char (lower_char c) = lower_char c"
  by (auto simp: lower_char_def Let_def)

lemma ascii_cased: "byte c < 128 \<Longrightarrow> byte (upper_char c) < 128 \<and> byte (lower_char c) < 128"
  by (auto simp: lower_char_def upper_char_def Let_def)

lemma fold_case_ascii: "list_all (\<lambda>c. byte c < 128) k \<Longrightarrow> fold_case k = map lower_char k"
  by (induction k rule: fold_case.induct) auto

lemma canonical_from_lower: "map lower_char (canonical_from up k) = map lower_char k"
  by (induction up k rule: canonical_from.induct) auto

lemma canonical_from_ascii:
  "list_all (\<lambda>c. byte c < 128) k \<Longrightarrow> list_all (\<lambda>c. byte c < 128) (canonical_from up k)"
  by (induction up k rule: canonical_from.induct) (auto simp: ascii_cased)

lemma fold_case_CanonicalHeaderKey [simp]: "fold_case (CanonicalHeaderKey k) = fold_case k"
proof (cases "list_all token_byte k")
  case True
  then have "list_all (\<lambda>c. byte c < 128) k"
    by (auto simp: list_all_iff token_byte_ascii)
  with True canonical_from_ascii [of k True] show ?thesis
    by (simp add: CanonicalHeaderKey_def fold_case_ascii canonical_from_lower)
qed (simp add: CanonicalHeaderKey_def)

lemma form_fields_keys:
  "form_fields ls acc = Inr fs \<Longrightarrow> distinct (map fst acc) \<Longrightarrow> [] \<notin> fst ` set acc \<Longrightarrow>
     distinct (map fst fs) \<and> [] \<notin> fst ` set fs"
proof (induction ls arbitrary: acc)
  case (Cons line ls)
  obtain k v where "Cut '': '' line = Some (k, v)" "k \<noteq> []"
    and rest: "form_fields ls (AList.update k v acc) = Inr fs"
    using Cons.prems(1) by (auto split: option.splits if_splits)
  show ?case
    by (rule Cons.IH [OF rest]) (use Cons.prems \<open>k \<noteq> []\<close> in \<open>simp_all add: AList.distinct_update\<close>)
qed simp

lemma header_lines_keys:
  "header_lines ls acc = Inr hs \<Longrightarrow> distinct (map fst acc) \<Longrightarrow>
     \<forall>k \<in> fst ` set acc. \<not> EqualFold k ''x-as-userid'' \<Longrightarrow>
     distinct (map fst hs) \<and> (\<forall>k \<in> fst ` set hs. \<not> EqualFold k ''x-as-userid'')"
proof (induction ls arbitrary: acc)
  case (Cons line ls)
  obtain k v where kv: "Cut '': '' line = Some (k, v)" "k \<noteq> []"
    using Cons.prems(1) by (auto split: option.splits if_splits)
  show ?case
  proof (cases "EqualFold k ''x-as-userid''")
    case True
    with kv Cons.prems(1) have "header_lines ls acc = Inr hs" by simp
    then show ?thesis using Cons.prems by (intro Cons.IH)
  next
    case False
    with kv Cons.prems(1) have "header_lines ls (header_set k v acc) = Inr hs" by simp
    moreover have "\<not> EqualFold (CanonicalHeaderKey k) ''x-as-userid''"
      using False unfolding EqualFold_def fold_case_CanonicalHeaderKey .
    then have "\<forall>k \<in> fst ` set (header_set k v acc). \<not> EqualFold k ''x-as-userid''"
      using Cons.prems(3) by (simp only: header_set_def keys_update ball_simps simp_thms)
    moreover have "distinct (map fst (header_set k v acc))"
      using Cons.prems(2) by (simp only: header_set_def AList.distinct_update)
    ultimately show ?thesis by (intro Cons.IH)
  qed
qed simp

text \<open>
  A signed request is usable and carries no user ID. Whatever list of strings the service
  returns, a request that \<open>parseHeaderSignedRequest\<close> accepts has a method and a URL, holds
  every header once, and none of its header names is \<open>x-as-userid\<close> in any spelling, so that
  header is never forwarded to the object storage.
\<close>

lemma parseHeaderSignedRequest_safe:
  assumes "parseHeaderSignedRequest vals = Inr s"
  shows "s_method s \<noteq> [] \<and> s_url s \<noteq> [] \<and> distinct (map fst (s_headers s))
    \<and> (\<forall>k \<in> fst ` set (s_headers s). \<not> EqualFold k ''x-as-userid'')"
proof -
  obtain m u ls hs where "ToUpper m \<noteq> []" "u \<noteq> []" "header_lines ls [] = Inr hs"
    and s: "s = \<lparr>s_method = ToUpper m, s_url = u, s_headers = hs, s_fields = []\<rparr>"
    using assms
    by (auto simp: parseHeaderSignedRequest_def split: list.splits if_splits sum.splits)
  then show ?thesis
    using header_lines_keys [of ls "[]" hs] by simp
qed

definition sample_request :: "string list" where
  "sample_request = [''put'', ''https://s/o'', ''content-type: a/b'', ''X-AS-UserID: me'']"


lemma completion_loop_spec:
  "completion_loop prev body ps = Inr (b, a) \<Longrightarrow> body = [] \<or> (\<exists>q \<in> qs. body = TrimSpace q) \<Longrightarrow>
     (\<forall>q. prev = Some q \<longrightarrow> q \<in> qs) \<Longrightarrow> set ps \<subseteq> qs \<Longrightarrow>
     b \<noteq> [] \<and> 2 \<le> length a \<and> (\<exists>q \<in> qs. b = TrimSpace q)
       \<and> (\<exists>q \<in> set ps. unmarshal_completion (TrimSpace q) = Some a)"
proof (induction ps arbitrary: prev body)
  case (Cons part ps)
  show ?case
  proof (cases "TrimSpace part = [] \<or> (\<forall>auth. unmarshal_completion (TrimSpace part) = Some auth \<longrightarrow> length auth < 2)")
    case True
    define body' where "body' = (if TrimSpace part = [] then body else TrimSpace part)"
    have "completion_loop (Some part) body' ps = Inr (b, a)"
      using Cons.prems(1) True by (auto simp: Let_def body'_def split: option.splits if_splits)
    moreover have "body' = [] \<or> (\<exists>q \<in> qs. body' = TrimSpace q)"
      using Cons.prems by (auto simp: body'_def)
    ultimately show ?thesis
      using Cons.IH [of "Some part" body'] Cons.prems(4) by auto
  next
    case False
    then show ?thesis
      using Cons.prems by (auto simp: Let_def split: option.splits if_splits)
  qed
qed simp

text \<open>
  A completion is never sent without a document. When \<open>parseCompletionResponse\<close> accepts
  a response, the completion document is not empty and is one of the parts of the response
  without its surrounding white space, and the signed request, decoded from a part of it,
  has at least a method and a URL.
\<close>

lemma parseCompletionResponse_sound:
  assumes "parseCompletionResponse data = Inr (b, a)"
  shows "b \<noteq> [] \<and> 2 \<le> length a
    \<and> (\<exists>p \<in> set (split_boundary [] data). b = TrimSpace p)
    \<and> (\<exists>p \<in> set (split_boundary [] data). unmarshal_completion (TrimSpace p) = Some a)"
  using completion_loop_spec [of None "[]" "split_boundary [] data" b a "set (split_boundary [] data)"]
    assms
  by (simp add: parseCompletionResponse_def)

end
