(* ===== verification/Upload.thy ===== *)
theory Upload
  imports Part_Plan Signed_Request Sample_Service
begin

text \<open>
  Uploads, \<open>upload.go\<close>: the single signed upload, the sequential multipart upload, and the
  signing, refreshing and finishing of a multipart session that the chunk writer shares. The
  reader of the source is the list of bytes left in it; a source modification time is a number
  of nanoseconds since the epoch. Part information is an association list from decimal part
  numbers to the ETag and the length of the part.
\<close>

record uploadBegin =
  b_DocID :: string
  b_Rev :: string
  b_AuthRequest :: "string list"

record multipartInit =
  i_DocID :: string
  i_Rev :: string
  i_UploadID :: string

type_synonym partInfo = "(string \<times> (string \<times> int64)) list"
type_synonym signedParts = "string \<rightharpoonup> string list"

definition zero_begin :: uploadBegin where
  "zero_begin = \<lparr>b_DocID = [], b_Rev = [], b_AuthRequest = []\<rparr>"

definition dec_begin :: "uploadBegin \<Rightarrow> json \<Rightarrow> uploadBegin \<times> bool" where
  "dec_begin old j =
     (case struct_entries j of
        None \<Rightarrow> (old, False)
      | Some kvs \<Rightarrow>
          (let (i, a) = dec_field ''docid'' dec_str (b_DocID old) kvs;
               (r, b) = dec_field ''rev'' dec_str (b_Rev old) kvs;
               (q, c) = dec_field ''authrequest'' (dec_list dec_str []) (b_AuthRequest old) kvs
           in (\<lparr>b_DocID = i, b_Rev = r, b_AuthRequest = q\<rparr>, a \<and> b \<and> c)))"

definition zero_init :: multipartInit where
  "zero_init = \<lparr>i_DocID = [], i_Rev = [], i_UploadID = []\<rparr>"

definition dec_init :: "multipartInit \<Rightarrow> json \<Rightarrow> multipartInit \<times> bool" where
  "dec_init old j =
     (case struct_entries j of
        None \<Rightarrow> (old, False)
      | Some kvs \<Rightarrow>
          (let (i, a) = dec_field ''docid'' dec_str (i_DocID old) kvs;
               (r, b) = dec_field ''rev'' dec_str (i_Rev old) kvs;
               (u, c) = dec_field ''uploadid'' dec_str (i_UploadID old) kvs
           in (\<lparr>i_DocID = i, i_Rev = r, i_UploadID = u\<rparr>, a \<and> b \<and> c)))"

definition dec_signedParts :: "signedParts \<Rightarrow> json \<Rightarrow> signedParts \<times> bool" where
  "dec_signedParts old j =
     (case struct_entries j of
        None \<Rightarrow> (old, False)
      | Some kvs \<Rightarrow> dec_field ''authrequests'' (dec_map (dec_list dec_str []) []) old kvs)"

section \<open>Request bodies\<close>

definition UnixMicro :: "int \<Rightarrow> int64" where
  "UnixMicro ns = i64 (ns div 1000)"

definition uploadStartBody ::
    "string \<Rightarrow> string \<Rightarrow> string \<Rightarrow> string \<Rightarrow> int64 \<Rightarrow> int \<Rightarrow> (string \<times> json) list" where
  "uploadStartBody parentID name existingID existingRev sz modTime =
     [(''client_mtime'', JNum (FormatInt (UnixMicro modTime))), (''length'', JNum (FormatInt sz))]
     @ (if existingID \<noteq> [] then
          (''docid'', JStr existingID)
          # (if existingRev \<noteq> [] then [(''editedrev'', JStr existingRev)] else [])
        else
          [(''docid'', JStr parentID), (''name'', JStr name), (''ondup'', JNum ''1'')])"

definition uploadEndBody :: "string \<Rightarrow> string \<Rightarrow> string \<Rightarrow> (string \<times> json) list" where
  "uploadEndBody docid rv existingRev =
     [(''docid'', JStr docid), (''rev'', JStr rv), (''csflevel'', JNum ''0'')]
     @ (if existingRev \<noteq> [] then [(''editedrev'', JStr existingRev)] else [])"

definition partInfo_json :: "partInfo \<Rightarrow> json" where
  "partInfo_json ps =
     JObj (map (\<lambda>(k, etag, n). (k, JArr [JStr etag, JNum (FormatInt n)])) ps)"

section \<open>Multipart sessions\<close>

definition signPartsBody :: "multipartInit \<Rightarrow> string \<Rightarrow> json" where
  "signPartsBody init parts =
     JObj [(''docid'', JStr (i_DocID init)), (''rev'', JStr (i_Rev init)),
       (''uploadid'', JStr (i_UploadID init)), (''parts'', JStr parts)]"

definition osuploadpart ::
    "'s env \<Rightarrow> multipartInit \<Rightarrow> string \<Rightarrow> ('s, signedParts) act" where
  "osuploadpart E init parts =
     doJSON E None ''POST'' ''efast/v1/file/osuploadpart'' (Some (signPartsBody init parts))
       dec_signedParts Map.empty"

fun sign_ranges ::
    "'s env \<Rightarrow> multipartInit \<Rightarrow> signedParts \<Rightarrow> string list \<Rightarrow> ('s, signedParts) act" where
  "sign_ranges E init acc [] = ok acc"
| "sign_ranges E init acc (parts # rs) =
     andThen (osuploadpart E init parts) (\<lambda>batch. sign_ranges E init (acc ++ batch) rs)"

definition signMultipartParts ::
    "'s env \<Rightarrow> multipartInit \<Rightarrow> string list \<Rightarrow> ('s, signedParts) act" where
  "signMultipartParts E init ranges = sign_ranges E init Map.empty ranges"

definition dec_refresh :: "string \<Rightarrow> json \<Rightarrow> string \<times> bool" where
  "dec_refresh old j =
     (case struct_entries j of
        None \<Rightarrow> (old, False)
      | Some kvs \<Rightarrow> dec_field ''uploadid'' dec_str old kvs)"

definition refreshMultipartUpload ::
    "'s env \<Rightarrow> multipartInit \<Rightarrow> int64 \<Rightarrow> ('s, multipartInit) act" where
  "refreshMultipartUpload E init sz =
     andThen (doJSON E None ''POST'' ''efast/v1/file/osuploadrefresh''
         (Some (JObj [(''docid'', JStr (i_DocID init)), (''rev'', JStr (i_Rev init)),
            (''length'', JNum (FormatInt sz)), (''multiupload'', JBool True)]))
         dec_refresh [])
       (\<lambda>u. if u = [] then
               throw (ErrNew ''PKU Disk multipart refresh response is missing uploadid'')
             else ok (init\<lparr>i_UploadID := u\<rparr>))"

definition init_complete :: "multipartInit \<Rightarrow> bool" where
  "init_complete i \<longleftrightarrow> i_DocID i \<noteq> [] \<and> i_Rev i \<noteq> [] \<and> i_UploadID i \<noteq> []"

text \<open>Starting a session: \<open>osinitmultiupload\<close> and the check of its answer.\<close>

definition startMultipart :: "'s env \<Rightarrow> (string \<times> json) list \<Rightarrow> ('s, multipartInit) act" where
  "startMultipart E body =
     andThen (doJSON E None ''POST'' ''efast/v1/file/osinitmultiupload'' (Some (JObj body))
         dec_init zero_init)
       (\<lambda>init. if \<not> init_complete init then
                 throw (ErrNew ''PKU Disk multipart init response is incomplete'')
               else ok init)"

text \<open>A request to the object storage; the response's status must be 2xx.\<close>

definition object_request ::
    "'s env \<Rightarrow> signedRequest \<Rightarrow> (string \<times> string) list \<Rightarrow> payload \<Rightarrow> string \<Rightarrow> string list \<Rightarrow>
       ('s, response) act" where
  "object_request E signed hs body what args =
     andThen (check (request_error E (s_method signed) (s_url signed))) (\<lambda>_.
     inspect (perform E
         \<lparr>via = ObjectHTTP, deadline = None, verb = s_method signed, url = s_url signed,
          headers = hs, payload = body\<rparr>) (\<lambda>r. case r of
       Inl e \<Rightarrow> throw (Errorf (what @ '': %w'') args [] [e])
     | Inr resp \<Rightarrow>
         if resp_status resp < 200 \<or> resp_status resp \<ge> 300 then
           throw (Errorf (what @ '': HTTP %d'') (args @ [FormatInt (resp_status resp)]) [] [])
         else ok resp))"

definition completeBody :: "multipartInit \<Rightarrow> partInfo \<Rightarrow> json" where
  "completeBody init ps =
     JObj [(''partinfo'', partInfo_json ps), (''docid'', JStr (i_DocID init)),
       (''rev'', JStr (i_Rev init)), (''uploadid'', JStr (i_UploadID init))]"

definition finishMultipartUpload ::
    "'s env \<Rightarrow> multipartInit \<Rightarrow> string \<Rightarrow> partInfo \<Rightarrow> ('s, fileMetadata) act" where
  "finishMultipartUpload E init existingRev ps =
     andThen (do_api E None ''POST'' ''efast/v1/file/oscompleteupload''
         (Some (completeBody init ps))) (\<lambda>completion.
     andThen (lift (parseCompletionResponse completion)) (\<lambda>(body, req).
     andThen (lift (parseHeaderSignedRequest req)) (\<lambda>signed.
     andThen (object_request E signed (s_headers signed) (RawBody body)
         ''complete object-store multipart upload'' []) (\<lambda>_.
     andThen (do_api E None ''POST'' ''efast/v1/file/osendupload''
         (Some (JObj (uploadEndBody (i_DocID init) (i_Rev init) existingRev)))) (\<lambda>_.
     metadata E (i_DocID init))))))"

section \<open>Whole uploads\<close>

definition executeFormUpload ::
    "'s env \<Rightarrow> signedRequest \<Rightarrow> string \<Rightarrow> int64 \<Rightarrow> string \<Rightarrow> ('s, unit) act" where
  "executeFormUpload E signed name sz src =
     andThen (object_request E signed [(''Content-Type'', ''multipart/form-data'')]
         (FormBody (s_fields signed) name sz (take (nat sz) src))
         ''upload to PKU object storage'' [])
       (\<lambda>_. ok ())"

definition uploadSingle ::
    "'s env \<Rightarrow> string \<Rightarrow> string \<Rightarrow> string \<Rightarrow> string \<Rightarrow> int64 \<Rightarrow> int \<Rightarrow> string \<Rightarrow>
       ('s, fileMetadata) act" where
  "uploadSingle E parentID name existingID existingRev sz modTime src =
     andThen (doJSON E None ''POST'' ''efast/v1/file/osbeginupload''
         (Some (JObj (uploadStartBody parentID name existingID existingRev sz modTime
            @ [(''reqmethod'', JStr ''POST'')])))
         dec_begin zero_begin) (\<lambda>begun.
     if b_DocID begun = [] \<or> b_Rev begun = [] then
       throw (ErrNew ''PKU Disk upload response is missing docid/rev'')
     else
       andThen (lift (parseFormSignedRequest (b_AuthRequest begun))) (\<lambda>signed.
       andThen (executeFormUpload E signed name sz src) (\<lambda>_.
       andThen (do_api E None ''POST'' ''efast/v1/file/osendupload''
           (Some (JObj (uploadEndBody (b_DocID begun) (b_Rev begun) existingRev)))) (\<lambda>_.
       metadata E (b_DocID begun)))))"

text \<open>
  The loop of \<open>uploadMultipart\<close> over the last \<open>n\<close> parts, from part \<open>part\<close> on: the bytes
  that the transport read are gone from the source, and the result is the part information and
  the number of bytes that remain.
\<close>

definition part_auth :: "signedParts \<Rightarrow> int64 \<Rightarrow> string list" where
  "part_auth auths part = (case auths (FormatInt part) of Some a \<Rightarrow> a | None \<Rightarrow> [])"

fun upload_parts ::
    "'s env \<Rightarrow> signedParts \<Rightarrow> int64 \<Rightarrow> int64 \<Rightarrow> nat \<Rightarrow> int64 \<Rightarrow> string \<Rightarrow> partInfo \<Rightarrow>
       ('s, partInfo \<times> int64) act" where
  "upload_parts E auths partSize part 0 remaining src ps = ok (ps, remaining)"
| "upload_parts E auths partSize part (Suc n) remaining src ps =
     (case parseHeaderSignedRequest (part_auth auths part) of
        Inl e \<Rightarrow> throw (Errorf ''multipart part %d: %w'' [FormatInt part] [] [e])
      | Inr signed \<Rightarrow>
          (let chunk = min partSize remaining in
           andThen (object_request E signed (s_headers signed)
               (StreamBody chunk (take (nat chunk) src))
               ''upload multipart part %d'' [FormatInt part]) (\<lambda>resp.
           let etag = header_get ''ETag'' (resp_headers resp) in
           if etag = [] then
             throw (Errorf ''upload multipart part %d: missing ETag'' [FormatInt part] [] [])
           else
             upload_parts E auths partSize (part + 1) n (i64 (remaining - chunk))
               (drop (nat (body_read resp)) src)
               (AList.update (FormatInt part) (etag, chunk) ps))))"

definition uploadMultipart ::
    "'s env \<Rightarrow> string \<Rightarrow> string \<Rightarrow> string \<Rightarrow> string \<Rightarrow> int64 \<Rightarrow> int \<Rightarrow> string \<Rightarrow>
       ('s, fileMetadata) act" where
  "uploadMultipart E parentID name existingID existingRev sz modTime src =
     andThen (multipartPartSize E sz) (\<lambda>partSize.
     let count = partCount sz partSize in
     andThen (startMultipart E
         (uploadStartBody parentID name existingID existingRev sz modTime)) (\<lambda>init.
     andThen (osuploadpart E init (''1-'' @ FormatInt count)) (\<lambda>auths.
     andThen (upload_parts E auths partSize 1 (nat count) sz src []) (\<lambda>(ps, remaining).
     if remaining \<noteq> 0 then
       throw (Errorf ''multipart upload consumed unexpected byte count: %d remain''
         [FormatInt remaining] [] [])
     else finishMultipartUpload E init existingRev ps))))"

definition upload ::
    "'s env \<Rightarrow> string \<Rightarrow> string \<Rightarrow> string \<Rightarrow> string \<Rightarrow> int64 \<Rightarrow> int \<Rightarrow> string \<Rightarrow>
       ('s, fileMetadata) act" where
  "upload E parentID name existingID existingRev sz modTime src =
     (if sz < 0 then throw (ErrNew ''PKU Disk backend requires a known upload size'')
      else if sz \<le> defaultMultipartPartSize then
        uploadSingle E parentID name existingID existingRev sz modTime src
      else uploadMultipart E parentID name existingID existingRev sz modTime src)"


section \<open>What an object-storage request sends\<close>

definition object_call ::
    "signedRequest \<Rightarrow> (string \<times> string) list \<Rightarrow> payload \<Rightarrow> request" where
  "object_call signed hs body =
     \<lparr>via = ObjectHTTP, deadline = None, verb = s_method signed, url = s_url signed,
      headers = hs, payload = body\<rparr>"

lemma perform_runs:
  "runs (perform E r) (\<lambda>l x. l = [r] \<and> (\<exists>s. x = fst (http_do E r s)))"
  by (rule runsI) (auto simp: perform_def split: prod.split, metis fst_conv)

lemma object_request_runs:
  "runs (object_request E signed hs body what args)
     (\<lambda>l x. (l = [] \<or> l = [object_call signed hs body])
        \<and> (\<forall>resp. x = Inr resp \<longrightarrow> l = [object_call signed hs body]
              \<and> (\<exists>s. fst (http_do E (object_call signed hs body) s) = Inr resp)))"
  unfolding object_request_def object_call_def [symmetric]
  by (rule runs_andThen [where P = "\<lambda>l x. l = []"], rule runs_check, simp split: option.split,
      rule runs_inspect, rule perform_runs)
    (force intro!: runs_ok runs_throw split: sum.split)

lemma object_request_sends [runs_rules]:
  "P (object_call signed hs body) \<Longrightarrow> sends P (object_request E signed hs body what args)"
  unfolding sends_def by (rule runs_mono [OF object_request_runs]) auto

lemma object_call_sel [simp]:
  "via (object_call signed hs body) = ObjectHTTP" "payload (object_call signed hs body) = body"
  by (simp_all add: object_call_def)

lemma api_call_object [simp]: "\<not> api_call E ep (object_call signed hs body)"
  by (simp add: api_call_def)

section \<open>The parts of a sequential upload\<close>

lemma FormatInt_fresh:
  "fst ` set ps \<subseteq> FormatInt ` {1..<part} \<Longrightarrow> 1 \<le> part \<Longrightarrow> FormatInt part \<notin> fst ` set ps"
  by (force simp: FormatInt_inject)

lemma update_fresh: "k \<notin> fst ` set ps \<Longrightarrow> AList.update k v ps = ps @ [(k, v)]"
  by (induction ps) auto

definition part_keys :: "int64 \<Rightarrow> nat \<Rightarrow> string list" where
  "part_keys part n = map (\<lambda>i. FormatInt (part + int i)) [0..<n]"

lemma part_keys_Suc: "part_keys part (Suc n) = FormatInt part # part_keys (part + 1) n"
  by (simp add: part_keys_def upt_conv_Cons map_Suc_upt [symmetric] del: upt_Suc)
    (simp add: add.assoc)

lemma part_keys_0 [simp]: "part_keys part 0 = []" and length_part_keys [simp]: "length (part_keys part n) = n"
  by (simp_all add: part_keys_def)

text \<open>The bytes of the streams of a list of requests, and a transport that reads them whole.\<close>

definition streamed :: "request list \<Rightarrow> string" where
  "streamed rs = concat (map (\<lambda>r. case payload r of StreamBody n d \<Rightarrow> d | _ \<Rightarrow> []) rs)"

lemma streamed_simps [simp]:
  "streamed [] = []" "streamed (l @ l') = streamed l @ streamed l'"
  "streamed (object_call signed hs (StreamBody n d) # l) = d @ streamed l"
  by (simp_all add: streamed_def)

definition reads_streams :: "'s env \<Rightarrow> bool" where
  "reads_streams E \<longleftrightarrow>
     (\<forall>r n d s resp. payload r = StreamBody n d \<longrightarrow> fst (http_do E r s) = Inr resp \<longrightarrow>
        body_read resp = int (length d))"

text \<open>What is known of the result of the part loop, with \<open>l\<close> the requests it sent.\<close>

definition parts_done ::
    "'s env \<Rightarrow> int64 \<Rightarrow> int64 \<Rightarrow> nat \<Rightarrow> int64 \<Rightarrow> string \<Rightarrow> partInfo \<Rightarrow> request list \<Rightarrow>
       partInfo \<times> int64 \<Rightarrow> bool" where
  "parts_done E p part n remaining src ps l res \<longleftrightarrow>
     (\<exists>items. fst res = ps @ zip (part_keys part n) items \<and> length items = n
        \<and> (\<forall>(e, c) \<in> set items. e \<noteq> [] \<and> 0 \<le> c \<and> c \<le> p)
        \<and> snd res = remaining - sum_list (map snd items) \<and> 0 \<le> snd res
        \<and> (reads_streams E \<longrightarrow> remaining = int (length src) \<longrightarrow>
             src = streamed l @ drop (length src - nat (snd res)) src))"

lemma parts_done_Suc:
  assumes rest: "parts_done E p (part + 1) n (remaining - c) (drop (nat (body_read resp)) src)
      (ps @ [(FormatInt part, etag, c)]) l res"
    and etag: "etag \<noteq> []" and c: "0 \<le> c" "c \<le> p" "c \<le> remaining"
    and resp: "fst (http_do E (object_call signed hs (StreamBody c (take (nat c) src))) s) = Inr resp"
  shows "parts_done E p part (Suc n) remaining src ps
    ([object_call signed hs (StreamBody c (take (nat c) src))] @ l) res"
proof -
  obtain items where
    items: "fst res = (ps @ [(FormatInt part, etag, c)]) @ zip (part_keys (part + 1) n) items"
      "length items = n" "\<forall>(e, c) \<in> set items. e \<noteq> [] \<and> 0 \<le> c \<and> c \<le> p"
      "snd res = remaining - c - sum_list (map snd items)" "0 \<le> snd res"
    and bytes: "reads_streams E \<Longrightarrow> remaining - c = int (length (drop (nat (body_read resp)) src)) \<Longrightarrow>
      drop (nat (body_read resp)) src =
        streamed l @ drop (length (drop (nat (body_read resp)) src) - nat (snd res))
          (drop (nat (body_read resp)) src)"
    using rest by (auto simp: parts_done_def)
  have "src = take (nat c) src @ streamed l @ drop (length src - nat (snd res)) src"
    if reads: "reads_streams E" and len: "remaining = int (length src)"
  proof -
    have "body_read resp = int (length (take (nat c) src))"
      using reads resp unfolding reads_streams_def
      by (elim allE impE) (rule object_call_sel, assumption+)
    then have read: "nat (body_read resp) = nat c"
      using c len by simp
    have "sum_list (map snd items) \<ge> 0"
      using items(3) by (intro sum_list_nonneg) auto
    then have le: "nat (snd res) \<le> length src - nat c"
      using items(4) c len by linarith
    then have d: "drop (length (drop (nat c) src) - nat (snd res)) (drop (nat c) src)
        = drop (length src - nat (snd res)) src"
      using c len by simp
    have "drop (nat c) src = streamed l @ drop (length src - nat (snd res)) src"
      using bytes [OF reads] c len unfolding read d by simp
    then show ?thesis by (metis append_take_drop_id)
  qed
  then show ?thesis
    using items etag c
    by (auto simp: parts_done_def part_keys_Suc intro!: exI [of _ "(etag, c) # items"])
qed

lemma upload_parts_runs:
  "0 < p \<Longrightarrow> 1 \<le> part \<Longrightarrow> 0 \<le> remaining \<Longrightarrow> in_i64 remaining \<Longrightarrow>
     fst ` set ps \<subseteq> FormatInt ` {1..<part} \<Longrightarrow>
     runs (upload_parts E auths p part n remaining src ps)
       (\<lambda>l r. \<forall>res. r = Inr res \<longrightarrow> parts_done E p part n remaining src ps l res)"
proof (induction n arbitrary: part remaining src ps)
  case 0
  show ?case
    unfolding upload_parts.simps
    by (rule runs_ok) (use "0.prems" in \<open>auto simp: parts_done_def\<close>)
next
  case (Suc n)
  define c where "c = min p remaining"
  have c: "0 \<le> c" "c \<le> p" "c \<le> remaining"
    using Suc.prems by (auto simp: c_def)
  then have fit: "i64 (remaining - c) = remaining - c"
    using Suc.prems by (intro i64_id) (simp add: in_i64_def)
  have keys: "fst ` set (ps @ [(FormatInt part, etag, c)]) \<subseteq> FormatInt ` {1..<part + 1}" for etag
    using Suc.prems(2,5) by auto
  have upd: "AList.update (FormatInt part) v ps = ps @ [(FormatInt part, v)]" for v
    using Suc.prems by (intro update_fresh FormatInt_fresh)
  show ?case
  proof (cases "parseHeaderSignedRequest (part_auth auths part)")
    case (Inl e)
    show ?thesis
      unfolding upload_parts.simps Inl sum.case by (rule runs_throw) simp
  next
    case (Inr signed)
    let ?call = "object_call signed (s_headers signed) (StreamBody c (take (nat c) src))"
    have rest: "runs (upload_parts E auths p (part + 1) n (remaining - c) (drop (nat (body_read resp)) src)
          (ps @ [(FormatInt part, etag, c)]))
        (\<lambda>l r. \<forall>res. r = Inr res \<longrightarrow>
           parts_done E p part (Suc n) remaining src ps ([?call] @ l) res)"
      if "etag \<noteq> []" and "fst (http_do E ?call s) = Inr resp" for etag resp s
    proof (rule runs_mono, rule Suc.IH)
      show "0 < p" "1 \<le> part + 1" "0 \<le> remaining - c" "in_i64 (remaining - c)"
        using Suc.prems c by (auto simp: in_i64_def)
      show "fst ` set (ps @ [(FormatInt part, etag, c)]) \<subseteq> FormatInt ` {1..<part + 1}"
        by (rule keys)
    qed (elim all_forward imp_forward, assumption, erule parts_done_Suc [OF _ that(1) c that(2)])
    show ?thesis
      unfolding upload_parts.simps Inr sum.case Let_def c_def [symmetric] fit upd
      by (rule runs_andThen, rule runs_mono, rule object_request_runs)
        (auto split: sum.splits intro: runs_throw dest: rest [unfolded append_Cons append_Nil]
          simp del: split_paired_All)
  qed
qed

section \<open>What a multipart upload completes\<close>

abbreviation complete_call :: "'s env \<Rightarrow> request \<Rightarrow> bool" where
  "complete_call E \<equiv> api_call E ''efast/v1/file/oscompleteupload''"

definition streams :: "request \<Rightarrow> bool" where
  "streams r \<longleftrightarrow> (case payload r of StreamBody _ _ \<Rightarrow> True | _ \<Rightarrow> False)"

definition quiet :: "'s env \<Rightarrow> request \<Rightarrow> bool" where
  "quiet E r \<longleftrightarrow> \<not> complete_call E r \<and> \<not> streams r"

lemma not_streams_api [simp]: "\<not> streams (api_request E cl dl method ep body tok)"
  by (simp add: streams_def split: option.split)

lemma streams_object [simp]:
  "streams (object_call signed hs (StreamBody n d))" "\<not> streams (object_call signed hs (RawBody b))"
  "\<not> streams (object_call signed hs (FormBody fs nm n d))"
  by (simp_all add: streams_def)

lemma streamed_none: "list_all (\<lambda>r. \<not> streams r) l \<Longrightarrow> streamed l = []"
  by (induction l) (auto simp: streamed_def streams_def split: payload.splits)

lemma choosePartSize_pos: "choosePartSize opts s = Inr p \<Longrightarrow> 0 < p"
  by (auto simp: choosePartSize_def Let_def split: if_splits)

lemma multipartPartSize_sends:
  "sends (api_call E ''efast/v1/file/osoption'') (multipartPartSize E s)"
  unfolding multipartPartSize_def by (intro runs_rules) simp

lemma quiet_api: "api_call E ep r \<Longrightarrow> \<not> streams r \<Longrightarrow>
    TrimLeft CHR ''/'' ep \<noteq> ''efast/v1/file/oscompleteupload'' \<Longrightarrow> quiet E r"
  by (auto simp: quiet_def api_call_def)

lemma multipartPartSize_runs:
  "runs (multipartPartSize E s) (\<lambda>l r. list_all (quiet E) l \<and> (\<forall>p. r = Inr p \<longrightarrow> 0 < p))"
  unfolding multipartPartSize_def
  by (rule runs_andThen [where P = "\<lambda>l x. list_all (quiet E) l"],
      rule runs_mono [of _ "\<lambda>l r. list_all (quiet E) l"],
      unfold sends_def [symmetric], intro runs_rules, simp add: quiet_def)
    (auto intro: runs_lift choosePartSize_pos split: sum.splits)

lemma session_quiet:
  "sends (quiet E) (startMultipart E body)" "sends (quiet E) (osuploadpart E init parts)"
  "sends (quiet E) (refreshMultipartUpload E init s)"
  unfolding startMultipart_def osuploadpart_def refreshMultipartUpload_def
  by (intro runs_rules; simp add: quiet_def)+

lemma upload_parts_sends:
  "sends (\<lambda>r. via r = ObjectHTTP) (upload_parts E auths p part n remaining src ps)"
proof (induction n arbitrary: part remaining src ps)
  case (Suc n)
  show ?case
    unfolding upload_parts.simps Let_def by (intro runs_rules Suc.IH) simp
qed simp

lemma finish_sends:
  "sends (\<lambda>r. \<not> streams r \<and> (complete_call E r \<longrightarrow> payload r = JsonBody (completeBody init ps)))
     (finishMultipartUpload E init existingRev ps)"
  unfolding finishMultipartUpload_def metadata_def
  by (intro runs_rules; simp)

text \<open>The requests of a whole multipart upload: at most one completion, of parts that fit.\<close>

definition completes ::
    "'s env \<Rightarrow> int64 \<Rightarrow> string \<Rightarrow> request list \<Rightarrow> bool" where
  "completes E sz src l \<longleftrightarrow>
     (\<forall>r \<in> set l. complete_call E r \<longrightarrow>
        (\<exists>init items. payload r = JsonBody (completeBody init (zip (part_keys 1 (length items)) items))
           \<and> (\<forall>(e, c) \<in> set items. e \<noteq> [] \<and> 0 \<le> c) \<and> sum_list (map snd items) = sz)
        \<and> (reads_streams E \<longrightarrow> sz = int (length src) \<longrightarrow> streamed l = src))"

lemma completes_quiet: "list_all (quiet E) l \<Longrightarrow> completes E sz src l"
  by (auto simp: completes_def list_all_iff quiet_def)

lemma completes_prefix:
  assumes "list_all (quiet E) l"
  shows "completes E sz src (l @ l') \<longleftrightarrow> completes E sz src l'"
proof -
  have "streamed l = []" and "\<And>r. r \<in> set l \<Longrightarrow> \<not> complete_call E r"
    using assms by (auto intro!: streamed_none simp: list_all_iff quiet_def)
  then show ?thesis by (auto simp: completes_def)
qed

lemma completes_after_parts:
  assumes parts: "parts_done E p 1 n sz src [] l (ps, 0)"
    and obj: "list_all (\<lambda>r. via r = ObjectHTTP) l"
    and fin: "list_all (\<lambda>r. \<not> streams r \<and> (complete_call E r \<longrightarrow>
      payload r = JsonBody (completeBody init ps))) l'"
  shows "completes E sz src (l @ l')"
proof -
  obtain items where ps: "ps = zip (part_keys 1 n) items" "length items = n"
    and items: "\<forall>(e, c) \<in> set items. e \<noteq> [] \<and> 0 \<le> c" "sum_list (map snd items) = sz"
    and src: "reads_streams E \<Longrightarrow> sz = int (length src) \<Longrightarrow> src = streamed l"
    using parts by (auto simp: parts_done_def)
  have "streamed l' = []"
    using fin by (intro streamed_none) (auto simp: list_all_iff)
  moreover have "payload r = JsonBody (completeBody init (zip (part_keys 1 (length items)) items))"
    if "r \<in> set (l @ l')" and "complete_call E r" for r
    using that obj fin ps by (auto simp: list_all_iff api_call_def)
  ultimately show ?thesis
    using items src unfolding completes_def by fastforce
qed

lemma runs_sends: "sends P m \<Longrightarrow> runs m (\<lambda>l r. list_all P l)"
  by (simp add: sends_def)

lemma runs_conj:
  assumes "runs m P" and "runs m Q"
  shows "runs m (\<lambda>l r. P l r \<and> Q l r)"
proof (rule runsI)
  fix w
  obtain l where "sent (snd (m w)) = sent w @ l" "P l (fst (m w))" by (rule runsE [OF assms(1)])
  moreover obtain l' where "sent (snd (m w)) = sent w @ l'" "Q l' (fst (m w))"
    by (rule runsE [OF assms(2)])
  ultimately show "\<exists>l. sent (snd (m w)) = sent w @ l \<and> P l (fst (m w)) \<and> Q l (fst (m w))"
    by auto
qed

lemma completes_after_quiet:
  assumes m: "runs m (\<lambda>l r. list_all (quiet E) l \<and> (\<forall>x. r = Inr x \<longrightarrow> V x))"
    and f: "\<And>x. V x \<Longrightarrow> runs (f x) (\<lambda>l r. completes E sz src l)"
  shows "runs (andThen m f) (\<lambda>l r. completes E sz src l)"
proof (rule runs_andThen [where P = "\<lambda>l x. list_all (quiet E) l \<and> V x"])
  show "runs m (\<lambda>l r. case r of Inl e \<Rightarrow> completes E sz src l
      | Inr x \<Rightarrow> list_all (quiet E) l \<and> V x)"
    using m by (rule runs_mono) (auto simp: completes_quiet split: sum.split)
  show "runs (f x) (\<lambda>l' r. completes E sz src (l @ l'))" if "list_all (quiet E) l \<and> V x" for l x
    using f [of x] that by (simp add: completes_prefix)
qed

lemma uploadMultipart_runs:
  assumes "0 \<le> sz" and "in_i64 sz"
  shows "runs (uploadMultipart E parentID name existingID existingRev sz modTime src)
    (\<lambda>l r. completes E sz src l)"
proof -
  have tail: "runs (andThen (upload_parts E auths p 1 n sz src []) (\<lambda>(ps, remaining).
      if remaining \<noteq> 0 then throw (err remaining)
      else finishMultipartUpload E init existingRev ps)) (\<lambda>l r. completes E sz src l)"
    if p: "0 < p" for auths p n err init
  proof (rule runs_andThen [where P = "\<lambda>l x. list_all (\<lambda>r. via r = ObjectHTTP) l
      \<and> parts_done E p 1 n sz src [] l x"], rule runs_mono,
      rule runs_conj [OF runs_sends [OF upload_parts_sends] upload_parts_runs [OF p]])
    fix l r
    assume "list_all (\<lambda>r. via r = ObjectHTTP) l
      \<and> (\<forall>res. r = Inr res \<longrightarrow> parts_done E p 1 n sz src [] l res)"
    then show "case r of Inl e \<Rightarrow> completes E sz src l
      | Inr x \<Rightarrow> list_all (\<lambda>r. via r = ObjectHTTP) l \<and> parts_done E p 1 n sz src [] l x"
      by (auto simp: completes_def list_all_iff api_call_def split: sum.split)
  next
    fix l x
    assume l: "list_all (\<lambda>r. via r = ObjectHTTP) l \<and> parts_done E p 1 n sz src [] l x"
    obtain ps remaining where x: "x = (ps, remaining)" by (cases x)
    have "completes E sz src l"
      using l by (auto simp: completes_def list_all_iff api_call_def)
    with l x show "runs (case x of (ps, remaining) \<Rightarrow>
        if remaining \<noteq> 0 then throw (err remaining) else finishMultipartUpload E init existingRev ps)
      (\<lambda>l' r. completes E sz src (l @ l'))"
      using completes_after_parts
      by (auto intro!: runs_throw runs_mono [OF runs_sends [OF finish_sends]])
  qed (use assms in auto)
  note quiet = session_quiet [THEN runs_sends, THEN runs_mono]
  show ?thesis
    unfolding uploadMultipart_def Let_def
    by (rule completes_after_quiet, rule multipartPartSize_runs,
        rule completes_after_quiet [where V = "\<lambda>_. True"], rule quiet(1), simp,
        rule completes_after_quiet [where V = "\<lambda>_. True"], rule quiet(2), simp, rule tail)
qed

text \<open>
  C2. A multipart upload completes exactly the file. Whenever \<open>uploadMultipart\<close> asks the
  service to complete a session, the part information it sends names the parts 1, 2, ... in
  order, each with a non-empty ETag, and the lengths of the parts add up to the size of the
  file, also when a computation of the part plan wraps around; and when the transport reads the
  streams it is given to the end, the bytes sent in the parts are the bytes of the source.
\<close>

theorem uploadMultipart_completion:
  assumes "0 \<le> sz" and "in_i64 sz"
    and "r \<in> set (requests (uploadMultipart E parentID name existingID existingRev sz modTime src) w)"
    and "api_call E ''efast/v1/file/oscompleteupload'' r"
  shows "(\<exists>init items. payload r = JsonBody (completeBody init (zip (part_keys 1 (length items)) items))
      \<and> (\<forall>(e, c) \<in> set items. e \<noteq> [] \<and> 0 \<le> c) \<and> sum_list (map snd items) = sz)
    \<and> (reads_streams E \<longrightarrow> sz = int (length src) \<longrightarrow>
        streamed (requests (uploadMultipart E parentID name existingID existingRev sz modTime src) w)
          = src)"
  using runs_requests [OF uploadMultipart_runs [OF assms(1,2)]] assms(3,4)
  unfolding completes_def by blast

text \<open>A run of two parts in the sample setting.\<close>

definition options_body :: string where
  "options_body = ''{\"partminsize\":1,\"partmaxsize\":2,\"partmaxnum\":3}''"

definition init_body :: string where
  "init_body = ''{\"docid\":\"D\",\"rev\":\"R\",\"uploadid\":\"U\"}''"

definition parts_body :: string where
  "parts_body = ''{\"authrequests\":{\"1\":[\"P\",\"u\"],\"2\":[\"P\",\"v\"]}}''"

definition completion_body :: string where
  "completion_body = ''--x c --x {\"authrequest\":[\"P\",\"w\"]}''"

lemma sample_bodies:
  "accepted options_body" "accepted init_body" "accepted parts_body" "accepted completion_body"
  "decode_response ''efast/v1/file/osoption'' dec_options zero_options options_body =
     Inr \<lparr>PartMinSize = 1, PartMaxSize = 2, PartMaxNum = 3\<rparr>"
  "decode_response ''efast/v1/file/osinitmultiupload'' dec_init zero_init init_body =
     Inr \<lparr>i_DocID = ''D'', i_Rev = ''R'', i_UploadID = ''U''\<rparr>"
  "parseCompletionResponse completion_body = Inr (''c'', [''P'', ''w''])"
  by code_simp+

definition sample_auths :: signedParts where
  "sample_auths = [''1'' \<mapsto> [''P'', ''u''], ''2'' \<mapsto> [''P'', ''v'']]"

lemma sample_parts:
  "decode_response ''efast/v1/file/osuploadpart'' dec_signedParts Map.empty parts_body =
     Inr sample_auths"
proof -
  have "TrimSpace parts_body \<noteq> []" and "json_parse parts_body =
      Some (JObj [(''authrequests'', JObj [(''1'', JArr [JStr ''P'', JStr ''u'']),
        (''2'', JArr [JStr ''P'', JStr ''v''])])])"
    by code_simp+
  then show ?thesis
    by (simp add: decode_response_def dec_signedParts_def struct_entries_def dec_map_def
        dec_list_def dec_str_def sample_auths_def EqualFold_def fold_case.simps)
qed

lemma sample_signed:
  "parseHeaderSignedRequest (part_auth sample_auths 1) =
     Inr \<lparr>s_method = ''P'', s_url = ''u'', s_headers = [], s_fields = []\<rparr>"
  "parseHeaderSignedRequest (part_auth sample_auths 2) =
     Inr \<lparr>s_method = ''P'', s_url = ''v'', s_headers = [], s_fields = []\<rparr>"
  "parseHeaderSignedRequest [''P'', ''w''] =
     Inr \<lparr>s_method = ''P'', s_url = ''w'', s_headers = [], s_fields = []\<rparr>"
  by code_simp+

lemma sample_etag: "header_get ''ETag'' [(''Etag'', e)] = e"
proof -
  have "CanonicalHeaderKey ''ETag'' = ''Etag''" by code_simp
  then show ?thesis by (simp add: header_get_def)
qed

abbreviation sample_init :: multipartInit where
  "sample_init \<equiv> \<lparr>i_DocID = ''D'', i_Rev = ''R'', i_UploadID = ''U''\<rparr>"

lemma sample_plan:
  assumes "ext w = answer 200 options_body # s"
  obtains w' where "multipartPartSize sample_env 3 w = (Inr 2, w')" and "ext w' = s"
  using assms
  by (auto simp: multipartPartSize_def sample_steps sample_bodies choosePartSize_def
      defaultMultipartPartSize_def i64_def cong: run_congs)

lemma sample_session:
  assumes "ext w = answer 200 init_body # answer 200 parts_body # s"
  obtains w' w'' where "startMultipart sample_env b w = (Inr sample_init, w')"
    and "osuploadpart sample_env sample_init ps w' = (Inr sample_auths, w'')" and "ext w'' = s"
  using assms
  by (auto simp: startMultipart_def osuploadpart_def sample_steps sample_bodies sample_parts
      init_complete_def cong: run_congs)

lemma sample_chunks:
  assumes "ext w = stored ''a'' # stored ''b'' # s"
  obtains ps w' where "upload_parts sample_env sample_auths 2 1 2 3 ''abc'' [] w = (Inr (ps, 0), w')"
    and "ext w' = s"
  using assms
  by (auto simp: numeral_2_eq_2 object_request_def perform_def script_do_def stored_def run_simps
      sample_signed sample_etag i64_def Let_def cong: run_congs)

lemma sample_finish:
  assumes "ext w = answer 200 completion_body # s"
  shows "\<exists>r \<in> set (sent (snd (finishMultipartUpload sample_env init rv ps w))). complete_call sample_env r"
proof -
  let ?q = "api_request sample_env ApiHTTP None ''POST'' ''efast/v1/file/oscompleteupload''
    (Some (completeBody init ps)) ''T''"
  obtain w' where w': "do_api sample_env None ''POST'' ''efast/v1/file/oscompleteupload''
      (Some (completeBody init ps)) w = (Inr completion_body, w')" "?q \<in> set (sent w')"
    using sample_do_api [OF assms sample_bodies(4)] by simp
  have "?q \<in> set (sent (snd (finishMultipartUpload sample_env init rv ps w)))"
    unfolding finishMultipartUpload_def metadata_def
    by (rule andThen_kept, rule w'(1), rule w'(2)) (intro runs_rules TrueI)
  then show ?thesis by (rule bexI [rotated]) simp
qed

definition sample_multipart :: "request list" where
  "sample_multipart = requests (uploadMultipart sample_env ''P'' ''n'' [] [] 3 0 ''abc'')
     (start_world [answer 200 options_body, answer 200 init_body, answer 200 parts_body,
        stored ''a'', stored ''b'', answer 200 completion_body])"

lemma sample_multipart:
  obtains r where "r \<in> set sample_multipart" and "complete_call sample_env r"
proof -
  let ?w = "start_world [answer 200 options_body, answer 200 init_body, answer 200 parts_body,
        stored ''a'', stored ''b'', answer 200 completion_body]"
  obtain w1 where w1: "multipartPartSize sample_env 3 ?w = (Inr 2, w1)"
    and e1: "ext w1 = [answer 200 init_body, answer 200 parts_body, stored ''a'', stored ''b'',
      answer 200 completion_body]"
    by (rule sample_plan [of ?w]) (simp_all add: start_world_def)
  obtain w2 w3 where w2: "startMultipart sample_env (uploadStartBody ''P'' ''n'' [] [] 3 0) w1 = (Inr sample_init, w2)"
    and w3: "osuploadpart sample_env sample_init (''1-'' @ FormatInt 2) w2 = (Inr sample_auths, w3)"
    and e3: "ext w3 = [stored ''a'', stored ''b'', answer 200 completion_body]"
    using e1 by (rule sample_session)
  obtain ps w4 where w4: "upload_parts sample_env sample_auths 2 1 2 3 ''abc'' [] w3 = (Inr (ps, 0), w4)"
    and e4: "ext w4 = [answer 200 completion_body]"
    using e3 by (rule sample_chunks)
  have "partCount 3 2 = 2" by (simp add: partCount_def quot_def i64_def)
  then have "sample_multipart = sent (snd (finishMultipartUpload sample_env sample_init [] ps w4))"
    using w1 w2 w3 w4 unfolding sample_multipart_def uploadMultipart_def requests_def Let_def
    by (simp add: andThen_Inr) (simp add: start_world_def)
  with sample_finish [OF e4] that show ?thesis by metis
qed

lemma sample_reads: "reads_streams sample_env"
  by (auto simp: reads_streams_def script_do_def split: list.splits sum.splits)

theorem uploadMultipart_completion_witness:
  "\<exists>r \<in> set sample_multipart. (\<exists>init items.
       payload r = JsonBody (completeBody init (zip (part_keys 1 (length items)) items))
       \<and> (\<forall>(e, c) \<in> set items. e \<noteq> [] \<and> 0 \<le> c) \<and> sum_list (map snd items) = 3)
     \<and> streamed sample_multipart = ''abc''"
proof -
  obtain r where r: "r \<in> set sample_multipart" "complete_call sample_env r"
    by (rule sample_multipart)
  from uploadMultipart_completion [OF _ _ r(1) [unfolded sample_multipart_def],
      folded sample_multipart_def, OF _ _ r(2)] sample_reads r(1)
  show ?thesis by (simp add: in_i64_def) blast
qed

section \<open>Edits are guarded by the revision\<close>

text \<open>The body that starts or ends an upload, for an edit and for a new file.\<close>

definition guarded_start :: "string \<Rightarrow> string \<Rightarrow> string \<Rightarrow> string \<Rightarrow> payload \<Rightarrow> bool" where
  "guarded_start parentID name existingID existingRev b \<longleftrightarrow>
     (\<exists>kvs. b = JsonBody (JObj kvs) \<and> distinct (map fst kvs) \<and>
        (if existingID \<noteq> [] then
           map_of kvs ''docid'' = Some (JStr existingID)
           \<and> map_of kvs ''editedrev'' = (if existingRev = [] then None else Some (JStr existingRev))
           \<and> map_of kvs ''name'' = None \<and> map_of kvs ''ondup'' = None
         else
           map_of kvs ''docid'' = Some (JStr parentID) \<and> map_of kvs ''name'' = Some (JStr name)
           \<and> map_of kvs ''ondup'' = Some (JNum ''1'') \<and> map_of kvs ''editedrev'' = None))"

definition guarded_end :: "string \<Rightarrow> payload \<Rightarrow> bool" where
  "guarded_end existingRev b \<longleftrightarrow>
     (\<exists>kvs. b = JsonBody (JObj kvs) \<and>
        map_of kvs ''editedrev'' = (if existingRev = [] then None else Some (JStr existingRev)))"

definition guarded :: "'s env \<Rightarrow> string \<Rightarrow> string \<Rightarrow> string \<Rightarrow> string \<Rightarrow> request \<Rightarrow> bool" where
  "guarded E parentID name existingID existingRev r \<longleftrightarrow>
     (api_call E ''efast/v1/file/osbeginupload'' r \<or> api_call E ''efast/v1/file/osinitmultiupload'' r
        \<longrightarrow> guarded_start parentID name existingID existingRev (payload r))
     \<and> (api_call E ''efast/v1/file/osendupload'' r \<longrightarrow> guarded_end existingRev (payload r))"

lemma guarded_bodies:
  "guarded_start p nm i rv (JsonBody (JObj (uploadStartBody p nm i rv s t)))"
  "guarded_start p nm i rv (JsonBody (JObj (uploadStartBody p nm i rv s t @ [(''reqmethod'', j)])))"
  "guarded_end rv (JsonBody (JObj (uploadEndBody d rw rv)))"
  by (simp_all add: guarded_start_def guarded_end_def uploadStartBody_def uploadEndBody_def)

lemma guarded_object [simp]:
  "guarded E p nm i rv (object_call signed hs body)"
  by (simp add: guarded_def)

lemma upload_parts_guarded: "sends (guarded E p nm i rv) (upload_parts E a ps k n rm src acc)"
  by (rule sends_mono [OF upload_parts_sends]) (simp add: guarded_def api_call_def)

lemma finish_guarded: "sends (guarded E p nm i rv) (finishMultipartUpload E init rv ps)"
  unfolding finishMultipartUpload_def metadata_def
  by (intro runs_rules; simp add: guarded_def guarded_bodies)

lemma upload_guarded:
  "sends (guarded E parentID name existingID existingRev)
     (upload E parentID name existingID existingRev sz modTime src)"
  unfolding upload_def uploadSingle_def uploadMultipart_def executeFormUpload_def metadata_def
    multipartPartSize_def startMultipart_def osuploadpart_def Let_def
  by (intro runs_rules finish_guarded upload_parts_guarded; simp add: guarded_def guarded_bodies)

text \<open>
  C3. No upload overwrites silently. Every request of \<open>upload\<close> that begins an upload of an
  existing file names that file by its ID, carries the revision it is based on (when there is
  one) and neither a name nor a duplicate policy; every request that begins a new file carries
  the parent, the name and the policy that refuses duplicates, and no revision; and every
  request that publishes an upload carries the same base revision.
\<close>

theorem upload_revision_guard:
  assumes "r \<in> set (requests (upload E parentID name existingID existingRev sz modTime src) w)"
  shows "guarded E parentID name existingID existingRev r"
  using upload_guarded assms by (rule sends_requests)

lemma refused_doJSON:
  assumes "ext w = []"
  shows "doJSON sample_env dl method ep jb dec zero w =
    (Inl (Errorf ''PKU Disk request failed: %w'' [] [] [Foreign ''connection refused'']),
     w\<lparr>sent := sent w @ [api_request sample_env ApiHTTP dl method ep jb ''T'']\<rparr>)"
  using assms
  by (cases w) (simp add: doJSON_def do_api_def doWithClient_unroll exchange_def script_do_def
      get_token_def perform_def run_simps cong: run_congs)

theorem upload_revision_guard_witness:
  "\<exists>r. requests (upload sample_env ''P'' ''n'' ''D'' ''R'' 3 0 ''abc'') (start_world []) = [r]
     \<and> api_call sample_env ''efast/v1/file/osbeginupload'' r
     \<and> guarded_start ''P'' ''n'' ''D'' ''R'' (payload r)"
proof -
  let ?b = "JObj (uploadStartBody ''P'' ''n'' ''D'' ''R'' 3 0 @ [(''reqmethod'', JStr ''POST'')])"
  let ?q = "api_request sample_env ApiHTTP None ''POST'' ''efast/v1/file/osbeginupload'' (Some ?b) ''T''"
  have q: "requests (upload sample_env ''P'' ''n'' ''D'' ''R'' 3 0 ''abc'') (start_world []) = [?q]"
    by (simp add: requests_def upload_def uploadSingle_def defaultMultipartPartSize_def
        refused_doJSON start_world_def run_simps cong: run_congs)
  have "guarded sample_env ''P'' ''n'' ''D'' ''R'' ?q"
    by (rule upload_revision_guard, subst q, simp)
  then have "guarded_start ''P'' ''n'' ''D'' ''R'' (payload ?q)"
    by (simp add: guarded_def)
  with q show ?thesis by auto
qed

end
