(* ===== verification/Sync_Preconditions.thy ===== *)
theory Sync_Preconditions
  imports Api_Types
begin

text \<open>
  The preconditions a stateful sync client attaches to an upload (as metadata) or to a download
  (as headers), \<open>pkudisk.go\<close>: their extraction from the options of the call, the errors for
  malformed or conflicting ones, and the check of an upload's precondition against the object
  found at the destination.
\<close>

definition syncExpectedIDMetadataKey :: string where
  "syncExpectedIDMetadataKey = ''pkudisk-sync-expected-id''"

definition syncExpectedRevMetadataKey :: string where
  "syncExpectedRevMetadataKey = ''pkudisk-sync-expected-rev''"

definition syncExpectedAbsentMetadataKey :: string where
  "syncExpectedAbsentMetadataKey = ''pkudisk-sync-expected-absent''"

definition syncExpectedIDDownloadHeader :: string where
  "syncExpectedIDDownloadHeader = ''X-PKUDisk-Sync-Expected-ID''"

definition syncExpectedRevDownloadHeader :: string where
  "syncExpectedRevDownloadHeader = ''X-PKUDisk-Sync-Expected-Rev''"

definition syncPreconditionErrorf :: "string \<Rightarrow> string list \<Rightarrow> goerr list \<Rightarrow> goerr" where
  "syncPreconditionErrorf fmt args shown =
     NoRetry (Errorf (''PKU Disk sync precondition failed: '' @ fmt) args shown [])"

section \<open>Uploads\<close>

record syncUploadPreconditions =
  u_expectedID :: string
  u_expectedRev :: string
  u_expectedAbsent :: bool
  u_set :: bool

definition no_upload_preconditions :: syncUploadPreconditions where
  "no_upload_preconditions =
     \<lparr>u_expectedID = [], u_expectedRev = [], u_expectedAbsent = False, u_set = False\<rparr>"

text \<open>
  One value of a key that must not be empty and must agree with the value seen before, which is
  \<open>None\<close> as long as the key has not been seen.
\<close>

definition agree :: "string \<Rightarrow> string option \<Rightarrow> string \<Rightarrow> goerr + string option" where
  "agree k old value =
     (if value = [] then Inl (syncPreconditionErrorf ''%s must not be empty'' [k] [])
      else if old \<noteq> None \<and> old \<noteq> Some value then
        Inl (syncPreconditionErrorf ''conflicting %s values'' [k] [])
      else Inr (Some value))"

fun bind_error :: "'e + 'a \<Rightarrow> ('a \<Rightarrow> 'e + 'b) \<Rightarrow> 'e + 'b" where
  "bind_error (Inl e) f = Inl e"
| "bind_error (Inr x) f = f x"

text \<open>The variables of the loop: the ID and the revision where set, and \<open>absentSet\<close>.\<close>

definition upload_option ::
    "openOption \<Rightarrow> string option \<times> string option \<times> bool \<Rightarrow>
       goerr + string option \<times> string option \<times> bool" where
  "upload_option opt st =
     (case opt of
        MetadataOption m \<Rightarrow>
          (case st of (i, rv, ab) \<Rightarrow>
           bind_error (case map_of m syncExpectedIDMetadataKey of
               None \<Rightarrow> Inr i | Some v \<Rightarrow> agree syncExpectedIDMetadataKey i v) (\<lambda>i'.
           bind_error (case map_of m syncExpectedRevMetadataKey of
               None \<Rightarrow> Inr rv | Some v \<Rightarrow> agree syncExpectedRevMetadataKey rv v) (\<lambda>rv'.
           case map_of m syncExpectedAbsentMetadataKey of
             None \<Rightarrow> Inr (i', rv', ab)
           | Some v \<Rightarrow>
               if \<not> EqualFold (TrimSpace v) ''true'' then
                 Inl (syncPreconditionErrorf ''%s must be true when supplied''
                   [syncExpectedAbsentMetadataKey] [])
               else Inr (i', rv', True))))
      | _ \<Rightarrow> Inr st)"

fun upload_options ::
    "openOption list \<Rightarrow> string option \<times> string option \<times> bool \<Rightarrow>
       goerr + string option \<times> string option \<times> bool" where
  "upload_options [] st = Inr st"
| "upload_options (opt # opts) st = bind_error (upload_option opt st) (upload_options opts)"

definition the_string :: "string option \<Rightarrow> string" where
  "the_string s = (case s of None \<Rightarrow> [] | Some v \<Rightarrow> v)"

definition extractSyncUploadPreconditions :: "openOption list \<Rightarrow> goerr + syncUploadPreconditions" where
  "extractSyncUploadPreconditions opts =
     bind_error (upload_options opts (None, None, False)) (\<lambda>(i, rv, ab).
       if (i \<noteq> None) \<noteq> (rv \<noteq> None) then
         Inl (syncPreconditionErrorf ''%s and %s must be supplied together''
           [syncExpectedIDMetadataKey, syncExpectedRevMetadataKey] [])
       else if ab \<and> i \<noteq> None then
         Inl (syncPreconditionErrorf ''%s cannot be combined with %s/%s''
           [syncExpectedAbsentMetadataKey, syncExpectedIDMetadataKey, syncExpectedRevMetadataKey] [])
       else Inr \<lparr>u_expectedID = the_string i, u_expectedRev = the_string rv,
                 u_expectedAbsent = ab, u_set = (i \<noteq> None \<or> ab)\<rparr>)"

definition checkObject :: "syncUploadPreconditions \<Rightarrow> string \<Rightarrow> string \<Rightarrow> goerr option" where
  "checkObject p i rv =
     (if \<not> u_set p then None
      else if u_expectedAbsent p then
        (if i \<noteq> [] then
           Some (syncPreconditionErrorf ''remote object appeared: expected absent, got %q'' [i] [])
         else None)
      else if i = [] then
        Some (syncPreconditionErrorf ''remote object disappeared: expected %q'' [u_expectedID p] [])
      else if i \<noteq> u_expectedID p then
        Some (syncPreconditionErrorf ''remote object ID changed: expected %q, got %q''
          [u_expectedID p, i] [])
      else if rv \<noteq> u_expectedRev p then
        Some (syncPreconditionErrorf ''remote revision changed for %q: expected %q, got %q''
          [i, u_expectedRev p, rv] [])
      else None)"

section \<open>Downloads\<close>

record syncDownloadPreconditions =
  d_expectedID :: string
  d_expectedRev :: string
  d_set :: bool

text \<open>The loop, with the forwarded options so far.\<close>

fun download_options ::
    "openOption list \<Rightarrow> string option \<times> string option \<times> openOption list \<Rightarrow>
       goerr + string option \<times> string option \<times> openOption list" where
  "download_options [] st = Inr st"
| "download_options (opt # opts) (i, rv, fw) =
     (case opt of
        HTTPOption k v \<Rightarrow>
          if EqualFold (TrimSpace k) syncExpectedIDDownloadHeader then
            bind_error (agree syncExpectedIDDownloadHeader i (TrimSpace v))
              (\<lambda>i'. download_options opts (i', rv, fw))
          else if EqualFold (TrimSpace k) syncExpectedRevDownloadHeader then
            bind_error (agree syncExpectedRevDownloadHeader rv (TrimSpace v))
              (\<lambda>rv'. download_options opts (i, rv', fw))
          else download_options opts (i, rv, fw @ [opt])
      | _ \<Rightarrow> download_options opts (i, rv, fw @ [opt]))"

definition extractSyncDownloadPreconditions ::
    "openOption list \<Rightarrow> goerr + syncDownloadPreconditions \<times> openOption list" where
  "extractSyncDownloadPreconditions opts =
     bind_error (download_options opts (None, None, [])) (\<lambda>(i, rv, fw).
       if (i \<noteq> None) \<noteq> (rv \<noteq> None) then
         Inl (syncPreconditionErrorf ''%s and %s must be supplied together''
           [syncExpectedIDDownloadHeader, syncExpectedRevDownloadHeader] [])
       else Inr (\<lparr>d_expectedID = the_string i, d_expectedRev = the_string rv,
                  d_set = (i \<noteq> None)\<rparr>, fw))"

section \<open>What the extraction accepts\<close>

text \<open>The values that the options give for a metadata key and for a header, in order.\<close>

definition metadata_values :: "string \<Rightarrow> openOption list \<Rightarrow> string list" where
  "metadata_values k opts =
     concat (map (\<lambda>opt. case opt of
       MetadataOption m \<Rightarrow> (case map_of m k of Some v \<Rightarrow> [v] | None \<Rightarrow> []) | _ \<Rightarrow> []) opts)"

definition header_values :: "string \<Rightarrow> openOption list \<Rightarrow> string list" where
  "header_values h opts =
     concat (map (\<lambda>opt. case opt of
       HTTPOption k v \<Rightarrow> if EqualFold (TrimSpace k) h then [TrimSpace v] else [] | _ \<Rightarrow> []) opts)"

text \<open>All values of a list agree with the value known before; the value known after.\<close>

definition consistent :: "string option \<Rightarrow> string list \<Rightarrow> bool" where
  "consistent old vs \<longleftrightarrow> [] \<notin> set vs \<and> (\<exists>v. set vs \<subseteq> {v} \<and> (old = None \<or> old = Some v))"

definition known :: "string option \<Rightarrow> string list \<Rightarrow> string option" where
  "known old vs = (case vs of [] \<Rightarrow> old | v # _ \<Rightarrow> Some v)"

lemma consistent_Nil [simp]: "consistent old []"
  by (cases old) (auto simp: consistent_def)

lemma known_Nil [simp]: "known old [] = old"
  by (simp add: known_def)

lemma agree_Inr: "agree k old v = Inr x \<longleftrightarrow> v \<noteq> [] \<and> (old = None \<or> old = Some v) \<and> x = Some v"
  by (auto simp: agree_def)

lemma consistent_Cons:
  "consistent old (v # vs) \<longleftrightarrow> v \<noteq> [] \<and> (old = None \<or> old = Some v) \<and> consistent (Some v) vs"
  by (auto simp: consistent_def)

lemma known_Cons: "consistent (Some v) vs \<Longrightarrow> known old (v # vs) = known (Some v) vs"
  by (cases vs) (auto simp: known_def consistent_def)

lemma bind_error_Inr: "bind_error r f = Inr y \<longleftrightarrow> (\<exists>x. r = Inr x \<and> f x = Inr y)"
  by (cases r) auto

lemma metadata_values_Cons:
  "metadata_values k (opt # opts) =
     (case opt of MetadataOption m \<Rightarrow> (case map_of m k of Some v \<Rightarrow> [v] | None \<Rightarrow> []) | _ \<Rightarrow> [])
     @ metadata_values k opts"
  by (simp add: metadata_values_def)

lemma upload_options_Inr:
  "upload_options opts (i, rv, ab) = Inr y \<longleftrightarrow>
     consistent i (metadata_values syncExpectedIDMetadataKey opts)
     \<and> consistent rv (metadata_values syncExpectedRevMetadataKey opts)
     \<and> (\<forall>v \<in> set (metadata_values syncExpectedAbsentMetadataKey opts). EqualFold (TrimSpace v) ''true'')
     \<and> y = (known i (metadata_values syncExpectedIDMetadataKey opts),
            known rv (metadata_values syncExpectedRevMetadataKey opts),
            ab \<or> metadata_values syncExpectedAbsentMetadataKey opts \<noteq> [])"
proof (induction opts arbitrary: i rv ab)
  case Nil
  then show ?case by (auto simp: metadata_values_def)
next
  case (Cons opt opts)
  show ?case
  proof (cases opt)
    case (MetadataOption m)
    show ?thesis
      by (auto simp: MetadataOption metadata_values_Cons upload_option_def bind_error_Inr agree_Inr
          Cons.IH consistent_Cons known_Cons split: option.splits if_splits)
  qed (use Cons.IH in \<open>auto simp: upload_option_def metadata_values_Cons\<close>)
qed

lemma consistent_None: "consistent None vs \<longleftrightarrow> [] \<notin> set vs \<and> (\<exists>v. set vs \<subseteq> {v})"
  by (simp add: consistent_def)

lemma known_None: "known None vs = None \<longleftrightarrow> vs = []"
  by (cases vs) (simp_all add: known_def)

lemma the_string_known: "the_string (known None vs) = (case vs of [] \<Rightarrow> [] | v # _ \<Rightarrow> v)"
  by (cases vs) (simp_all add: known_def the_string_def)

lemma extract_upload_Inr:
  fixes opts :: "openOption list"
  defines "ids \<equiv> metadata_values syncExpectedIDMetadataKey opts"
    and "revs \<equiv> metadata_values syncExpectedRevMetadataKey opts"
    and "abss \<equiv> metadata_values syncExpectedAbsentMetadataKey opts"
  shows "extractSyncUploadPreconditions opts = Inr p \<longleftrightarrow>
    [] \<notin> set ids \<and> (\<exists>v. set ids \<subseteq> {v}) \<and> [] \<notin> set revs \<and> (\<exists>v. set revs \<subseteq> {v})
    \<and> list_all (\<lambda>v. EqualFold (TrimSpace v) ''true'') abss
    \<and> (ids = [] \<longleftrightarrow> revs = []) \<and> \<not> (ids \<noteq> [] \<and> abss \<noteq> [])
    \<and> p = \<lparr>u_expectedID = (case ids of [] \<Rightarrow> [] | v # _ \<Rightarrow> v),
           u_expectedRev = (case revs of [] \<Rightarrow> [] | v # _ \<Rightarrow> v),
           u_expectedAbsent = (abss \<noteq> []), u_set = (ids \<noteq> [] \<or> abss \<noteq> [])\<rparr>"
  unfolding extractSyncUploadPreconditions_def ids_def revs_def abss_def
  by (auto simp: bind_error_Inr upload_options_Inr consistent_None known_None the_string_known
      list_all_iff)

text \<open>
  C25. Which upload preconditions are accepted. \<open>extractSyncUploadPreconditions\<close> succeeds
  exactly when no expected ID or revision is empty, all expected IDs agree, all expected
  revisions agree, every \<open>expected-absent\<close> says true, IDs and revisions come together and not
  with \<open>expected-absent\<close>; the result holds the values given and is set when anything was given.
\<close>

theorem extractSyncUploadPreconditions_iff:
  "extractSyncUploadPreconditions opts = Inr p \<longleftrightarrow>
    (let ids = metadata_values syncExpectedIDMetadataKey opts;
         revs = metadata_values syncExpectedRevMetadataKey opts;
         abss = metadata_values syncExpectedAbsentMetadataKey opts
     in [] \<notin> set ids \<and> (\<exists>v. set ids \<subseteq> {v}) \<and> [] \<notin> set revs \<and> (\<exists>v. set revs \<subseteq> {v})
        \<and> list_all (\<lambda>v. EqualFold (TrimSpace v) ''true'') abss
        \<and> (ids = [] \<longleftrightarrow> revs = []) \<and> \<not> (ids \<noteq> [] \<and> abss \<noteq> [])
        \<and> p = \<lparr>u_expectedID = (case ids of [] \<Rightarrow> [] | v # _ \<Rightarrow> v),
               u_expectedRev = (case revs of [] \<Rightarrow> [] | v # _ \<Rightarrow> v),
               u_expectedAbsent = (abss \<noteq> []), u_set = (ids @ abss \<noteq> [])\<rparr>)"
  by (simp add: Let_def extract_upload_Inr)

text \<open>An accepted precondition is an ID with a revision, or absence, or nothing.\<close>

lemma upload_preconditions_cases:
  assumes "extractSyncUploadPreconditions opts = Inr p"
  obtains (none) "\<not> u_set p" "u_expectedAbsent p = False"
    | (absent) "u_set p" "u_expectedAbsent p"
    | (revision) "u_set p" "\<not> u_expectedAbsent p" "u_expectedID p \<noteq> []" "u_expectedRev p \<noteq> []"
proof -
  let ?ids = "metadata_values syncExpectedIDMetadataKey opts"
  let ?revs = "metadata_values syncExpectedRevMetadataKey opts"
  show ?thesis
    using assms unfolding extract_upload_Inr
    by (cases ?ids; cases ?revs; cases "metadata_values syncExpectedAbsentMetadataKey opts")
      (auto intro: none absent revision)
qed

text \<open>
  The check passes exactly on the object the precondition describes.
\<close>

lemma checkObject_None:
  "checkObject p i rv = None \<longleftrightarrow>
     \<not> u_set p \<or> (if u_expectedAbsent p then i = []
                 else i \<noteq> [] \<and> i = u_expectedID p \<and> rv = u_expectedRev p)"
  by (auto simp: checkObject_def)

section \<open>What is forwarded of a download\<close>

definition precondition_header :: "openOption \<Rightarrow> bool" where
  "precondition_header opt =
     (case opt of
        HTTPOption k v \<Rightarrow>
          EqualFold (TrimSpace k) syncExpectedIDDownloadHeader
          \<or> EqualFold (TrimSpace k) syncExpectedRevDownloadHeader
      | _ \<Rightarrow> False)"

lemma fold_distinct_headers:
  "EqualFold k syncExpectedIDDownloadHeader \<Longrightarrow> \<not> EqualFold k syncExpectedRevDownloadHeader"
proof -
  have "fold_case syncExpectedIDDownloadHeader \<noteq> fold_case syncExpectedRevDownloadHeader"
    by code_simp
  then show "EqualFold k syncExpectedIDDownloadHeader \<Longrightarrow> \<not> EqualFold k syncExpectedRevDownloadHeader"
    by (simp add: EqualFold_def)
qed

lemma header_values_Cons:
  "header_values h (opt # opts) =
     (case opt of HTTPOption k v \<Rightarrow> if EqualFold (TrimSpace k) h then [TrimSpace v] else [] | _ \<Rightarrow> [])
     @ header_values h opts"
  by (simp add: header_values_def)

lemma download_options_Inr:
  "download_options opts (i, rv, fw) = Inr y \<longleftrightarrow>
     consistent i (header_values syncExpectedIDDownloadHeader opts)
     \<and> consistent rv (header_values syncExpectedRevDownloadHeader opts)
     \<and> y = (known i (header_values syncExpectedIDDownloadHeader opts),
            known rv (header_values syncExpectedRevDownloadHeader opts),
            fw @ filter (\<lambda>opt. \<not> precondition_header opt) opts)"
proof (induction opts arbitrary: i rv fw)
  case Nil
  then show ?case by (auto simp: header_values_def)
next
  case (Cons opt opts)
  show ?case
  proof (cases opt)
    case (HTTPOption k v)
    then show ?thesis
      using fold_distinct_headers [of "TrimSpace k"]
      by (auto simp: header_values_Cons bind_error_Inr agree_Inr Cons.IH consistent_Cons known_Cons
          precondition_header_def)
  qed (use Cons.IH in \<open>auto simp: header_values_Cons precondition_header_def\<close>)
qed

text \<open>
  C26. Download preconditions are taken out of the request. When
  \<open>extractSyncDownloadPreconditions\<close> succeeds, the forwarded options are the options in their
  order without exactly the two precondition headers (in any spelling), the two headers were
  given both or neither, with non-empty values that agree, and the precondition holds these
  values.
\<close>

theorem extractSyncDownloadPreconditions_iff:
  "extractSyncDownloadPreconditions opts = Inr (p, fw) \<longleftrightarrow>
    (let ids = header_values syncExpectedIDDownloadHeader opts;
         revs = header_values syncExpectedRevDownloadHeader opts
     in [] \<notin> set ids \<and> (\<exists>v. set ids \<subseteq> {v}) \<and> [] \<notin> set revs \<and> (\<exists>v. set revs \<subseteq> {v})
        \<and> (ids = [] \<longleftrightarrow> revs = [])
        \<and> p = \<lparr>d_expectedID = (case ids of [] \<Rightarrow> [] | v # _ \<Rightarrow> v),
               d_expectedRev = (case revs of [] \<Rightarrow> [] | v # _ \<Rightarrow> v), d_set = (ids \<noteq> [])\<rparr>
        \<and> fw = filter (\<lambda>opt. \<not> precondition_header opt) opts)"
  unfolding extractSyncDownloadPreconditions_def Let_def
  by (auto simp: bind_error_Inr download_options_Inr consistent_None known_None the_string_known)

end
