(* ===== verification/Fs_Objects.thy ===== *)
theory Fs_Objects
  imports Point_Lookup Upload Sync_Preconditions
begin

text \<open>
  Objects of the backend, \<open>pkudisk.go\<close>: finding one, opening it for reading, and creating,
  updating and removing it, with the preconditions of sync clients. \<open>Update\<close> returns the object
  with the fields it sets; after an error the object is the old one.
\<close>

definition NewObject :: "'s env \<Rightarrow> Fs \<Rightarrow> string \<Rightarrow> ('s, Object) act" where
  "NewObject E f remote =
     andThen (newObjectByPath E f remote) (\<lambda>handled. case handled of
       Some res \<Rightarrow> lift res
     | None \<Rightarrow>
         (let (dir, leaf) = split_path E remote in
          inspect (FindDir E f dir False) (\<lambda>r. case r of
            Inl e \<Rightarrow>
              if err_is e (FsError ErrorDirNotFound) then throw (FsError ErrorObjectNotFound)
              else throw e
          | Inr parentID \<Rightarrow>
              if parentID = virtualRootID then throw (FsError ErrorObjectNotFound)
              else andThen (listDir E parentID) (\<lambda>listing.
                case find (\<lambda>item. decode E (e_Name item) = leaf) (l_Files listing) of
                  Some item \<Rightarrow> ok (objectFromEntry f remote item)
                | None \<Rightarrow>
                    (case find (\<lambda>item. decode E (e_Name item) = leaf) (l_Dirs listing) of
                       Some _ \<Rightarrow> throw (FsError ErrorIsDir)
                     | None \<Rightarrow> throw (FsError ErrorObjectNotFound))))))"

definition updated_object :: "Object \<Rightarrow> 's source \<Rightarrow> fileMetadata \<Rightarrow> Object" where
  "updated_object ob src meta =
     (let t = fileModTime (m_ClientMTime meta) (m_Modified meta)
      in ob\<lparr>o_id := m_DocID meta, o_size := m_Size meta, o_rev := m_Rev meta,
            o_modTime := (case t of None \<Rightarrow> Some (src_modTime src) | Some _ \<Rightarrow> t)\<rparr>)"

definition Update ::
    "'s env \<Rightarrow> Object \<Rightarrow> string \<Rightarrow> 's source \<Rightarrow> openOption list \<Rightarrow> ('s, Object) act" where
  "Update E ob src_bytes src opts =
     andThen (lift (extractSyncUploadPreconditions opts)) (\<lambda>p.
     andThen (check (checkObject p (o_id ob) (o_rev ob))) (\<lambda>_.
     let existingRev = (if u_set p \<and> \<not> u_expectedAbsent p then u_expectedRev p else o_rev ob) in
     andThen (FindPath E (o_fs ob) (o_remote ob) True) (\<lambda>(leaf, parentID).
     if parentID = virtualRootID then
       throw (ErrNew ''files cannot be uploaded directly into the PKU Disk virtual root'')
     else
       inspect (upload E parentID (encode E leaf) (o_id ob) existingRev (src_size src)
           (src_modTime src) src_bytes) (\<lambda>r. case r of
         Inl e \<Rightarrow>
           if u_set p \<and> isEditRevisionConflict e then
             throw (syncPreconditionErrorf ''remote revision changed while updating %q: %v''
               [o_id ob] [e])
           else throw e
       | Inr meta \<Rightarrow> ok (updated_object ob src meta)))))"

definition new_object :: "Fs \<Rightarrow> string \<Rightarrow> Object" where
  "new_object f remote =
     \<lparr>o_fs = f, o_remote = remote, o_id = [], o_size = 0, o_modTime = None, o_rev = []\<rparr>"

definition Put ::
    "'s env \<Rightarrow> Fs \<Rightarrow> string \<Rightarrow> 's source \<Rightarrow> openOption list \<Rightarrow> ('s, Object) act" where
  "Put E f src_bytes src opts =
     andThen (lift (extractSyncUploadPreconditions opts)) (\<lambda>p.
     inspect (NewObject E f (src_remote src)) (\<lambda>r. case r of
       Inr ob \<Rightarrow>
         andThen (check (checkObject p (o_id ob) (o_rev ob))) (\<lambda>_.
           Update E ob src_bytes src opts)
     | Inl e \<Rightarrow>
         if \<not> err_is e (FsError ErrorObjectNotFound) then throw e
         else andThen (check (checkObject p [] [])) (\<lambda>_.
           Update E (new_object f (src_remote src)) src_bytes src opts)))"

definition Remove :: "'s env \<Rightarrow> Object \<Rightarrow> ('s, unit) act" where
  "Remove E ob =
     (if o_id ob = [] then throw (FsError ErrorObjectNotFound)
      else deleteEntry E (o_id ob) False)"

text \<open>\<open>Metadata\<close> of an object: its revision, when it is known.\<close>

definition Metadata :: "Object \<Rightarrow> (string \<times> string) list option" where
  "Metadata ob = (if o_rev ob = [] then None else Some [(''rev'', o_rev ob)])"

text \<open>
  The name of an object that may be missing, and what the backend does not support: hashes, and
  setting a time without an upload. Times are kept to the microsecond.
\<close>

definition Object_String :: "Object option \<Rightarrow> string" where
  "Object_String ob = (case ob of None \<Rightarrow> ''<nil>'' | Some ob \<Rightarrow> o_remote ob)"

definition Object_Hash :: "Object \<Rightarrow> ('s, string) act" where
  "Object_Hash ob = throw (Foreign ''hash type not supported'')"

definition Object_SetModTime :: "Object \<Rightarrow> int \<Rightarrow> ('s, unit) act" where
  "Object_SetModTime ob t = throw (Foreign (''can'' @ CHR 0x27 # ''t set modified time''))"

definition Precision :: int where
  "Precision = 1000"

definition option_header :: "openOption \<Rightarrow> string \<times> string" where
  "option_header opt =
     (case opt of
        MetadataOption m \<Rightarrow> ([], [])
      | HTTPOption k v \<Rightarrow> (k, v)
      | OtherOption k v \<Rightarrow> (k, v))"

definition option_headers :: "openOption list \<Rightarrow> (string \<times> string) list" where
  "option_headers opts =
     fold (\<lambda>opt h. case option_header opt of (k, v) \<Rightarrow> if k = [] then h else header_set k v h) opts []"

definition download_check :: "syncDownloadPreconditions \<Rightarrow> fileMetadata \<Rightarrow> goerr option" where
  "download_check p meta =
     (if \<not> d_set p then None
      else if m_DocID meta \<noteq> d_expectedID p then
        Some (syncPreconditionErrorf ''remote object ID changed: expected %q, got %q''
          [d_expectedID p, m_DocID meta] [])
      else if m_Rev meta \<noteq> d_expectedRev p then
        Some (syncPreconditionErrorf ''remote revision changed for %q: expected %q, got %q''
          [m_DocID meta, d_expectedRev p, m_Rev meta] [])
      else None)"

definition object_metadata :: "'s env \<Rightarrow> Object \<Rightarrow> fileMetadata" where
  "object_metadata E ob =
     zero_metadata\<lparr>m_DocID := o_id ob, m_Name := encode E (Base (o_remote ob)),
       m_Size := o_size ob, m_Rev := o_rev ob\<rparr>"

definition Open :: "'s env \<Rightarrow> Object \<Rightarrow> openOption list \<Rightarrow> ('s, response) act" where
  "Open E ob opts =
     andThen (lift (extractSyncDownloadPreconditions opts)) (\<lambda>(p, forwarded).
     let known = object_metadata E ob in
     andThen (if m_Rev known = [] \<or> m_Name known = [] then metadata E (o_id ob) else ok known) (\<lambda>meta.
     andThen (check (download_check p meta)) (\<lambda>_.
     andThen (downloadURL E meta) (\<lambda>signedURL.
     let opts' = fix_range E forwarded (o_size ob) in
     andThen (check (request_error E ''GET'' signedURL)) (\<lambda>_.
     inspect (perform E
         \<lparr>via = ObjectHTTP, deadline = None, verb = ''GET'', url = signedURL,
          headers = option_headers opts', payload = NoBody\<rparr>) (\<lambda>r. case r of
       Inl e \<Rightarrow> throw (Errorf ''download from PKU object storage: %w'' [] [] [e])
     | Inr resp \<Rightarrow>
         if resp_status resp < 200 \<or> resp_status resp \<ge> 300 then
           throw (Errorf ''download from PKU object storage: HTTP %d''
             [FormatInt (resp_status resp)] [] [])
         else
           (case check_range E resp opts' (o_size ob) of
              Some e \<Rightarrow>
                throw (Errorf ''download from PKU object storage: validate range response: %w''
                  [] [] [e])
            | None \<Rightarrow> ok resp)))))))"

section \<open>Uploads under a precondition\<close>

lemma read_guarded: "read_request E r \<Longrightarrow> guarded E p n i rv r"
  by (auto simp: read_request_def read_endpoints_def guarded_def api_call_def)

lemma lookup_guarded: "lookup_request E c r \<Longrightarrow> guarded E p n i rv r"
  unfolding lookup_request_def create_request_def
  by (elim disjE conjE, erule read_guarded) (simp add: guarded_def api_call_def)

lemma newObjectByPath_sends [runs_rules]: "sends (read_request E) (newObjectByPath E f remote)"
  unfolding newObjectByPath_def Let_def by (intro runs_rules)

lemma NewObject_sends [runs_rules]:
  assumes "dircache_frame E"
  shows "sends (read_request E) (NewObject E f remote)"
proof -
  have "sends (read_request E) (FindDir E f d False)" for d
    by (rule sends_mono [OF dircache_sends(1) [OF assms]]) (simp add: lookup_request_def)
  then show ?thesis
    unfolding NewObject_def Let_def by (intro runs_rules)
qed

text \<open>The revision that an update is based on, and the object that it edits.\<close>

lemma Update_guarded:
  assumes frame: "dircache_frame E" and p: "extractSyncUploadPreconditions opts = Inr p"
  shows "sends (\<lambda>r. \<exists>parentID name. guarded E parentID name (o_id ob)
      (if u_set p \<and> \<not> u_expectedAbsent p then u_expectedRev p else o_rev ob) r)
    (Update E ob b src opts)"
proof -
  have find: "sends (\<lambda>r. \<exists>parentID name. guarded E parentID name i rv r) (FindPath E f q True)"
    for i rv f q
    by (rule sends_mono [OF dircache_sends(2) [OF frame]]) (blast intro: lookup_guarded)
  have up: "sends (\<lambda>r. \<exists>parentID name. guarded E parentID name i rv r)
      (upload E parent nm i rv s t x)" for i rv parent nm s t x
    by (rule sends_mono [OF upload_guarded]) blast
  show ?thesis
    unfolding Update_def Let_def
    by (rule sends_lift_then, simp only: p sum.inject)
      (intro runs_rules find up)
qed

text \<open>
  C4. A precondition of a sync client reaches the service. When the options of \<open>Put\<close> carry a
  precondition, whatever object the lookup finds and whatever the cache and the service do, an
  upload is only begun for the expected ID with the expected revision attached (so that the
  service refuses it when the file has changed since) and published under that revision; or,
  when absence is expected, it is only begun as a new file that must not replace anything.
\<close>

theorem Put_respects_preconditions:
  assumes "dircache_frame E" and "extractSyncUploadPreconditions opts = Inr p" and "u_set p"
    and "r \<in> set (requests (Put E f b src opts) w)"
  shows "\<exists>parentID name rv.
    guarded E parentID name (if u_expectedAbsent p then [] else u_expectedID p) rv r
    \<and> (u_expectedAbsent p \<or> rv = u_expectedRev p)"
proof -
  define P where "P r \<longleftrightarrow> (\<exists>parentID name rv.
    guarded E parentID name (if u_expectedAbsent p then [] else u_expectedID p) rv r
    \<and> (u_expectedAbsent p \<or> rv = u_expectedRev p))" for r
  have update: "sends P (Update E ob b src opts)" if "checkObject p (o_id ob) (o_rev ob) = None" for ob
    by (rule sends_mono [OF Update_guarded [OF assms(1,2)]])
      (use that assms(3) in \<open>auto simp: P_def checkObject_None split: if_splits\<close>)
  have read: "read_request E r \<Longrightarrow> P r" for r
    using read_guarded [of E r] unfolding P_def by blast
  have "sends P (Put E f b src opts)"
    unfolding Put_def
  proof (rule sends_lift_then)
    fix x assume "extractSyncUploadPreconditions opts = Inr x"
    with assms(2) have x: "x = p" by simp
    show "sends P (inspect (NewObject E f (src_remote src)) (\<lambda>r. case r of
       Inr ob \<Rightarrow>
         andThen (check (checkObject x (o_id ob) (o_rev ob))) (\<lambda>_. Update E ob b src opts)
     | Inl e \<Rightarrow>
         if \<not> err_is e (FsError ErrorObjectNotFound) then throw e
         else andThen (check (checkObject x [] [])) (\<lambda>_.
           Update E (new_object f (src_remote src)) b src opts)))"
      unfolding x
      by (rule sends_inspect, rule sends_mono [OF NewObject_sends [OF assms(1)]], erule read)
        (auto split: sum.split intro!: sends_check_then update simp: new_object_def [of f "src_remote src"])
  qed
  then have "P r" using assms(4) by (rule sends_requests)
  then show ?thesis by (simp add: P_def)
qed

text \<open>An update of \<open>L/f\<close> under a precondition, up to the request that begins it.\<close>

definition sample_fs :: Fs where
  "sample_fs =
     \<lparr>fs_name = ''n'', fs_root = [], fs_cache = 0, fs_base_url = [], fs_upload_concurrency = 4,
      fs_resume_dir = []\<rparr>"

definition info_body :: string where
  "info_body = ''{\"docid\":\"D\",\"size\":3,\"rev\":\"R\"}''"

definition libraries_body :: string where
  "libraries_body = ''[{\"id\":\"i\",\"name\":\"L\"}]''"

definition sample_options :: "openOption list" where
  "sample_options = [MetadataOption [(syncExpectedIDMetadataKey, ''D''), (syncExpectedRevMetadataKey, ''R'')]]"

lemma sample_lookup:
  "accepted info_body" "accepted libraries_body"
  "decode_response ''efast/v1/file/getinfobypath'' dec_entry zero_entry info_body =
     Inr (zero_entry\<lparr>e_DocID := ''D'', e_Size := 3, e_Rev := ''R''\<rparr>)"
  "decode_response ''efast/v1/entry-doc-lib'' (dec_list dec_library zero_library) [] libraries_body =
     Inr [zero_library\<lparr>lib_ID := ''i'', lib_Name := ''L''\<rparr>]"
  "extractSyncUploadPreconditions sample_options =
     Inr \<lparr>u_expectedID = ''D'', u_expectedRev = ''R'', u_expectedAbsent = False, u_set = True\<rparr>"
  "encodedNamePath sample_env sample_fs ''L/f'' = ''L/f''"
  by code_simp+

lemma sample_NewObject:
  assumes "ext w = answer 200 info_body # s"
  obtains w' where "NewObject sample_env sample_fs ''L/f'' w =
      (Inr (objectFromEntry sample_fs ''L/f'' (zero_entry\<lparr>e_DocID := ''D'', e_Size := 3, e_Rev := ''R''\<rparr>)), w')"
    and "ext w' = s"
  using assms
  by (auto simp: NewObject_def newObjectByPath_def getInfoByPath_def sample_steps sample_lookup
      Let_def cong: run_congs)

lemma sample_FindPath:
  assumes "ext w = answer 200 libraries_body # s"
  obtains w' where "FindPath sample_env sample_fs ''L/f'' c w = (Inr (''f'', ''i''), w')" and "ext w' = s"
proof -
  have "split_last ''L/f'' = (''L'', ''f'')" and "components ''L'' = [''L'']"
    by code_simp+
  with assms that show ?thesis
    by (auto simp: FindPath_def sample_env_def [THEN arg_cong [where f = dc_find_path]] FindLeaf_def
        libraries_def sample_steps sample_lookup cong: run_congs)
qed

theorem Put_respects_preconditions_witness:
  "\<exists>r \<in> set (requests (Put sample_env sample_fs ''abc'' (sample_source\<lparr>src_remote := ''L/f''\<rparr>) sample_options)
       (start_world [answer 200 info_body, answer 200 libraries_body])).
     api_call sample_env ''efast/v1/file/osbeginupload'' r
     \<and> (\<exists>parentID name. guarded_start parentID name ''D'' ''R'' (payload r))"
proof -
  let ?src = "sample_source\<lparr>src_remote := ''L/f''\<rparr>" and ?w = "start_world [answer 200 info_body, answer 200 libraries_body]"
  let ?put = "Put sample_env sample_fs ''abc'' ?src sample_options"
  let ?item = "zero_entry\<lparr>e_DocID := ''D'', e_Size := 3, e_Rev := ''R''\<rparr>"
  obtain w1 where w1: "NewObject sample_env sample_fs ''L/f'' ?w = (Inr (objectFromEntry sample_fs ''L/f'' ?item), w1)"
    and e1: "ext w1 = [answer 200 libraries_body]"
    by (rule sample_NewObject [of ?w]) (simp_all add: start_world_def)
  obtain w2 where w2: "FindPath sample_env sample_fs ''L/f'' True w1 = (Inr (''f'', ''i''), w2)"
    and e2: "ext w2 = []"
    using e1 by (rule sample_FindPath)
  let ?b = "JObj (uploadStartBody ''i'' ''f'' ''D'' ''R'' 3 1 @ [(''reqmethod'', JStr ''POST'')])"
  let ?q = "api_request sample_env ApiHTTP None ''POST'' ''efast/v1/file/osbeginupload'' (Some ?b) ''T''"
  have "sent (snd (?put ?w)) = sent w2 @ [?q]"
    using w1 w2 e2
    by (simp add: Put_def Update_def sample_lookup checkObject_def objectFromEntry_def run_simps
        sample_source_def virtualRootID_def upload_def uploadSingle_def defaultMultipartPartSize_def
        refused_doJSON isEditRevisionConflict_def cong: run_congs)
  then have q: "?q \<in> set (requests ?put ?w)"
    by (simp add: requests_def start_world_def)
  with Put_respects_preconditions [OF sample_frame sample_lookup(5) _ this]
  show ?thesis by (intro bexI [of _ ?q]) (auto simp: guarded_def)
qed

end
