(* ===== verification/Json_Render.thy ===== *)
theory Json_Render
  imports Go_Json
begin

text \<open>
  \<open>json.Marshal\<close> of the values the resume state is made of: compact text, with strings
  escaped the way Go does it by default (control bytes, the quote, the backslash, the three
  HTML characters, the two JavaScript line separators, malformed UTF-8). The reader of
  \<open>Go_Json\<close> gives a rendered value back when its strings are well-formed UTF-8 and its
  numbers are integers.
\<close>

definition hex_digit :: "nat \<Rightarrow> char" where
  "hex_digit d = char_of (if d < 10 then 48 + d else 87 + d)"

definition unicode_escape :: "nat \<Rightarrow> string" where
  "unicode_escape n =
     [CHR 0x5C, CHR ''u'', hex_digit (n div 4096 mod 16), hex_digit (n div 256 mod 16),
      hex_digit (n div 16 mod 16), hex_digit (n mod 16)]"

definition html_safe :: "char \<Rightarrow> bool" where
  "html_safe c \<longleftrightarrow>
     in_range 32 127 c \<and> c \<noteq> CHR 0x22 \<and> c \<noteq> CHR 0x5C \<and> c \<noteq> CHR ''<'' \<and> c \<noteq> CHR ''>''
     \<and> c \<noteq> CHR ''&''"

definition escape_byte :: "char \<Rightarrow> string" where
  "escape_byte c =
     (if html_safe c then [c]
      else if c = CHR 0x22 \<or> c = CHR 0x5C then [CHR 0x5C, c]
      else if c = CHR 0x08 then [CHR 0x5C, CHR ''b'']
      else if c = CHR 0x0C then [CHR 0x5C, CHR ''f'']
      else if c = CHR 0x0A then [CHR 0x5C, CHR ''n'']
      else if c = CHR 0x0D then [CHR 0x5C, CHR ''r'']
      else if c = CHR 0x09 then [CHR 0x5C, CHR ''t'']
      else unicode_escape (byte c))"

definition line_separator :: "string \<Rightarrow> nat option" where
  "line_separator u =
     (if u = [CHR 0xE2, CHR 0x80, CHR 0xA8] then Some 8232
      else if u = [CHR 0xE2, CHR 0x80, CHR 0xA9] then Some 8233 else None)"

definition escape_rune :: "string \<Rightarrow> string" where
  "escape_rune u = (case line_separator u of Some n \<Rightarrow> unicode_escape n | None \<Rightarrow> u)"

function escape_string :: "string \<Rightarrow> string" where
  "escape_string s =
     (case s of
        [] \<Rightarrow> []
      | c # r \<Rightarrow>
          if byte c < 128 then escape_byte c @ escape_string r
          else if utf8_len s = 0 then unicode_escape 65533 @ escape_string r
          else escape_rune (take (utf8_len s) s) @ escape_string (drop (utf8_len s - 1) r))"
  by pat_completeness auto
termination
  by (relation "measure length") auto

declare escape_string.simps [simp del]

definition quote :: "string \<Rightarrow> string" where
  "quote s = CHR 0x22 # escape_string s @ [CHR 0x22]"

fun comma :: "string list \<Rightarrow> string" where
  "comma [] = []"
| "comma [x] = x"
| "comma (x # y # ys) = x @ CHR '','' # comma (y # ys)"

fun render :: "json \<Rightarrow> string" where
  "render JNull = ''null''"
| "render (JBool b) = (if b then ''true'' else ''false'')"
| "render (JNum n) = n"
| "render (JStr s) = quote s"
| "render (JArr vs) = CHR ''['' # comma (map render vs) @ '']''"
| "render (JObj kvs) =
     CHR ''{'' # comma (map (\<lambda>(k, v). quote k @ CHR '':'' # render v) kvs) @ ''}''"

section \<open>Strings read back\<close>

function utf8_valid :: "string \<Rightarrow> bool" where
  "utf8_valid s =
     (if s = [] then True else if utf8_len s = 0 then False else utf8_valid (drop (utf8_len s) s))"
  by pat_completeness auto
termination
  by (relation "measure length") simp_all

declare utf8_valid.simps [simp del]

lemma utf8_len_le: "utf8_len s \<le> length s"
  by (auto simp: utf8_len_def split: list.splits if_splits)

lemma utf8_len_cases:
  assumes "utf8_len s \<noteq> 0"
  obtains (ascii) a r where "s = a # r" "byte a < 128"
    | (two) a b r where "s = a # b # r" "\<not> byte a < 128" "in_range 194 223 a" "in_range 128 191 b"
    | (three) a b c r where "s = a # b # c # r" "\<not> byte a < 128" "\<not> in_range 194 223 a"
        "in_range 224 239 a" "in_range 128 191 c"
        "in_range (if byte a = 224 then 160 else 128) (if byte a = 237 then 159 else 191) b"
    | (four) a b c d r where "s = a # b # c # d # r" "\<not> byte a < 128" "\<not> in_range 194 223 a"
        "\<not> in_range 224 239 a" "in_range 240 244 a" "in_range 128 191 c" "in_range 128 191 d"
        "in_range (if byte a = 240 then 144 else 128) (if byte a = 244 then 143 else 191) b"
proof (cases s)
  case Nil
  with assms show ?thesis by (simp add: utf8_len_def)
next
  case a: (Cons a r)
  show ?thesis
  proof (cases "byte a < 128")
    case True
    with a show ?thesis by (rule ascii)
  next
    case hi: False
    with assms a obtain b r' where b: "r = b # r'" by (cases r) (auto simp: utf8_len_def)
    show ?thesis
    proof (cases "in_range 194 223 a")
      case True
      with assms a b hi show ?thesis by (intro two) (auto simp: utf8_len_def split: if_splits)
    next
      case False
      with assms a b hi obtain c r'' where c: "r' = c # r''" by (cases r') (auto simp: utf8_len_def)
      show ?thesis
      proof (cases "in_range 224 239 a")
        case True
        with assms a b c hi False show ?thesis
          by (intro three [of a b c r'']) (simp_all add: utf8_len_def split: if_splits)
      next
        case False
        with assms a b c hi \<open>\<not> in_range 194 223 a\<close> obtain d r3 where d: "r'' = d # r3"
          by (cases r'') (auto simp: utf8_len_def)
        with assms a b c hi False \<open>\<not> in_range 194 223 a\<close> show ?thesis
          by (intro four [of a b c d r3]) (simp_all add: utf8_len_def split: if_splits)
      qed
    qed
  qed
qed

lemma utf8_len_take:
  assumes "utf8_len s \<noteq> 0"
  shows "utf8_len (take (utf8_len s) s @ t) = utf8_len s"
  using assms by (cases s rule: utf8_len_cases) (simp_all add: utf8_len_def)

lemma byte_char_of: "n < 256 \<Longrightarrow> byte (char_of n) = (n :: nat)"
  by simp

lemma hex_val_digit: "d < 16 \<Longrightarrow> hex_val (hex_digit d) = Some d"
  by (auto simp: hex_val_def hex_digit_def in_range_def)

lemma hex4_escape:
  assumes "n < 65536"
  shows "hex4 (drop 2 (unicode_escape n) @ t) = Some n"
proof -
  have top: "n div 4096 mod 16 = n div 4096" "n div 4096 < 16" using assms by simp_all
  moreover have "n div 16 div 16 = n div 256" and "n div 256 div 16 = n div 4096"
    by (simp_all add: div_mult2_eq [symmetric])
  ultimately have "4096 * (n div 4096 mod 16) + 256 * (n div 256 mod 16) + 16 * (n div 16 mod 16)
      + n mod 16 = n"
    using div_mult_mod_eq [of n 16] div_mult_mod_eq [of "n div 16" 16]
      div_mult_mod_eq [of "n div 256" 16] by linarith
  then show ?thesis by (simp add: unicode_escape_def hex4_def hex_val_digit top)
qed

lemma lex_string_simple:
  "simple_escape e = Some c \<Longrightarrow> e \<noteq> CHR ''u'' \<Longrightarrow>
     lex_string (CHR 0x5C # e # t) = map_option (\<lambda>(u, q). (c # u, q)) (lex_string t)"
  by (subst lex_string.simps) (simp add: lex_escape_def)

lemma lex_string_unicode:
  assumes "n < 65536" and "\<not> is_surrogate n"
  shows "lex_string (unicode_escape n @ t) = map_option (\<lambda>(u, q). (utf8_rune n @ u, q)) (lex_string t)"
proof -
  have "hex4 (hex_digit (n div 4096 mod 16) # hex_digit (n div 256 mod 16) # hex_digit (n div 16 mod 16)
      # hex_digit (n mod 16) # t) = Some n"
    using hex4_escape [OF assms(1), of t] by (simp add: unicode_escape_def)
  then have "lex_escape (CHR ''u'' # hex_digit (n div 4096 mod 16) # hex_digit (n div 256 mod 16)
      # hex_digit (n div 16 mod 16) # hex_digit (n mod 16) # t) = Some (utf8_rune n, t)"
    using assms(2) by (simp add: lex_escape_def)
  then show ?thesis
    by (subst lex_string.simps) (simp add: unicode_escape_def)
qed

lemma lex_string_plain:
  "byte c < 128 \<Longrightarrow> 32 \<le> byte c \<Longrightarrow> c \<noteq> CHR 0x22 \<Longrightarrow> c \<noteq> CHR 0x5C \<Longrightarrow>
     lex_string (c # t) = map_option (\<lambda>(u, q). (c # u, q)) (lex_string t)"
  by (subst lex_string.simps) (simp add: utf8_len_def)

lemma lex_string_rune:
  assumes "utf8_len s \<noteq> 0" and "s = c # r" and "128 \<le> byte c"
  shows "lex_string (take (utf8_len s) s @ t) =
    map_option (\<lambda>(u, q). (take (utf8_len s) s @ u, q)) (lex_string t)"
proof -
  obtain k where k: "utf8_len s = Suc k" using assms(1) by (cases "utf8_len s") auto
  have "k \<le> length r" using utf8_len_le [of s] k assms(2) by simp
  moreover have "utf8_len (c # take k r @ t) = Suc k"
    using utf8_len_take [OF assms(1), of t] unfolding k by (simp add: assms(2))
  moreover have "c \<noteq> CHR 0x22" "c \<noteq> CHR 0x5C" using assms(3) by auto
  ultimately show ?thesis
    using assms(3) unfolding k by (subst lex_string.simps) (simp add: assms(2))
qed

lemma simple_escapes:
  "simple_escape (CHR 0x22) = Some (CHR 0x22)" "simple_escape (CHR 0x5C) = Some (CHR 0x5C)"
  "simple_escape (CHR ''b'') = Some (CHR 0x08)" "simple_escape (CHR ''f'') = Some (CHR 0x0C)"
  "simple_escape (CHR ''n'') = Some (CHR 0x0A)" "simple_escape (CHR ''r'') = Some (CHR 0x0D)"
  "simple_escape (CHR ''t'') = Some (CHR 0x09)"
  by (simp_all add: simple_escape_def)

lemma escape_byte_cases:
  obtains (safe) "html_safe c" "escape_byte c = [c]"
    | (simple) e where "escape_byte c = [CHR 0x5C, e]" "simple_escape e = Some c" "e \<noteq> CHR ''u''"
    | (unicode) "escape_byte c = unicode_escape (byte c)"
proof (cases "html_safe c")
  case True
  then show ?thesis by (intro safe) (simp_all add: escape_byte_def)
next
  case unsafe: False
  show ?thesis
  proof (cases "c \<in> {CHR 0x22, CHR 0x5C, CHR 0x08, CHR 0x0C, CHR 0x0A, CHR 0x0D, CHR 0x09}")
    case True
    with unsafe show ?thesis
      using simple [of "CHR 0x22"] simple [of "CHR 0x5C"] simple [of "CHR ''b''"]
        simple [of "CHR ''f''"] simple [of "CHR ''n''"] simple [of "CHR ''r''"]
        simple [of "CHR ''t''"]
      by (elim insertE emptyE) (simp_all add: escape_byte_def simple_escapes)
  next
    case False
    with unsafe show ?thesis by (intro unicode) (simp add: escape_byte_def)
  qed
qed

lemma lex_string_byte:
  assumes "byte c < 128"
  shows "lex_string (escape_byte c @ t) = map_option (\<lambda>(u, q). (c # u, q)) (lex_string t)"
proof -
  have unicode: "lex_string (unicode_escape (byte c) @ t) = map_option (\<lambda>(u, q). (c # u, q)) (lex_string t)"
    using lex_string_unicode [of "byte c" t] assms by (simp add: is_surrogate_def utf8_rune_def)
  then show ?thesis
    using lex_string_plain [OF assms] lex_string_simple
    by (cases c rule: escape_byte_cases) (simp_all add: html_safe_def in_range_def)
qed

lemma separators:
  "utf8_rune 8232 = [CHR 0xE2, CHR 0x80, CHR 0xA8]" "utf8_rune 8233 = [CHR 0xE2, CHR 0x80, CHR 0xA9]"
  by (simp add: utf8_rune_def, code_simp)+

lemma lex_string_escape_rune:
  assumes "utf8_len s \<noteq> 0" and "s = c # r" and "128 \<le> byte c"
  shows "lex_string (escape_rune (take (utf8_len s) s) @ t) =
    map_option (\<lambda>(u, q). (take (utf8_len s) s @ u, q)) (lex_string t)"
proof (cases "line_separator (take (utf8_len s) s)")
  case None
  with lex_string_rune [OF assms] show ?thesis by (simp add: escape_rune_def)
next
  case (Some n)
  then have "n < 65536" "\<not> is_surrogate n" "utf8_rune n = take (utf8_len s) s"
    by (auto simp: line_separator_def is_surrogate_def separators split: if_splits)
  with lex_string_unicode [of n t] Some show ?thesis by (simp add: escape_rune_def)
qed

lemma lex_string_escape:
  "utf8_valid s \<Longrightarrow> lex_string (escape_string s @ CHR 0x22 # rest) = Some (s, rest)"
proof (induction s rule: utf8_valid.induct)
  case (1 s)
  show ?case
  proof (cases s)
    case Nil
    then show ?thesis by (simp add: escape_string.simps lex_string.simps)
  next
    case (Cons c r)
    with "1.prems" have len: "utf8_len s \<noteq> 0" and valid: "utf8_valid (drop (utf8_len s) s)"
      unfolding utf8_valid.simps [of s] by (simp_all split: if_splits)
    with "1.IH" Cons have IH: "lex_string (escape_string (drop (utf8_len s) s) @ CHR 0x22 # rest) =
        Some (drop (utf8_len s) s, rest)" by blast
    have escape: "escape_string s = (if byte c < 128 then escape_byte c @ escape_string r
        else escape_rune (take (utf8_len s) s) @ escape_string (drop (utf8_len s - 1) r))"
      using len by (subst escape_string.simps) (simp add: Cons)
    show ?thesis
    proof (cases "byte c < 128")
      case True
      then have "utf8_len s = 1" by (simp add: utf8_len_def Cons)
      with True IH show ?thesis
        unfolding escape by (simp add: lex_string_byte Cons)
    next
      case False
      have "drop (utf8_len s - 1) r = drop (utf8_len s) s"
        using len by (cases "utf8_len s") (auto simp: Cons)
      with False IH lex_string_escape_rune [OF len Cons] show ?thesis
        unfolding escape by simp
    qed
  qed
qed

section \<open>Numbers read back\<close>

definition stops :: "string \<Rightarrow> bool" where
  "stops r \<longleftrightarrow> (case r of [] \<Rightarrow> True | c # _ \<Rightarrow> c = CHR '','' \<or> c = CHR '']'' \<or> c = CHR ''}'')"

lemma stops_simps [simp]:
  "stops []" "stops (CHR '','' # r)" "stops (CHR '']'' # r)" "stops (CHR ''}'' # r)"
  by (simp_all add: stops_def)

lemma int_byte: "int (byte c) = of_char c"
  by (cases c) simp

lemma digit_char_range [simp]: "0 \<le> d \<Longrightarrow> d < 10 \<Longrightarrow> in_range 48 57 (digit_char d)"
proof -
  assume d: "0 \<le> d" "d < 10"
  have "int (byte (digit_char d)) = (48 + d) mod 256"
    unfolding int_byte digit_char_def by simp
  with d show ?thesis by (simp add: in_range_def)
qed

lemma dec_digits_range: "0 \<le> n \<Longrightarrow> list_all (in_range 48 57) (dec_digits n)"
proof (induction n rule: dec_digits.induct)
  case (1 n)
  then show ?case by (subst dec_digits.simps) auto
qed

lemma take_digits_all:
  "list_all (in_range 48 57) ds \<Longrightarrow> stops r \<Longrightarrow> take_digits (ds @ r) = (ds, r)"
proof (induction ds)
  case Nil
  then show ?case by (cases r) (auto simp: stops_def in_range_def)
qed simp

lemma hd_dec_digits_nonzero: "0 < n \<Longrightarrow> hd (dec_digits n) \<noteq> CHR ''0''"
proof (induction n rule: dec_digits.induct)
  case (1 n)
  show ?case
  proof (cases "n < 10")
    case True
    have "digit_val (digit_char n) \<noteq> digit_val (CHR ''0'')"
      using True "1.prems" by (simp add: digit_val_def [of "CHR ''0''"])
    with True show ?thesis by (subst dec_digits.simps) auto
  next
    case False
    with "1.IH" show ?thesis by (subst dec_digits.simps) simp
  qed
qed

lemma lex_tail: "stops r \<Longrightarrow> lex_frac r = Some ([], r)" "stops r \<Longrightarrow> lex_exp r = Some ([], r)"
  by (auto simp: stops_def lex_frac_def lex_exp_def split: list.splits)

lemma dec_digits_0: "dec_digits 0 = ''0''"
  by code_simp

definition lex_unsigned :: "string \<Rightarrow> string \<Rightarrow> (string \<times> string) option" where
  "lex_unsigned sg r0 =
     (case r0 of [] \<Rightarrow> None
      | c # q \<Rightarrow>
          let (ds, r1) = (if c = CHR ''0'' then ([c], q) else take_digits r0) in
          if ds = [] then None
          else (case lex_frac r1 of None \<Rightarrow> None | Some (fr, r2) \<Rightarrow>
                 (case lex_exp r2 of None \<Rightarrow> None | Some (ex, r3) \<Rightarrow> Some (sg @ ds @ fr @ ex, r3))))"

lemma lex_number_sign:
  "lex_number (CHR ''-'' # s) = lex_unsigned ''-'' s"
  "c \<noteq> CHR ''-'' \<Longrightarrow> lex_number (c # s) = lex_unsigned [] (c # s)"
  by (simp_all add: lex_number_def lex_unsigned_def)

lemma lex_unsigned_digits:
  assumes "0 \<le> n" and "stops r"
  shows "lex_unsigned sg (dec_digits n @ r) = Some (sg @ dec_digits n, r)"
proof (cases "n = 0")
  case True
  with assms show ?thesis by (simp add: dec_digits_0 lex_tail lex_unsigned_def)
next
  case False
  obtain c cs where c: "dec_digits n = c # cs" by (cases "dec_digits n") auto
  with False assms hd_dec_digits_nonzero [of n] have "c \<noteq> CHR ''0''" by simp
  moreover have "take_digits (c # cs @ r) = (c # cs, r)"
    using take_digits_all [OF dec_digits_range [OF assms(1)] assms(2)] c by simp
  ultimately show ?thesis
    using assms by (simp add: c lex_tail lex_unsigned_def del: take_digits.simps)
qed

lemma lex_number_FormatInt:
  assumes "stops r"
  shows "lex_number (FormatInt n @ r) = Some (FormatInt n, r)"
proof (cases "n < 0")
  case True
  with assms lex_unsigned_digits [of "- n" r "''-''"] show ?thesis
    by (simp add: lex_number_sign FormatInt_def)
next
  case False
  obtain c cs where c: "dec_digits n = c # cs" by (cases "dec_digits n") auto
  with False dec_digits_range [of n] have "c \<noteq> CHR ''-''" by (auto simp: in_range_def)
  with False assms lex_unsigned_digits [of n r "[]"] c show ?thesis
    by (simp add: lex_number_sign FormatInt_def)
qed

lemma FormatInt_front:
  obtains c cs where "FormatInt n = c # cs" and "c = CHR ''-'' \<or> in_range 48 57 c"
proof (cases "n < 0")
  case True
  then show ?thesis by (intro that) (auto simp: FormatInt_def)
next
  case False
  with dec_digits_range [of n] that show ?thesis
    by (cases "dec_digits n") (auto simp: FormatInt_def)
qed

section \<open>Values read back\<close>

fun renderable :: "json \<Rightarrow> bool" where
  "renderable JNull = True"
| "renderable (JBool b) = True"
| "renderable (JNum n) = (\<exists>i. n = FormatInt i)"
| "renderable (JStr s) = utf8_valid s"
| "renderable (JArr vs) = (\<forall>v \<in> set vs. renderable v)"
| "renderable (JObj kvs) = (\<forall>(k, v) \<in> set kvs. utf8_valid k \<and> renderable v)"

text \<open>With enough fuel the parser \<open>p\<close> reads \<open>x\<close> from \<open>s\<close> and leaves \<open>r\<close>.\<close>

definition reads :: "(nat \<Rightarrow> string \<Rightarrow> ('a \<times> string) option) \<Rightarrow> string \<Rightarrow> 'a \<Rightarrow> string \<Rightarrow> bool" where
  "reads p s x r \<longleftrightarrow> (\<exists>F. \<forall>f. F \<le> f \<longrightarrow> p f s = Some (x, r))"

lemma readsI: "(\<And>f. F \<le> f \<Longrightarrow> p (Suc f) s = Some (x, r)) \<Longrightarrow> reads p s x r"
  unfolding reads_def by (intro exI [of _ "Suc F"]) (metis Suc_le_D Suc_le_mono)

lemma readsE:
  assumes "reads p s x r"
  obtains F where "\<forall>f. F \<le> f \<longrightarrow> p f s = Some (x, r)"
  using assms by (auto simp: reads_def)

lemma skip_ws_front [simp]:
  "c \<noteq> CHR '' '' \<Longrightarrow> c \<noteq> CHR 0x09 \<Longrightarrow> c \<noteq> CHR 0x0A \<Longrightarrow> c \<noteq> CHR 0x0D \<Longrightarrow> skip_ws (c # r) = c # r"
  by simp

lemma reads_elems:
  "vs \<noteq> [] \<Longrightarrow> (\<And>v r. v \<in> set vs \<Longrightarrow> stops r \<Longrightarrow> reads parse_value (render v @ r) v r) \<Longrightarrow>
     reads parse_elems (comma (map render vs) @ CHR '']'' # r) vs r"
proof (induction vs rule: induct_list012)
  case (2 v)
  from "2.prems"(2) have "reads parse_value (render v @ CHR '']'' # r) v (CHR '']'' # r)" by simp
  then obtain F where "\<forall>f. F \<le> f \<longrightarrow> parse_value f (render v @ CHR '']'' # r) = Some (v, CHR '']'' # r)"
    by (rule readsE)
  then show ?case by (intro readsI [of F]) (simp add: parse_elems.simps(2))
next
  case (3 v w vs)
  let ?tail = "comma (map render (w # vs)) @ CHR '']'' # r"
  from "3.prems"(2) have "reads parse_value (render v @ CHR '','' # ?tail) v (CHR '','' # ?tail)"
    by simp
  then obtain F
    where F: "\<forall>f. F \<le> f \<longrightarrow> parse_value f (render v @ CHR '','' # ?tail) = Some (v, CHR '','' # ?tail)"
    by (rule readsE)
  have "reads parse_elems ?tail (w # vs) r"
    using "3.IH"(2) "3.prems"(2) by simp
  then obtain G where "\<forall>f. G \<le> f \<longrightarrow> parse_elems f ?tail = Some (w # vs, r)"
    by (rule readsE)
  with F show ?case by (intro readsI [of "max F G"]) (simp add: parse_elems.simps(2))
qed simp

lemma parse_members_front:
  assumes "utf8_valid k"
  shows "parse_members (Suc f) (quote k @ CHR '':'' # s) =
    (case parse_value f s of
       None \<Rightarrow> None
     | Some (v, r3) \<Rightarrow>
         (case skip_ws r3 of
            [] \<Rightarrow> None
          | c3 # q \<Rightarrow>
              if c3 = CHR ''}'' then Some ([(k, v)], q)
              else if c3 = CHR '','' then
                map_option (\<lambda>(kvs, q'). ((k, v) # kvs, q')) (parse_members f q)
              else None))"
  using lex_string_escape [OF assms, of "CHR '':'' # s"]
  by (simp add: quote_def parse_members.simps(2))

abbreviation render_member :: "string \<times> json \<Rightarrow> string" where
  "render_member \<equiv> \<lambda>(k, v). quote k @ CHR '':'' # render v"

lemma reads_members:
  "kvs \<noteq> [] \<Longrightarrow> (\<And>k v r. (k, v) \<in> set kvs \<Longrightarrow> stops r \<Longrightarrow>
        utf8_valid k \<and> reads parse_value (render v @ r) v r) \<Longrightarrow>
     reads parse_members (comma (map render_member kvs) @ CHR ''}'' # r) kvs r"
proof (induction kvs rule: induct_list012)
  case (2 kv)
  obtain k v where kv: "kv = (k, v)" by (cases kv)
  from "2.prems"(2) [of k v "CHR ''}'' # r"] kv have valid: "utf8_valid k"
    and "reads parse_value (render v @ CHR ''}'' # r) v (CHR ''}'' # r)" by simp_all
  then obtain F where "\<forall>f. F \<le> f \<longrightarrow> parse_value f (render v @ CHR ''}'' # r) = Some (v, CHR ''}'' # r)"
    by (elim readsE)
  then show ?case
    by (intro readsI [of F]) (simp add: kv parse_members_front [OF valid])
next
  case (3 kv kv' kvs)
  obtain k v where kv: "kv = (k, v)" by (cases kv)
  let ?tail = "comma (map render_member (kv' # kvs)) @ CHR ''}'' # r"
  from "3.prems"(2) [of k v "CHR '','' # ?tail"] kv have valid: "utf8_valid k"
    and "reads parse_value (render v @ CHR '','' # ?tail) v (CHR '','' # ?tail)" by simp_all
  then obtain F
    where F: "\<forall>f. F \<le> f \<longrightarrow> parse_value f (render v @ CHR '','' # ?tail) = Some (v, CHR '','' # ?tail)"
    by (elim readsE)
  have "reads parse_members ?tail (kv' # kvs) r"
    using "3.prems"(2) by (intro "3.IH"(2)) auto
  then obtain G where "\<forall>f. G \<le> f \<longrightarrow> parse_members f ?tail = Some (kv' # kvs, r)"
    by (rule readsE)
  with F show ?case
    by (intro readsI [of "max F G"])
      (simp add: kv parse_members_front [OF valid])
qed simp

lemma quote_front: "\<exists>t. quote s = CHR 0x22 # t"
  by (simp add: quote_def)

definition value_front :: "char \<Rightarrow> bool" where
  "value_front c \<longleftrightarrow> c \<notin> {CHR '' '', CHR 0x09, CHR 0x0A, CHR 0x0D, CHR '']'', CHR ''}''}"

lemma render_front:
  assumes "renderable j"
  shows "\<exists>c t. render j = c # t \<and> value_front c"
proof (cases j)
  case (JNum n)
  with assms obtain i where "n = FormatInt i" by auto
  moreover obtain c cs where "FormatInt i = c # cs" "c = CHR ''-'' \<or> in_range 48 57 c"
    by (rule FormatInt_front)
  ultimately show ?thesis using JNum by (auto simp: value_front_def in_range_def)
qed (auto simp: quote_def value_front_def)

lemma comma_Cons: "\<exists>t. comma (x # xs) = x @ t"
  by (cases xs) auto

lemma skip_ws_value: "value_front c \<Longrightarrow> skip_ws (c # t) = c # t"
  by (simp add: value_front_def)

lemma reads_render:
  "renderable j \<Longrightarrow> stops r \<Longrightarrow> reads parse_value (render j @ r) j r"
proof (induction j arbitrary: r)
  case (JNum n)
  then obtain i where i: "n = FormatInt i" by auto
  obtain c cs where c: "FormatInt i = c # cs" "c = CHR ''-'' \<or> in_range 48 57 c"
    by (rule FormatInt_front)
  have "skip_ws (c # cs @ r) = c # cs @ r"
    using c(2) by (auto simp: in_range_def)
  moreover have "c \<noteq> CHR 0x22" "c \<noteq> CHR ''[''" "c \<noteq> CHR ''{''" "c \<noteq> CHR ''n''" "c \<noteq> CHR ''t''" "c \<noteq> CHR ''f''"
    using c(2) by (auto simp: in_range_def)
  moreover have "lex_number (c # cs @ r) = Some (c # cs, r)"
    using lex_number_FormatInt [OF JNum.prems(2), of i] c(1) by simp
  ultimately show ?case
    by (intro readsI [of 0]) (simp add: i c(1) parse_value.simps(2))
next
  case (JStr s)
  then show ?case
    using lex_string_escape [of s r] by (intro readsI [of 0]) (simp add: quote_def parse_value.simps(2))
next
  case (JArr vs)
  show ?case
  proof (cases vs)
    case Nil
    then show ?thesis by (intro readsI [of 0]) (simp add: parse_value.simps(2))
  next
    case (Cons v vs')
    have "reads parse_elems (comma (map render vs) @ CHR '']'' # r) vs r"
      using JArr Cons by (intro reads_elems) auto
    then obtain F where F: "\<forall>f. F \<le> f \<longrightarrow>
        parse_elems f (comma (map render vs) @ CHR '']'' # r) = Some (vs, r)" by (rule readsE)
    obtain c t where c: "render v = c # t" "value_front c"
      using render_front [of v] JArr.prems(1) Cons by auto
    with Cons comma_Cons [of "render v" "map render vs'"] obtain t' where
      front: "comma (map render vs) @ CHR '']'' # r = c # t'" by auto
    with F c(2) show ?thesis
      by (intro readsI [of F]) (simp add: parse_value.simps(2) skip_ws_value, auto simp: value_front_def)
  qed
next
  case (JObj kvs)
  show ?case
  proof (cases kvs)
    case Nil
    then show ?thesis by (intro readsI [of 0]) (simp add: parse_value.simps(2))
  next
    case (Cons kv kvs')
    have "reads parse_members (comma (map render_member kvs) @ CHR ''}'' # r) kvs r"
      using JObj Cons by (intro reads_members) (fastforce simp: snds.simps)+
    then obtain F where F: "\<forall>f. F \<le> f \<longrightarrow>
        parse_members f (comma (map render_member kvs) @ CHR ''}'' # r) = Some (kvs, r)"
      by (rule readsE)
    have "\<exists>t. comma (map render_member kvs) @ CHR ''}'' # r = CHR 0x22 # t"
      using Cons comma_Cons [of "render_member kv" "map render_member kvs'"]
      by (auto simp: quote_def split: prod.split)
    then obtain t' where front: "comma (map render_member kvs) @ CHR ''}'' # r = CHR 0x22 # t'" ..
    with F show ?thesis
      by (intro readsI [of F]) (simp add: parse_value.simps(2))
  qed
qed (intro readsI [of 0], simp add: parse_value.simps(2))+

text \<open>A value that \<open>json.Marshal\<close> renders is read back.\<close>

lemma json_parse_render:
  assumes "renderable j"
  shows "json_parse (render j) = Some j"
proof -
  obtain F where F: "\<forall>f. F \<le> f \<longrightarrow> parse_value f (render j) = Some (j, [])"
    using reads_render [OF assms, of "[]"] by (auto elim: readsE)
  have "parse_value (2 * length (render j) + 2) (render j) =
      parse_value (2 * length (render j) + 2 + F) (render j)"
    using parse_fuel_enough [of "render j" "2 * length (render j) + 2" F] by simp
  with F show ?thesis by (simp add: json_parse_def)
qed

end
