(* ===== verification/Resume_State.thy ===== *)
theory Resume_State
  imports Upload Json_Render "HOL-Library.List_Lexorder" "HOL-Library.Char_ord"
begin

text \<open>
  The resume state of a multipart upload, \<open>multipart_resume.go\<close>: what it records, its JSON
  form, the identity of the source it belongs to, and the check that a state read from the
  cache still describes the upload that is about to start. The map of completed parts is an
  association list with one entry per key; the file has it in the order of the keys, as
  \<open>json.Marshal\<close> writes maps.
\<close>

record resumePart =
  p_ETag :: string
  p_Size :: int64
  p_SHA256 :: string

record resumeState =
  rs_Version :: int
  rs_SourceIdentity :: string
  rs_Size :: int64
  rs_ModTimeNsec :: int64
  rs_ParentID :: string
  rs_EncodedLeaf :: string
  rs_ExistingID :: string
  rs_ExistingRev :: string
  rs_PartSize :: int64
  rs_PartCount :: int64
  rs_Init :: multipartInit
  rs_Completed :: "(string \<times> resumePart) list"

definition multipartResumeVersion :: int where
  "multipartResumeVersion = 3"

section \<open>The source\<close>

definition nul :: string where
  "nul = [CHR 0x00]"

definition identity_bytes :: "'s source \<Rightarrow> string" where
  "identity_bytes src =
     src_config src @ nul @ src_remote src @ nul @ src_fingerprint src @ nul
     @ (case src_id src of Some i \<Rightarrow> i @ nul | None \<Rightarrow> [])"

definition multipartResumeSourceIdentity :: "'s env \<Rightarrow> 's source \<Rightarrow> string" where
  "multipartResumeSourceIdentity E src = sha256 E (identity_bytes src)"

definition UnixNano :: "int \<Rightarrow> int64" where
  "UnixNano ns = i64 ns"

section \<open>New states and the check of an old one\<close>

definition newMultipartResumeState ::
    "string \<Rightarrow> int64 \<Rightarrow> int \<Rightarrow> string \<Rightarrow> string \<Rightarrow> string \<Rightarrow> string \<Rightarrow> int64 \<Rightarrow> int64 \<Rightarrow>
       multipartInit \<Rightarrow> resumeState" where
  "newMultipartResumeState sourceIdentity sz modTime parentID encodedLeaf existingID existingRev
       partSize count init =
     \<lparr>rs_Version = multipartResumeVersion, rs_SourceIdentity = sourceIdentity, rs_Size = sz,
      rs_ModTimeNsec = UnixNano modTime, rs_ParentID = parentID, rs_EncodedLeaf = encodedLeaf,
      rs_ExistingID = existingID, rs_ExistingRev = existingRev, rs_PartSize = partSize,
      rs_PartCount = count, rs_Init = init, rs_Completed = []\<rparr>"

text \<open>\<open>hex.DecodeString\<close>, of which only the length of the result is used.\<close>

fun hex_decoded_length :: "string \<Rightarrow> nat option" where
  "hex_decoded_length [] = Some 0"
| "hex_decoded_length [c] = None"
| "hex_decoded_length (a # b # r) =
     (if hex_val a = None \<or> hex_val b = None then None
      else map_option Suc (hex_decoded_length r))"

definition part_valid :: "int64 \<Rightarrow> int64 \<Rightarrow> int64 \<Rightarrow> string \<Rightarrow> resumePart \<Rightarrow> bool" where
  "part_valid sz partSize count key part =
     (case ParseInt key of
        None \<Rightarrow> False
      | Some n \<Rightarrow>
          if n < 1 \<or> n > count \<or> p_ETag part = [] then False
          else (case hex_decoded_length (p_SHA256 part) of
                  None \<Rightarrow> False
                | Some len \<Rightarrow> len = 32 \<and> p_Size part = chunkLen sz partSize (n - 1)))"

definition validFor ::
    "resumeState \<Rightarrow> string \<Rightarrow> int64 \<Rightarrow> int \<Rightarrow> string \<Rightarrow> string \<Rightarrow> string \<Rightarrow> string \<Rightarrow> int64 \<Rightarrow>
       int64 \<Rightarrow> bool" where
  "validFor s sourceIdentity sz modTime parentID encodedLeaf existingID existingRev partSize count =
     (if rs_Version s \<noteq> multipartResumeVersion
         \<or> rs_SourceIdentity s = [] \<or> rs_SourceIdentity s \<noteq> sourceIdentity
         \<or> rs_Size s \<noteq> sz \<or> rs_ModTimeNsec s \<noteq> UnixNano modTime
         \<or> rs_ParentID s = [] \<or> rs_ParentID s \<noteq> parentID \<or> rs_EncodedLeaf s \<noteq> encodedLeaf
         \<or> rs_ExistingID s \<noteq> existingID \<or> rs_ExistingRev s \<noteq> existingRev
         \<or> rs_PartSize s \<noteq> partSize \<or> rs_PartCount s \<noteq> count
         \<or> \<not> init_complete (rs_Init s)
      then False
      else list_all (\<lambda>(key, part). part_valid sz partSize count key part) (rs_Completed s))"

text \<open>\<open>partInfo\<close> of the state.\<close>

definition partInfo_of :: "resumeState \<Rightarrow> partInfo" where
  "partInfo_of s = map (\<lambda>(key, part). (key, p_ETag part, p_Size part)) (rs_Completed s)"

section \<open>JSON form\<close>

definition init_json :: "multipartInit \<Rightarrow> json" where
  "init_json i =
     JObj [(''docid'', JStr (i_DocID i)), (''rev'', JStr (i_Rev i)),
       (''uploadid'', JStr (i_UploadID i))]"

definition part_json :: "resumePart \<Rightarrow> json" where
  "part_json p =
     JObj [(''etag'', JStr (p_ETag p)), (''size'', JNum (FormatInt (p_Size p))),
       (''sha256'', JStr (p_SHA256 p))]"

definition sorted_parts :: "(string \<times> resumePart) list \<Rightarrow> (string \<times> resumePart) list" where
  "sorted_parts ps = sort_key fst ps"

definition omitempty :: "string \<Rightarrow> string \<Rightarrow> (string \<times> json) list" where
  "omitempty name s = (if s = [] then [] else [(name, JStr s)])"

definition state_json :: "resumeState \<Rightarrow> json" where
  "state_json s =
     JObj ([(''version'', JNum (FormatInt (rs_Version s))),
        (''source_identity'', JStr (rs_SourceIdentity s)),
        (''size'', JNum (FormatInt (rs_Size s))),
        (''mod_time_nsec'', JNum (FormatInt (rs_ModTimeNsec s))),
        (''parent_id'', JStr (rs_ParentID s)), (''encoded_leaf'', JStr (rs_EncodedLeaf s))]
      @ omitempty ''existing_id'' (rs_ExistingID s) @ omitempty ''existing_rev'' (rs_ExistingRev s)
      @ [(''part_size'', JNum (FormatInt (rs_PartSize s))),
        (''part_count'', JNum (FormatInt (rs_PartCount s))), (''init'', init_json (rs_Init s))]
      @ (if rs_Completed s = [] then []
         else [(''completed'',
                JObj (map (\<lambda>(k, p). (k, part_json p)) (sorted_parts (rs_Completed s))))]))"

definition marshal_state :: "resumeState \<Rightarrow> string" where
  "marshal_state s = render (state_json s)"

definition zero_part :: resumePart where
  "zero_part = \<lparr>p_ETag = [], p_Size = 0, p_SHA256 = []\<rparr>"

definition dec_part :: "resumePart \<Rightarrow> json \<Rightarrow> resumePart \<times> bool" where
  "dec_part old j =
     (case struct_entries j of
        None \<Rightarrow> (old, False)
      | Some kvs \<Rightarrow>
          (let (e, a) = dec_field ''etag'' dec_str (p_ETag old) kvs;
               (n, b) = dec_field ''size'' dec_int (p_Size old) kvs;
               (h, c) = dec_field ''sha256'' dec_str (p_SHA256 old) kvs
           in (\<lparr>p_ETag = e, p_Size = n, p_SHA256 = h\<rparr>, a \<and> b \<and> c)))"

text \<open>A map whose keys are counted later is decoded into an association list.\<close>

definition dec_alist ::
    "('a \<Rightarrow> json \<Rightarrow> 'a \<times> bool) \<Rightarrow> 'a \<Rightarrow> (string \<times> 'a) list \<Rightarrow> json \<Rightarrow> (string \<times> 'a) list \<times> bool"
where
  "dec_alist dec zero old j =
     (case j of
        JObj kvs \<Rightarrow> (foldl (\<lambda>m (k, v). AList.update k (fst (dec zero v)) m) old kvs,
                    \<forall>(k, v) \<in> set kvs. snd (dec zero v))
      | JNull \<Rightarrow> ([], True)
      | _ \<Rightarrow> (old, False))"

definition zero_state :: resumeState where
  "zero_state =
     \<lparr>rs_Version = 0, rs_SourceIdentity = [], rs_Size = 0, rs_ModTimeNsec = 0, rs_ParentID = [],
      rs_EncodedLeaf = [], rs_ExistingID = [], rs_ExistingRev = [], rs_PartSize = 0,
      rs_PartCount = 0, rs_Init = zero_init, rs_Completed = []\<rparr>"

definition dec_state :: "resumeState \<Rightarrow> json \<Rightarrow> resumeState \<times> bool" where
  "dec_state old j =
     (case struct_entries j of
        None \<Rightarrow> (old, False)
      | Some kvs \<Rightarrow>
          (let (v, a1) = dec_field ''version'' dec_int (rs_Version old) kvs;
               (si, a2) = dec_field ''source_identity'' dec_str (rs_SourceIdentity old) kvs;
               (sz, a3) = dec_field ''size'' dec_int (rs_Size old) kvs;
               (mt, a4) = dec_field ''mod_time_nsec'' dec_int (rs_ModTimeNsec old) kvs;
               (pa, a5) = dec_field ''parent_id'' dec_str (rs_ParentID old) kvs;
               (el, a6) = dec_field ''encoded_leaf'' dec_str (rs_EncodedLeaf old) kvs;
               (ei, a7) = dec_field ''existing_id'' dec_str (rs_ExistingID old) kvs;
               (er, a8) = dec_field ''existing_rev'' dec_str (rs_ExistingRev old) kvs;
               (ps, a9) = dec_field ''part_size'' dec_int (rs_PartSize old) kvs;
               (pc, b1) = dec_field ''part_count'' dec_int (rs_PartCount old) kvs;
               (it, b2) = dec_field ''init'' dec_init (rs_Init old) kvs;
               (co, b3) = dec_field ''completed'' (dec_alist dec_part zero_part) (rs_Completed old) kvs
           in (\<lparr>rs_Version = v, rs_SourceIdentity = si, rs_Size = sz, rs_ModTimeNsec = mt,
                rs_ParentID = pa, rs_EncodedLeaf = el, rs_ExistingID = ei, rs_ExistingRev = er,
                rs_PartSize = ps, rs_PartCount = pc, rs_Init = it, rs_Completed = co\<rparr>,
               a1 \<and> a2 \<and> a3 \<and> a4 \<and> a5 \<and> a6 \<and> a7 \<and> a8 \<and> a9 \<and> b1 \<and> b2 \<and> b3)))"

text \<open>\<open>json.Unmarshal\<close> of the file; \<open>None\<close> is an error.\<close>

definition unmarshal_state :: "string \<Rightarrow> resumeState option" where
  "unmarshal_state data =
     (case json_parse data of
        None \<Rightarrow> None
      | Some j \<Rightarrow> (case dec_state zero_state j of (s, True) \<Rightarrow> Some s | (_, False) \<Rightarrow> None))"

section \<open>The source identity\<close>

lemma split_at_nul:
  assumes "CHR 0x00 \<notin> set a" and "CHR 0x00 \<notin> set b" and "a @ nul @ r = b @ nul @ q"
  shows "a = b \<and> r = q"
proof -
  have "takeWhile (\<lambda>c. c \<noteq> CHR 0x00) (a @ nul @ r) = a"
    and "takeWhile (\<lambda>c. c \<noteq> CHR 0x00) (b @ nul @ q) = b"
    using assms(1,2) by (auto simp: nul_def takeWhile_tail takeWhile_append2)
  with assms(3) show ?thesis by auto
qed

text \<open>
  C38. The source identity separates sources. Two sources with the same bytes hashed have the
  same configuration string, remote, fingerprint and ID (or both no ID), provided that none of
  these holds a NUL byte: a state is never taken for a different source unless the digest
  itself collides.
\<close>

theorem identity_bytes_inject:
  fixes a b :: "'s source"
  assumes "\<forall>x \<in> {src_config a, src_remote a, src_fingerprint a, src_config b, src_remote b,
      src_fingerprint b}. CHR 0x00 \<notin> set x"
    and "identity_bytes a = identity_bytes b"
  shows "src_config a = src_config b \<and> src_remote a = src_remote b
    \<and> src_fingerprint a = src_fingerprint b \<and> src_id a = src_id b"
proof -
  let ?id = "\<lambda>x :: 's source. case src_id x of Some i \<Rightarrow> i @ nul | None \<Rightarrow> []"
  have nul_free: "CHR 0x00 \<notin> set (src_config a)" "CHR 0x00 \<notin> set (src_config b)"
    "CHR 0x00 \<notin> set (src_remote a)" "CHR 0x00 \<notin> set (src_remote b)"
    "CHR 0x00 \<notin> set (src_fingerprint a)" "CHR 0x00 \<notin> set (src_fingerprint b)"
    using assms(1) by simp_all
  have c: "src_config a = src_config b \<and> src_remote a @ nul @ src_fingerprint a @ nul @ ?id a =
      src_remote b @ nul @ src_fingerprint b @ nul @ ?id b"
    using assms(2) unfolding identity_bytes_def by (rule split_at_nul [OF nul_free(1,2)])
  then have r: "src_remote a = src_remote b \<and> src_fingerprint a @ nul @ ?id a =
      src_fingerprint b @ nul @ ?id b"
    by (intro split_at_nul [OF nul_free(3,4)]) (rule conjunct2)
  then have "src_fingerprint a = src_fingerprint b \<and> ?id a = ?id b"
    by (intro split_at_nul [OF nul_free(5,6)]) (rule conjunct2)
  with c r show ?thesis
    by (auto simp: nul_def split: option.splits)
qed

theorem identity_bytes_inject_witness:
  "src_fingerprint sample_source =
     src_fingerprint (sample_source\<lparr>src_size := 4, src_modTime := 2\<rparr>)"
  using identity_bytes_inject [of sample_source "sample_source\<lparr>src_size := 4, src_modTime := 2\<rparr>"]
  by (simp add: sample_source_def identity_bytes_def)

section \<open>States read back\<close>

text \<open>Field names in lower case match themselves only.\<close>

definition plain_name :: "string \<Rightarrow> bool" where
  "plain_name k \<longleftrightarrow> list_all (\<lambda>c. byte c < 128 \<and> lower_char c = c) k"

lemma EqualFold_plain: "plain_name a \<Longrightarrow> plain_name b \<Longrightarrow> EqualFold a b \<longleftrightarrow> a = b"
proof -
  have "fold_case k = k" if "plain_name k" for k
  proof -
    have "map lower_char k = k"
      using that by (auto simp: plain_name_def list_all_iff intro: map_idI)
    moreover have "list_all (\<lambda>c. byte c < 128) k"
      using that by (auto simp: plain_name_def list_all_iff)
    ultimately show ?thesis by (simp add: fold_case_ascii)
  qed
  then show "plain_name a \<Longrightarrow> plain_name b \<Longrightarrow> EqualFold a b \<longleftrightarrow> a = b"
    by (simp add: EqualFold_def)
qed

lemma plain_names [simp]:
  "plain_name ''version''" "plain_name ''source_identity''" "plain_name ''size''"
  "plain_name ''mod_time_nsec''" "plain_name ''parent_id''" "plain_name ''encoded_leaf''"
  "plain_name ''existing_id''" "plain_name ''existing_rev''" "plain_name ''part_size''"
  "plain_name ''part_count''" "plain_name ''init''" "plain_name ''completed''"
  "plain_name ''docid''" "plain_name ''rev''" "plain_name ''uploadid''"
  "plain_name ''etag''" "plain_name ''sha256''"
  by code_simp+

text \<open>What a state must be for the file to hold it: UTF-8 strings and 64-bit numbers.\<close>

definition wf_init :: "multipartInit \<Rightarrow> bool" where
  "wf_init i \<longleftrightarrow> utf8_valid (i_DocID i) \<and> utf8_valid (i_Rev i) \<and> utf8_valid (i_UploadID i)"

definition wf_part :: "resumePart \<Rightarrow> bool" where
  "wf_part p \<longleftrightarrow> utf8_valid (p_ETag p) \<and> in_i64 (p_Size p) \<and> utf8_valid (p_SHA256 p)"

definition wf_state :: "resumeState \<Rightarrow> bool" where
  "wf_state s \<longleftrightarrow>
     in_i64 (rs_Version s) \<and> utf8_valid (rs_SourceIdentity s) \<and> in_i64 (rs_Size s)
     \<and> in_i64 (rs_ModTimeNsec s) \<and> utf8_valid (rs_ParentID s) \<and> utf8_valid (rs_EncodedLeaf s)
     \<and> utf8_valid (rs_ExistingID s) \<and> utf8_valid (rs_ExistingRev s) \<and> in_i64 (rs_PartSize s)
     \<and> in_i64 (rs_PartCount s) \<and> wf_init (rs_Init s) \<and> distinct (map fst (rs_Completed s))
     \<and> (\<forall>(k, p) \<in> set (rs_Completed s). utf8_valid k \<and> wf_part p)"

lemma dec_init_json [simp]: "dec_init old (init_json i) = (i, True)"
  by (simp add: dec_init_def init_json_def struct_entries_def EqualFold_plain dec_str_def)

lemma dec_part_json [simp]: "in_i64 (p_Size p) \<Longrightarrow> dec_part old (part_json p) = (p, True)"
  by (simp add: dec_part_def part_json_def struct_entries_def EqualFold_plain dec_str_def dec_int_def)

lemma foldl_update_fresh:
  "distinct (map fst acc @ map fst kvs) \<Longrightarrow>
     foldl (\<lambda>m (k, v). AList.update k (g v) m) acc kvs = acc @ map (\<lambda>(k, v). (k, g v)) kvs"
proof (induction kvs arbitrary: acc)
  case (Cons kv kvs)
  obtain k v where kv: "kv = (k, v)" by (cases kv)
  then have "AList.update k (g v) acc = acc @ [(k, g v)]"
    using Cons.prems by (intro update_fresh) auto
  with Cons kv show ?case by simp
qed simp

lemma dec_completed_json:
  assumes "distinct (map fst ps)" and "\<forall>(k, p) \<in> set ps. in_i64 (p_Size p)"
  shows "dec_alist dec_part zero_part [] (JObj (map (\<lambda>(k, p). (k, part_json p)) ps)) = (ps, True)"
proof -
  let ?kvs = "map (\<lambda>(k, p). (k, part_json p)) ps"
  have "foldl (\<lambda>m (k, v). AList.update k (fst (dec_part zero_part v)) m) [] ?kvs =
      map (\<lambda>(k, v). (k, fst (dec_part zero_part v))) ?kvs"
    using assms(1) foldl_update_fresh [of "[]" ?kvs "\<lambda>v. fst (dec_part zero_part v)"]
    by (simp add: case_prod_unfold comp_def)
  also have "\<dots> = ps"
    using assms(2) by (auto simp: comp_def case_prod_unfold intro!: map_idI)
  finally show ?thesis
    using assms(2) by (auto simp: dec_alist_def)
qed

lemma dec_state_json:
  assumes "wf_state s"
  shows "dec_state zero_state (state_json s) =
    (s\<lparr>rs_Completed := sorted_parts (rs_Completed s)\<rparr>, True)"
proof -
  have "distinct (map fst (sorted_parts (rs_Completed s)))"
    and "\<forall>(k, p) \<in> set (sorted_parts (rs_Completed s)). in_i64 (p_Size p)"
    using assms by (auto simp: sorted_parts_def wf_state_def wf_part_def distinct_map)
  note completed = dec_completed_json [OF this]
  have ints: "in_i64 (rs_Version s)" "in_i64 (rs_Size s)" "in_i64 (rs_ModTimeNsec s)"
    "in_i64 (rs_PartSize s)" "in_i64 (rs_PartCount s)"
    using assms by (simp_all add: wf_state_def)
  show ?thesis
    unfolding dec_state_def state_json_def omitempty_def struct_entries_def zero_state_def
    by (cases "rs_ExistingID s = []"; cases "rs_ExistingRev s = []"; cases "rs_Completed s = []")
      (simp_all add: EqualFold_plain dec_int_def dec_str_def ints completed [unfolded sorted_parts_def] sorted_parts_def)
qed

lemma utf8_valid_ascii: "list_all (\<lambda>c. byte c < 128) s \<Longrightarrow> utf8_valid s"
  by (induction s) (simp_all add: utf8_valid.simps [of "c # s" for c s] utf8_valid.simps [of "[]"]
      utf8_len_def)

lemma plain_name_valid [simp]: "plain_name k \<Longrightarrow> utf8_valid k"
  by (rule utf8_valid_ascii) (auto simp: plain_name_def list_all_iff)

lemma renderable_int: "renderable (JNum (FormatInt n))"
  by auto

lemma renderable_init: "wf_init i \<Longrightarrow> renderable (init_json i)"
  by (simp add: wf_init_def init_json_def)

lemma renderable_part: "wf_part p \<Longrightarrow> renderable (part_json p)"
  unfolding part_json_def wf_part_def renderable.simps(6) by (simp add: renderable_int del: renderable.simps(3))

lemma renderable_state:
  assumes "wf_state s"
  shows "renderable (state_json s)"
proof -
  have "renderable (JObj (map (\<lambda>(k, p). (k, part_json p)) (sorted_parts (rs_Completed s))))"
    using assms by (auto simp: wf_state_def sorted_parts_def renderable_part)
  with assms show ?thesis
    unfolding state_json_def omitempty_def wf_state_def renderable.simps(6) [of "x @ y" for x y]
    by (simp add: renderable_init renderable_int del: renderable.simps(3,6))
qed

text \<open>
  C21. Resume states survive the file. A state of valid strings and 64-bit numbers that is
  written with \<open>json.Marshal\<close> and read with \<open>json.Unmarshal\<close> comes back with every field the
  same and its completed parts sorted by key.
\<close>

theorem unmarshal_marshal_state:
  assumes "wf_state s"
  shows "unmarshal_state (marshal_state s) = Some (s\<lparr>rs_Completed := sorted_parts (rs_Completed s)\<rparr>)"
  using json_parse_render [OF renderable_state [OF assms]] dec_state_json [OF assms]
  by (simp add: unmarshal_state_def marshal_state_def)

definition sample_state :: resumeState where
  "sample_state =
     \<lparr>rs_Version = 3, rs_SourceIdentity = ''5e'', rs_Size = 3, rs_ModTimeNsec = -1, rs_ParentID = ''P'',
      rs_EncodedLeaf = ''a\"<b'', rs_ExistingID = [], rs_ExistingRev = [], rs_PartSize = 2,
      rs_PartCount = 2, rs_Init = sample_init,
      rs_Completed = [(''2'', \<lparr>p_ETag = ''x'', p_Size = 1, p_SHA256 = ''00''\<rparr>),
        (''1'', \<lparr>p_ETag = ''y'', p_Size = 2, p_SHA256 = ''01''\<rparr>)]\<rparr>"

lemma wf_sample_state: "wf_state sample_state"
  by (simp add: sample_state_def wf_state_def wf_init_def wf_part_def in_i64_def utf8_valid_ascii)

theorem unmarshal_marshal_state_witness:
  "map_option (\<lambda>s. map fst (rs_Completed s)) (unmarshal_state (marshal_state sample_state)) =
     Some [''1'', ''2'']"
proof -
  have "unmarshal_state (marshal_state sample_state) =
      Some (sample_state\<lparr>rs_Completed := sorted_parts (rs_Completed sample_state)\<rparr>)"
    using wf_sample_state by (rule unmarshal_marshal_state)
  moreover have "map fst (sorted_parts (rs_Completed sample_state)) = [''1'', ''2'']"
    by code_simp
  ultimately show ?thesis by simp
qed

end
