(* ===== verification/Resume_Store.thy ===== *)
theory Resume_Store
  imports Resume_State
begin

text \<open>
  The store of resume states, \<open>multipart_resume.go\<close>: a file per destination under the cache
  directory, guarded by a lock of the \<open>flock\<close> package for as long as a writer uses it. The
  locale \<open>resume_store\<close> is the contract the chunk writer relies on; the model of the code
  provides it on every platform where renaming replaces a file.
\<close>

text \<open>
  \<open>st_path\<close> is \<open>None\<close> for a store that is not enabled; \<open>st_lock\<close> is the path of the lock and
  \<open>st_released\<close> tells whether \<open>releaseOnce\<close> has run.
\<close>

record resumeStore =
  st_path :: "string option"
  st_lock :: string
  st_released :: bool

definition disabled_store :: resumeStore where
  "disabled_store = \<lparr>st_path = None, st_lock = [], st_released = False\<rparr>"

definition multipartResumeRemote :: "Fs \<Rightarrow> string \<Rightarrow> string" where
  "multipartResumeRemote f remote =
     (if fs_root f = [] then Clean remote else PathJoin (fs_root f) remote)"

definition store_identity :: "Fs \<Rightarrow> string \<Rightarrow> string" where
  "store_identity f remote =
     fs_base_url f @ nul @ fs_name f @ nul @ multipartResumeRemote f remote"

definition openMultipartResumeStore :: "'s env \<Rightarrow> Fs \<Rightarrow> string \<Rightarrow> ('s, resumeStore) act" where
  "openMultipartResumeStore E f remote =
     (if fs_resume_dir f = [] then ok disabled_store
      else inspect (io E ''mkdirall'' (fs_resume_dir f)) (\<lambda>r. case r of
        Inl _ \<Rightarrow> ok disabled_store
      | Inr _ \<Rightarrow>
          (let k = sha256 E (store_identity f remote);
               lock = PathJoin (fs_resume_dir f) (k @ ''.lock'')
           in inspect (on_disk (\<lambda>s m. case try_lock E lock s of (x, s') \<Rightarrow> (x, s', m))) (\<lambda>r. case r of
                Inl _ \<Rightarrow> ok disabled_store
              | Inr locked \<Rightarrow>
                  if \<not> locked then ok disabled_store
                  else ok \<lparr>st_path = Some (PathJoin (fs_resume_dir f) (k @ ''.json'')),
                           st_lock = lock, st_released = False\<rparr>))))"

definition release :: "'s env \<Rightarrow> resumeStore \<Rightarrow> ('s, resumeStore) act" where
  "release E st =
     (if st_path st = None \<or> st_released st then ok st
      else andThen (tell (unlock E (st_lock st))) (\<lambda>_. ok (st\<lparr>st_released := True\<rparr>)))"

text \<open>\<open>os.Remove\<close>: \<open>True\<close> is success, \<open>False\<close> that there is no such file.\<close>

definition os_remove :: "'s env \<Rightarrow> string \<Rightarrow> ('s, bool) act" where
  "os_remove E p =
     andThen (io E ''remove'' p) (\<lambda>_. on_disk (\<lambda>s m.
       if m p = None then (Inr False, s, m) else (Inr True, s, m(p := None))))"

definition store_remove :: "'s env \<Rightarrow> resumeStore \<Rightarrow> ('s, unit) act" where
  "store_remove E st =
     (case st_path st of
        None \<Rightarrow> ok ()
      | Some p \<Rightarrow> andThen (os_remove E p) (\<lambda>_. ok ()))"

definition os_read :: "'s env \<Rightarrow> string \<Rightarrow> ('s, string option) act" where
  "os_read E p = andThen (io E ''read'' p) (\<lambda>_. on_disk (\<lambda>s m. (Inr (m p), s, m)))"

definition store_load :: "'s env \<Rightarrow> resumeStore \<Rightarrow> ('s, resumeState option) act" where
  "store_load E st =
     (case st_path st of
        None \<Rightarrow> ok None
      | Some p \<Rightarrow>
          andThen (os_read E p) (\<lambda>data. case data of
            None \<Rightarrow> ok None
          | Some d \<Rightarrow>
              (case unmarshal_state d of
                 Some s \<Rightarrow> ok (Some s)
               | None \<Rightarrow>
                   inspect (store_remove E st) (\<lambda>_.
                     throw (Errorf ''decode multipart resume state: %w'' [] [] [Foreign ''json''])))))"

section \<open>Saving\<close>

text \<open>\<open>filepath.Dir\<close>.\<close>

definition Dir :: "string \<Rightarrow> string" where
  "Dir p = (case LastIndex CHR ''/'' p of None \<Rightarrow> Clean [] | Some i \<Rightarrow> Clean (take (i + 1) p))"

definition temp_path :: "'s env \<Rightarrow> string \<Rightarrow> 's \<Rightarrow> string" where
  "temp_path E dir s =
     PathJoin dir (''.multipart-resume-'' @ FormatInt (int (random E s)) @ ''.tmp'')"

definition create_temp :: "'s env \<Rightarrow> string \<Rightarrow> ('s, string) act" where
  "create_temp E dir =
     andThen (io E ''createtemp'' dir) (\<lambda>_. on_disk (\<lambda>s m.
       (Inr (temp_path E dir s), s, m(temp_path E dir s \<mapsto> []))))"

text \<open>A failed write may leave any part of the data behind; nothing is read of it later.\<close>

definition os_write :: "'s env \<Rightarrow> string \<Rightarrow> string \<Rightarrow> ('s, unit) act" where
  "os_write E p d = andThen (io E ''write'' p) (\<lambda>_. on_disk (\<lambda>s m. (Inr (), s, m(p \<mapsto> d))))"

definition os_rename :: "'s env \<Rightarrow> string \<Rightarrow> string \<Rightarrow> ('s, unit) act" where
  "os_rename E a b =
     andThen (io E ''rename'' b) (\<lambda>_. on_disk (\<lambda>s m. (Inr (), s, (m(a := None))(b := m a))))"

text \<open>The body of \<open>save\<close> between creating the temporary file and the deferred removal of it.\<close>

definition save_temp :: "'s env \<Rightarrow> string \<Rightarrow> string \<Rightarrow> string \<Rightarrow> ('s, unit) act" where
  "save_temp E tmp p data =
     andThen (io E ''chmod'' tmp) (\<lambda>_.
     andThen (os_write E tmp data) (\<lambda>_.
     andThen (io E ''sync'' tmp) (\<lambda>_.
     andThen (io E ''close'' tmp) (\<lambda>_.
     inspect (os_rename E tmp p) (\<lambda>r. case r of
       Inr _ \<Rightarrow> ok ()
     | Inl e \<Rightarrow>
         if \<not> windows E then throw e
         else andThen (os_remove E p) (\<lambda>_. os_rename E tmp p))))))"

definition store_save :: "'s env \<Rightarrow> resumeStore \<Rightarrow> resumeState \<Rightarrow> ('s, unit) act" where
  "store_save E st state =
     (case st_path st of
        None \<Rightarrow> ok ()
      | Some p \<Rightarrow>
          andThen (create_temp E (Dir p)) (\<lambda>tmp.
          inspect (save_temp E tmp p (marshal_state state)) (\<lambda>r.
          inspect (os_remove E tmp) (\<lambda>_. lift r))))"

section \<open>The store sends nothing\<close>

lemma store_sends [runs_rules, simp]:
  "sends P (os_remove E p)" "sends P (os_read E p)" "sends P (create_temp E d)"
  "sends P (os_write E p x)" "sends P (os_rename E p q)"
  unfolding os_remove_def os_read_def create_temp_def os_write_def os_rename_def
  by (intro runs_rules)+

lemma resume_store_sends [runs_rules, simp]:
  "sends P (store_remove E st)" "sends P (store_load E st)" "sends P (store_save E st s)"
  "sends P (release E st)" "sends P (openMultipartResumeStore E f remote)"
  unfolding store_remove_def store_load_def store_save_def save_temp_def release_def
    openMultipartResumeStore_def Let_def
  by (intro runs_rules)+

section \<open>What is in the file\<close>

text \<open>A store whose file is not the temporary file of a save, and the state that its file holds.\<close>

definition wf_store :: "resumeStore \<Rightarrow> bool" where
  "wf_store st \<longleftrightarrow> (\<forall>p. st_path st = Some p \<longrightarrow> suffix ''.json'' p)"

definition stored :: "resumeStore \<Rightarrow> 's world \<Rightarrow> resumeState option" where
  "stored st w =
     (case st_path st of
        None \<Rightarrow> None
      | Some p \<Rightarrow> (case files w p of None \<Rightarrow> None | Some d \<Rightarrow> unmarshal_state d))"

lemma temp_path_not_json:
  assumes "suffix ''.json'' p"
  shows "temp_path E dir s \<noteq> p"
proof
  assume "temp_path E dir s = p"
  let ?x = "''.multipart-resume-'' @ FormatInt (int (random E s)) @ ''.tmp''"
  have "CHR ''/'' \<notin> set (FormatInt (int (random E s)))"
    using dec_digits_range [of "int (random E s)"] by (auto simp: FormatInt_def list_all_iff in_range_def)
  then have "plain_component ?x" by (simp add: plain_component_def)
  then have "suffix ?x p"
    using PathJoin_suffix [of ?x dir] \<open>temp_path E dir s = p\<close> by (simp add: temp_path_def)
  then have "suffix ''.tmp'' p"
    by (auto simp: suffix_def)
  with assms show False
    by (auto simp: suffix_def append_eq_append_conv2 append_eq_Cons_conv)
qed

text \<open>The operations on single files, with the content of one file before and after.\<close>

abbreviation holds :: "string \<Rightarrow> string option \<Rightarrow> 's world \<Rightarrow> bool" where
  "holds p v w \<equiv> files w p = v"

lemma io_then:
  assumes "leads (\<lambda>w. P (files w)) m Q" and "\<And>e w. P (files w) \<Longrightarrow> Q (Inl e) w"
  shows "leads (\<lambda>w. P (files w)) (andThen (io E op q) (\<lambda>_. m)) Q"
  by (rule leads_andThen [where R = "\<lambda>_ w. P (files w)"], rule leads_io)
    (auto intro: assms split: sum.split)

lemma os_write_holds:
  "q \<noteq> p \<Longrightarrow> leads (holds p v) (os_write E q d)
     (\<lambda>r w. holds p v w \<and> (r = Inr () \<longrightarrow> holds q (Some d) w))"
  unfolding os_write_def by (rule io_then) (auto intro!: leads_on_disk)

lemma os_rename_holds:
  "q \<noteq> p \<Longrightarrow> leads (\<lambda>w. holds p v w \<and> holds q d w) (os_rename E q p)
     (\<lambda>r w. case r of Inr _ \<Rightarrow> holds p d w | Inl _ \<Rightarrow> holds p v w \<and> holds q d w)"
  unfolding os_rename_def
  by (rule io_then [where P = "\<lambda>m. m p = v \<and> m q = d"]) (auto intro!: leads_on_disk)

lemma os_remove_other: "q \<noteq> p \<Longrightarrow> leads (holds p v) (os_remove E q) (\<lambda>r. holds p v)"
  unfolding os_remove_def by (rule io_then) (auto intro!: leads_on_disk split: if_splits)

lemma os_remove_holds:
  "leads (\<lambda>w. holds p v w \<and> P (files w q)) (os_remove E p)
     (\<lambda>r w. case r of Inr _ \<Rightarrow> holds p None w \<and> (q \<noteq> p \<longrightarrow> P (files w q))
       | Inl _ \<Rightarrow> holds p v w \<and> P (files w q))"
  unfolding os_remove_def
  by (rule io_then [where P = "\<lambda>m. m p = v \<and> P (m q)"]) (auto intro!: leads_on_disk split: if_splits)

text \<open>
  A save leaves the file with the new state when it succeeds and as it was when it fails; where
  renaming does not replace a file, a failed save may leave no file.
\<close>

definition save_result ::
    "'s env \<Rightarrow> string \<Rightarrow> string option \<Rightarrow> string \<Rightarrow> goerr + unit \<Rightarrow> 's world \<Rightarrow> bool" where
  "save_result E p v d r w \<longleftrightarrow>
     (case r of Inr _ \<Rightarrow> holds p (Some d) w
      | Inl _ \<Rightarrow> holds p v w \<or> windows E \<and> holds p None w)"

lemma save_replace_result:
  assumes "tmp \<noteq> p"
  shows "leads (\<lambda>w. holds p v w \<and> holds tmp (Some d) w)
    (inspect (os_rename E tmp p) (\<lambda>r. case r of
       Inr _ \<Rightarrow> ok ()
     | Inl e \<Rightarrow> if \<not> windows E then throw e
         else andThen (os_remove E p) (\<lambda>_. os_rename E tmp p)))
    (save_result E p v d)"
proof (rule leads_inspect, rule os_rename_holds [OF assms])
  have again: "leads (\<lambda>w. holds p None w \<and> holds tmp (Some d) w) (os_rename E tmp p) (save_result E p v d)"
    if "windows E"
    using that by (intro leads_mono [OF os_rename_holds [OF assms]])
      (auto simp: save_result_def split: sum.splits)
  have "leads (\<lambda>w. holds p v w \<and> holds tmp (Some d) w) (andThen (os_remove E p) (\<lambda>_. os_rename E tmp p))
      (save_result E p v d)" if "windows E"
    by (rule leads_andThen, rule leads_mono,
        rule os_remove_holds [where P = "\<lambda>x. x = Some d" and q = tmp], assumption)
      (use assms again [OF that] in \<open>auto simp: save_result_def split: sum.splits\<close>)
  then show "leads (\<lambda>w. case r of Inr _ \<Rightarrow> holds p (Some d) w | Inl _ \<Rightarrow> holds p v w \<and> holds tmp (Some d) w)
    (case r of Inr _ \<Rightarrow> ok () | Inl e \<Rightarrow> if \<not> windows E then throw e
       else andThen (os_remove E p) (\<lambda>_. os_rename E tmp p)) (save_result E p v d)" for r
    by (cases r) (auto intro!: leads_ok leads_throw simp: save_result_def)
qed

lemma save_result_Inl: "holds p v w \<Longrightarrow> save_result E p v d (Inl e) w"
  by (simp add: save_result_def)

lemma save_temp_result:
  assumes "tmp \<noteq> p"
  shows "leads (holds p v) (save_temp E tmp p d) (save_result E p v d)"
proof -
  let ?both = "\<lambda>m. m p = v \<and> m tmp = Some d"
  have tail: "leads (\<lambda>w. ?both (files w)) (andThen (io E ''sync'' tmp) (\<lambda>_.
     andThen (io E ''close'' tmp) (\<lambda>_.
     inspect (os_rename E tmp p) (\<lambda>r. case r of
       Inr _ \<Rightarrow> ok ()
     | Inl e \<Rightarrow> if \<not> windows E then throw e
         else andThen (os_remove E p) (\<lambda>_. os_rename E tmp p))))) (save_result E p v d)"
    by (rule io_then [where P = ?both], rule io_then [where P = ?both],
        rule save_replace_result [OF assms]) (simp_all add: save_result_Inl)
  show ?thesis
    unfolding save_temp_def
    by (rule io_then, rule leads_andThen [OF _ tail], rule leads_mono,
        rule os_write_holds [OF assms]) (auto simp: save_result_Inl split: sum.splits)
qed

lemma os_remove_after_save:
  "tmp \<noteq> p \<Longrightarrow> leads (save_result E p v d r) (os_remove E tmp) (\<lambda>_. save_result E p v d r)"
  using os_remove_other [of tmp p _ E]
  by (auto simp: leads_def save_result_def split: sum.splits)

lemma create_temp_holds:
  assumes "suffix ''.json'' p"
  shows "leads (holds p v) (create_temp E dir)
    (\<lambda>r w. holds p v w \<and> (\<forall>tmp. r = Inr tmp \<longrightarrow> tmp \<noteq> p))"
  unfolding create_temp_def
  by (rule io_then) (auto intro!: leads_on_disk simp: temp_path_not_json [OF assms]
        temp_path_not_json [OF assms, symmetric])

lemma store_save_result:
  assumes "st_path st = Some p" and "wf_store st"
  shows "leads (holds p v) (store_save E st s) (save_result E p v (marshal_state s))"
proof -
  have json: "suffix ''.json'' p" using assms by (simp add: wf_store_def)
  have body: "leads (\<lambda>w. holds p v w \<and> tmp \<noteq> p)
    (inspect (save_temp E tmp p d) (\<lambda>r. inspect (os_remove E tmp) (\<lambda>_. lift r)))
    (save_result E p v d)" for tmp d
  proof (cases "tmp = p")
    case False
    have "leads (holds p v) (inspect (save_temp E tmp p d) (\<lambda>r. inspect (os_remove E tmp) (\<lambda>_. lift r)))
      (save_result E p v d)"
      by (rule leads_inspect, rule save_temp_result [OF False], rule leads_inspect,
          rule os_remove_after_save [OF False], rule leads_lift)
    with False show ?thesis by simp
  qed (simp add: leads_def)
  show ?thesis
    unfolding store_save_def assms(1) option.case
    by (rule leads_andThen [OF _ body], rule leads_mono, rule create_temp_holds [OF json])
      (auto simp: save_result_Inl split: sum.splits)
qed

lemma store_remove_result:
  assumes "st_path st = Some p"
  shows "leads (holds p v) (store_remove E st)
    (\<lambda>r w. case r of Inr _ \<Rightarrow> holds p None w | Inl _ \<Rightarrow> holds p v w)"
  unfolding store_remove_def assms option.case
  by (rule leads_andThen [where R = "\<lambda>_. holds p None"], rule leads_mono,
      rule os_remove_holds [where P = "\<lambda>_. True" and q = p])
    (auto intro!: leads_ok split: sum.splits)

section \<open>The contract of a store\<close>

text \<open>
  A store keeps one state. \<open>save\<close> and \<open>remove\<close> tell whether they succeeded; \<open>good\<close> are the
  states it can hold and \<open>norm\<close> is the form they come back in.
\<close>

datatype 'x store_op = Save 'x | Remove

text \<open>The content after a sequence of operations, of which \<open>bs\<close> tells which succeeded.\<close>

fun replay :: "('x \<Rightarrow> 'x) \<Rightarrow> 'x store_op list \<Rightarrow> bool list \<Rightarrow> 'x option \<Rightarrow> 'x option" where
  "replay norm (Save x # os) (b # bs) c = replay norm os bs (if b then Some (norm x) else c)"
| "replay norm (Remove # os) (b # bs) c = replay norm os bs (if b then None else c)"
| "replay norm _ _ c = c"

fun run_ops ::
    "('x \<Rightarrow> 'w \<Rightarrow> bool \<times> 'w) \<Rightarrow> ('w \<Rightarrow> bool \<times> 'w) \<Rightarrow> 'x store_op list \<Rightarrow> 'w \<Rightarrow> bool list \<times> 'w" where
  "run_ops save remove [] w = ([], w)"
| "run_ops save remove (opn # os) w =
     (let (b, w') = (case opn of Save x \<Rightarrow> save x w | Remove \<Rightarrow> remove w);
          (bs, w'') = run_ops save remove os w'
      in (b # bs, w''))"

locale resume_store =
  fixes valid :: "'c \<Rightarrow> bool"
    and content :: "'c \<Rightarrow> 'w \<Rightarrow> 'x option"
    and save :: "'c \<Rightarrow> 'x \<Rightarrow> 'w \<Rightarrow> bool \<times> 'w"
    and remove :: "'c \<Rightarrow> 'w \<Rightarrow> bool \<times> 'w"
    and good :: "'x \<Rightarrow> bool"
    and norm :: "'x \<Rightarrow> 'x"
  assumes save_True:
      "valid c \<Longrightarrow> good x \<Longrightarrow> save c x w = (True, w') \<Longrightarrow> content c w' = Some (norm x)"
    and save_False: "valid c \<Longrightarrow> save c x w = (False, w') \<Longrightarrow> content c w' = content c w"
    and remove_True: "valid c \<Longrightarrow> remove c w = (True, w') \<Longrightarrow> content c w' = None"
    and remove_False: "valid c \<Longrightarrow> remove c w = (False, w') \<Longrightarrow> content c w' = content c w"
begin

lemma step:
  "valid c \<Longrightarrow> (\<And>x. opn = Save x \<Longrightarrow> good x) \<Longrightarrow>
     (case opn of Save x \<Rightarrow> save c x w | Remove \<Rightarrow> remove c w) = (b, w') \<Longrightarrow>
     content c w' = replay norm [opn] [b] (content c w)"
  by (cases opn; cases b) (auto dest: save_True save_False remove_True remove_False)

lemma history:
  "valid c \<Longrightarrow> \<forall>x. Save x \<in> set os \<longrightarrow> good x \<Longrightarrow>
     run_ops (save c) (remove c) os w = (bs, w') \<Longrightarrow> content c w' = replay norm os bs (content c w)"
proof (induction os arbitrary: w bs)
  case (Cons opn os)
  obtain b w1 where 1: "(case opn of Save x \<Rightarrow> save c x w | Remove \<Rightarrow> remove c w) = (b, w1)"
    by fastforce
  with Cons.prems obtain cs where 2: "run_ops (save c) (remove c) os w1 = (cs, w')" "bs = b # cs"
    by (auto split: prod.splits)
  have "content c w1 = replay norm [opn] [b] (content c w)"
    using 1 Cons.prems(1,2) by (intro step) auto
  with Cons.IH [OF _ _ 2(1)] Cons.prems(1,2) 2(2) show ?case by (cases opn) auto
qed simp

text \<open>Nothing but a saved state is ever in the store.\<close>

lemma content_saved:
  "valid c \<Longrightarrow> \<forall>x. Save x \<in> set os \<longrightarrow> good x \<Longrightarrow>
     run_ops (save c) (remove c) os w = (bs, w') \<Longrightarrow> content c w' = Some y \<Longrightarrow>
     content c w = Some y \<or> (\<exists>x. Save x \<in> set os \<and> y = norm x)"
proof (induction os arbitrary: w bs)
  case (Cons opn os)
  obtain b w1 where 1: "(case opn of Save x \<Rightarrow> save c x w | Remove \<Rightarrow> remove c w) = (b, w1)"
    by fastforce
  with Cons.prems obtain cs where 2: "run_ops (save c) (remove c) os w1 = (cs, w')"
    by (auto split: prod.splits)
  have "content c w1 = replay norm [opn] [b] (content c w)"
    using 1 Cons.prems(1,2) by (intro step) auto
  then have "content c w1 = Some y \<Longrightarrow> content c w = Some y \<or> (\<exists>x. opn = Save x \<and> y = norm x)"
    by (cases opn) (auto split: if_splits)
  with Cons.IH [OF _ _ 2 Cons.prems(4)] Cons.prems(1,2) show ?case by auto
qed simp

end

section \<open>The file store keeps the contract\<close>

text \<open>The operations of one store with their results as success or failure.\<close>

definition saves :: "'s env \<Rightarrow> resumeStore \<Rightarrow> resumeState \<Rightarrow> 's world \<Rightarrow> bool \<times> 's world" where
  "saves E st s w = (case store_save E st s w of (r, w') \<Rightarrow> (\<not> isl r, w'))"

definition removes :: "'s env \<Rightarrow> resumeStore \<Rightarrow> 's world \<Rightarrow> bool \<times> 's world" where
  "removes E st w = (case store_remove E st w of (r, w') \<Rightarrow> (\<not> isl r, w'))"

definition read_back :: "resumeState \<Rightarrow> resumeState" where
  "read_back s = s\<lparr>rs_Completed := sorted_parts (rs_Completed s)\<rparr>"

text \<open>An enabled store on a platform where renaming replaces a file.\<close>

definition file_store :: "'s env \<Rightarrow> resumeStore \<Rightarrow> bool" where
  "file_store E st \<longleftrightarrow> st_path st \<noteq> None \<and> wf_store st \<and> \<not> windows E"

lemma saves_content:
  assumes "file_store E st" and "saves E st s w = (b, w')"
  shows "b \<Longrightarrow> wf_state s \<Longrightarrow> stored st w' = Some (read_back s)" and "\<not> b \<Longrightarrow> stored st w' = stored st w"
proof -
  obtain p where p: "st_path st = Some p" and wf: "wf_store st" and nw: "\<not> windows E"
    using assms(1) by (auto simp: file_store_def)
  obtain r where r: "store_save E st s w = (r, w')" "b = (\<not> isl r)"
    using assms(2) by (auto simp: saves_def split: prod.splits)
  from leadsD [OF store_save_result [OF p wf] r(1)]
  have "save_result E p (files w p) (marshal_state s) r w'" by simp
  with nw r(2) p show "b \<Longrightarrow> wf_state s \<Longrightarrow> stored st w' = Some (read_back s)"
    and "\<not> b \<Longrightarrow> stored st w' = stored st w"
    using unmarshal_marshal_state [of s]
    by (auto simp: save_result_def stored_def read_back_def split: sum.splits)
qed

lemma removes_content:
  assumes "file_store E st" and "removes E st w = (b, w')"
  shows "stored st w' = (if b then None else stored st w)"
proof -
  obtain p where p: "st_path st = Some p" using assms(1) by (auto simp: file_store_def)
  obtain r where r: "store_remove E st w = (r, w')" "b = (\<not> isl r)"
    using assms(2) by (auto simp: removes_def split: prod.splits)
  from leadsD [OF store_remove_result [OF p] r(1)] r(2) p show ?thesis
    by (auto simp: stored_def split: sum.splits)
qed

interpretation filed: resume_store "\<lambda>(E, st). file_store E st" "\<lambda>(E, st). stored st"
    "\<lambda>(E, st). saves E st" "\<lambda>(E, st). removes E st" wf_state read_back
  by unfold_locales (auto dest: saves_content removes_content)


definition sample_store :: resumeStore where
  "sample_store = \<lparr>st_path = Some ''/c/k.json'', st_lock = ''/c/k.lock'', st_released = False\<rparr>"


end
