(* ===== verification/Chunk_Writer.thy ===== *)
theory Chunk_Writer
  imports Fs_Objects Resume_Store
begin

text \<open>
  The chunk writer of \<open>chunk_writer.go\<close>, which maps rclone's concurrent multi-thread upload to
  a multipart session: opening it, with the resumption of an interrupted upload, writing a
  chunk, closing and aborting. What a method does while it holds the mutex is a definition of
  its own, so that \<open>Chunk_Writer_Steps\<close> can interleave these sections; here every method runs
  alone.
\<close>

definition defaultUploadConcurrency :: int where
  "defaultUploadConcurrency = 4"

record 's writer =
  cw_init :: multipartInit
  cw_existingRev :: string
  cw_syncPreconditioned :: bool
  cw_size :: int64
  cw_partSize :: int64
  cw_partCount :: int64
  cw_signedParts :: signedParts
  cw_resumeSource :: "(int \<Rightarrow> int \<Rightarrow> 's \<Rightarrow> (goerr + string \<times> goerr option) \<times> 's) option"
  cw_partInfo :: partInfo
  cw_closed :: bool
  cw_aborted :: bool
  cw_resumeInvalid :: bool
  cw_resumeStore :: resumeStore
  cw_resumeState :: "resumeState option"

section \<open>Opening\<close>

text \<open>What the upload is of, as the state and the requests need it.\<close>

record target =
  t_identity :: string
  t_size :: int64
  t_modTime :: int
  t_parentID :: string
  t_leaf :: string  \<comment> \<open>encoded\<close>
  t_existingID :: string
  t_existingRev :: string
  t_partSize :: int64
  t_partCount :: int64
  t_preconditioned :: bool

definition new_state :: "target \<Rightarrow> multipartInit \<Rightarrow> resumeState" where
  "new_state t init =
     newMultipartResumeState (t_identity t) (t_size t) (t_modTime t) (t_parentID t) (t_leaf t)
       (t_existingID t) (t_existingRev t) (t_partSize t) (t_partCount t) init"

definition valid_for_target :: "target \<Rightarrow> resumeState \<Rightarrow> bool" where
  "valid_for_target t s =
     validFor s (t_identity t) (t_size t) (t_modTime t) (t_parentID t) (t_leaf t)
       (t_existingID t) (t_existingRev t) (t_partSize t) (t_partCount t)"

definition startFresh :: "'s env \<Rightarrow> target \<Rightarrow> ('s, multipartInit) act" where
  "startFresh E t =
     inspect (doJSON E None ''POST'' ''efast/v1/file/osinitmultiupload''
         (Some (JObj (uploadStartBody (t_parentID t) (t_leaf t) (t_existingID t) (t_existingRev t)
            (t_size t) (t_modTime t)))) dec_init zero_init) (\<lambda>r. case r of
       Inl e \<Rightarrow>
         if t_preconditioned t \<and> isEditRevisionConflict e then
           throw (syncPreconditionErrorf
             ''remote revision changed while starting multipart update %q: %v'' [t_existingID t] [e])
         else throw e
     | Inr fresh \<Rightarrow>
         if \<not> init_complete fresh then
           throw (ErrNew ''PKU Disk multipart init response is incomplete'')
         else ok fresh)"

text \<open>A save or a removal whose error is only logged.\<close>

definition ignoring :: "('s, 'a) act \<Rightarrow> ('s, unit) act" where
  "ignoring m = inspect m (\<lambda>_. ok ())"

text \<open>The state of an earlier run, when there is a readable one that fits this upload.\<close>

definition load_valid :: "'s env \<Rightarrow> resumeStore \<Rightarrow> target \<Rightarrow> ('s, resumeState option) act" where
  "load_valid E st t =
     inspect (store_load E st) (\<lambda>r. case r of
       Inl _ \<Rightarrow> andThen (ignoring (store_remove E st)) (\<lambda>_. ok None)
     | Inr None \<Rightarrow> ok None
     | Inr (Some s) \<Rightarrow>
         if valid_for_target t s then ok (Some s)
         else andThen (ignoring (store_remove E st)) (\<lambda>_. ok None))"

definition fresh_session ::
    "'s env \<Rightarrow> resumeStore \<Rightarrow> target \<Rightarrow> multipartInit \<Rightarrow> ('s, resumeState) act" where
  "fresh_session E st t init =
     andThen (ignoring (store_save E st (new_state t init))) (\<lambda>_. ok (new_state t init))"

text \<open>The session to continue: its state, whose parts are the part information, and whether it is old.\<close>

definition resume_or_start ::
    "'s env \<Rightarrow> resumeStore \<Rightarrow> target \<Rightarrow> ('s, resumeState \<times> bool) act" where
  "resume_or_start E st t =
     andThen (load_valid E st t) (\<lambda>old. case old of
       Some s \<Rightarrow> ok (s, True)
     | None \<Rightarrow>
         andThen (startFresh E t) (\<lambda>init.
         andThen (fresh_session E st t init) (\<lambda>s. ok (s, False))))"

definition sign_missing :: "'s env \<Rightarrow> target \<Rightarrow> resumeState \<Rightarrow> ('s, signedParts) act" where
  "sign_missing E t s =
     signMultipartParts E (rs_Init s) (missingMultipartRanges (t_partCount t)
       (\<lambda>k. k \<in> fst ` set (partInfo_of s)))"

text \<open>
  Signing the parts that are missing. When that fails in a resumed session, the session is
  refreshed, or replaced where it cannot be refreshed; its parts are lost in both cases.
\<close>

definition sign_or_restart ::
    "'s env \<Rightarrow> resumeStore \<Rightarrow> target \<Rightarrow> string \<Rightarrow> resumeState \<times> bool \<Rightarrow>
       ('s, resumeState \<times> signedParts) act" where
  "sign_or_restart E st t remote = (\<lambda>(s, resumed).
     inspect (sign_missing E t s) (\<lambda>r. case r of
       Inr signed \<Rightarrow> ok (s, signed)
     | Inl signErr \<Rightarrow>
         if \<not> resumed then throw signErr
         else inspect (refreshMultipartUpload E (rs_Init s) (t_size t)) (\<lambda>r. case r of
           Inl refreshErr \<Rightarrow>
             andThen (ignoring (store_remove E st)) (\<lambda>_.
             inspect (startFresh E t) (\<lambda>r. case r of
               Inl e \<Rightarrow>
                 throw (Errorf ''resume multipart upload %q: sign remaining parts: %w; refresh failed: %v; fresh init failed: %w''
                   [remote] [refreshErr] [signErr, e])
             | Inr init \<Rightarrow>
                 andThen (fresh_session E st t init) (\<lambda>s'.
                 andThen (sign_missing E t s') (\<lambda>signed. ok (s', signed)))))
         | Inr refreshed \<Rightarrow>
             (let s' = s\<lparr>rs_Init := refreshed, rs_Completed := []\<rparr> in
              andThen (ignoring (store_save E st s')) (\<lambda>_.
              andThen (sign_missing E t s') (\<lambda>signed. ok (s', signed)))))))"

text \<open>The first part from \<open>part\<close> on that is neither done nor signed.\<close>

function unsigned_from :: "(string \<Rightarrow> bool) \<Rightarrow> signedParts \<Rightarrow> int64 \<Rightarrow> int64 \<Rightarrow> int64 option" where
  "unsigned_from has signed count part =
     (if part \<le> count then
        (if has (FormatInt part) then unsigned_from has signed count (part + 1)
         else if length (part_auth signed part) < 2 then Some part
         else unsigned_from has signed count (part + 1))
      else None)"
  by pat_completeness auto
termination
  by (relation "measure (\<lambda>(has, signed, count, part). nat (count + 1 - part))") auto

declare unsigned_from.simps [simp del]

definition check_signed :: "target \<Rightarrow> resumeState \<Rightarrow> signedParts \<Rightarrow> goerr option" where
  "check_signed t s signed =
     (case unsigned_from (\<lambda>k. k \<in> fst ` set (partInfo_of s)) signed (t_partCount t) 1 of
        None \<Rightarrow> None
      | Some part \<Rightarrow>
          Some (Errorf ''PKU Disk multipart response is missing signed request for part %d''
            [FormatInt part] [] []))"

definition new_writer ::
    "target \<Rightarrow> 's source \<Rightarrow> resumeStore \<Rightarrow> resumeState \<Rightarrow> signedParts \<Rightarrow> 's writer" where
  "new_writer t src st s signed =
     \<lparr>cw_init = rs_Init s, cw_existingRev = t_existingRev t,
      cw_syncPreconditioned = t_preconditioned t, cw_size = t_size t, cw_partSize = t_partSize t,
      cw_partCount = t_partCount t, cw_signedParts = signed, cw_resumeSource = src_open src,
      cw_partInfo = partInfo_of s, cw_closed = False, cw_aborted = False,
      cw_resumeInvalid = False, cw_resumeStore = st, cw_resumeState = Some s\<rparr>"

text \<open>Resolving the destination: its parent, leaf and the object there, under the precondition.\<close>

definition find_target ::
    "'s env \<Rightarrow> Fs \<Rightarrow> string \<Rightarrow> 's source \<Rightarrow> syncUploadPreconditions \<Rightarrow> ('s, target) act" where
  "find_target E f remote src p =
     andThen (FindPath E f remote True) (\<lambda>(leaf, parentID).
     if parentID = virtualRootID then
       throw (ErrNew ''files cannot be uploaded directly into the PKU Disk virtual root'')
     else
       andThen (inspect (NewObject E f remote) (\<lambda>r. case r of
           Inr ob \<Rightarrow> ok (o_id ob, o_rev ob)
         | Inl e \<Rightarrow> if err_is e (FsError ErrorObjectNotFound) then ok ([], []) else throw e))
         (\<lambda>(existingID, rv).
       andThen (check (checkObject p existingID rv)) (\<lambda>_.
       let existingRev = (if u_set p \<and> \<not> u_expectedAbsent p then u_expectedRev p else rv) in
       andThen (multipartPartSize E (src_size src)) (\<lambda>partSize.
         ok \<lparr>t_identity = multipartResumeSourceIdentity E src, t_size = src_size src,
             t_modTime = src_modTime src, t_parentID = parentID, t_leaf = encode E leaf,
             t_existingID = existingID, t_existingRev = existingRev, t_partSize = partSize,
             t_partCount = partCount (src_size src) partSize, t_preconditioned = u_set p\<rparr>))))"

definition open_session ::
    "'s env \<Rightarrow> Fs \<Rightarrow> string \<Rightarrow> 's source \<Rightarrow> syncUploadPreconditions \<Rightarrow> resumeStore \<Rightarrow>
       ('s, 's writer) act" where
  "open_session E f remote src p st =
     andThen (find_target E f remote src p) (\<lambda>t.
     andThen (resume_or_start E st t) (\<lambda>old.
     andThen (sign_or_restart E st t remote old) (\<lambda>(s, signed).
     andThen (check (check_signed t s signed)) (\<lambda>_.
       ok (new_writer t src st s signed)))))"

text \<open>
  \<open>OpenChunkWriter\<close> gives the chunk size, the concurrency and the writer; the deferred release
  of the store runs on every error after the store was opened.
\<close>

definition OpenChunkWriter ::
    "'s env \<Rightarrow> Fs \<Rightarrow> string \<Rightarrow> 's source \<Rightarrow> openOption list \<Rightarrow> ('s, int64 \<times> int \<times> 's writer) act"
where
  "OpenChunkWriter E f remote src opts =
     andThen (lift (extractSyncUploadPreconditions opts)) (\<lambda>p.
     if src_size src \<le> 0 then throw (FileTooSmall 1)
     else andThen (openMultipartResumeStore E f remote) (\<lambda>st.
       inspect (open_session E f remote src p st) (\<lambda>r. case r of
         Inl e \<Rightarrow> andThen (release E st) (\<lambda>_. throw e)
       | Inr cw \<Rightarrow>
           ok (cw_partSize cw,
               (if fs_upload_concurrency f < 1 then defaultUploadConcurrency
                else fs_upload_concurrency f), cw))))"

section \<open>Writing a chunk\<close>

text \<open>
  rclone's reader of a chunk: the error of seeking to its start, the bytes it delivers, and the
  error it ends with when it delivers too few (\<open>io.EOF\<close> or its own).
\<close>

record reader =
  rd_seek :: "goerr option"
  rd_data :: string
  rd_end :: goerr

definition part_of :: "int \<Rightarrow> int64" where
  "part_of chunkNumber = chunkNumber + 1"

definition expected_len :: "'s writer \<Rightarrow> int \<Rightarrow> int64" where
  "expected_len cw chunkNumber = chunkLen (cw_size cw) (cw_partSize cw) chunkNumber"

definition closed_error :: goerr where
  "closed_error = ErrNew ''PKU Disk multipart writer is already closed''"

definition restart_error :: goerr where
  "restart_error = RetryErrorf ''PKU Disk multipart resume source changed; restarting upload'' []"

text \<open>The first section under the mutex: verify a completed part, or transfer it.\<close>

datatype write_plan = Verify resumePart | Transfer

definition completed_part :: "'s writer \<Rightarrow> int \<Rightarrow> resumePart option" where
  "completed_part cw chunkNumber =
     (case cw_resumeState cw of
        None \<Rightarrow> None
      | Some s \<Rightarrow> map_of (rs_Completed s) (FormatInt (part_of chunkNumber)))"

definition write_begin :: "'s writer \<Rightarrow> int \<Rightarrow> goerr + write_plan" where
  "write_begin cw chunkNumber =
     (if cw_closed cw then Inl closed_error
      else if cw_aborted cw then
        (if cw_resumeInvalid cw then Inl restart_error
         else Inl (ErrNew ''PKU Disk multipart writer is aborted''))
      else (case completed_part cw chunkNumber of
              Some p \<Rightarrow> Inr (Verify p)
            | None \<Rightarrow> Inr Transfer))"

text \<open>\<open>io.CopyN\<close> of \<open>n\<close> bytes into the hash: the bytes copied, or the error.\<close>

definition copy_n :: "int \<Rightarrow> string \<Rightarrow> goerr \<Rightarrow> goerr + string" where
  "copy_n n data e = (if int (length data) < n then Inl e else Inr (take (nat n) data))"

text \<open>The digest of the current bytes of a completed part, from the local source if there is one.\<close>

definition hash_completed :: "'s env \<Rightarrow> 's writer \<Rightarrow> int \<Rightarrow> reader \<Rightarrow> ('s, string) act" where
  "hash_completed E cw chunkNumber rd =
     (let expected = expected_len cw chunkNumber;
          part = FormatInt (part_of chunkNumber);
          hash_error = (\<lambda>e n. Errorf ''hash completed multipart part %d for resume verification after %d bytes: %w''
            [part, FormatInt n] [] [e])
      in case cw_resumeSource cw of
           Some src \<Rightarrow>
             (let start = i64 (chunkNumber * cw_partSize cw) in
              inspect (on_disk (\<lambda>s m. case src start (i64 (start + expected - 1)) s of (r, s') \<Rightarrow> (r, s', m)))
                (\<lambda>r. case r of
                  Inl e \<Rightarrow>
                    throw (Errorf ''open completed multipart part %d for resume verification: %w''
                      [part] [] [e])
                | Inr (data, close_err) \<Rightarrow>
                    (case copy_n expected data (Foreign ''EOF'') of
                       Inl e \<Rightarrow> throw (hash_error e (int (length data)))
                     | Inr bytes \<Rightarrow>
                         (case close_err of
                            Some e \<Rightarrow> throw (hash_error e expected)
                          | None \<Rightarrow> ok (sha256 E bytes)))))
         | None \<Rightarrow>
             (case rd_seek rd of
                Some e \<Rightarrow>
                  throw (Errorf ''seek completed multipart part %d for resume verification: %w''
                    [part] [] [e])
              | None \<Rightarrow>
                  (case copy_n expected (rd_data rd) (rd_end rd) of
                     Inl e \<Rightarrow> throw (hash_error e (int (length (rd_data rd))))
                   | Inr bytes \<Rightarrow> ok (sha256 E bytes))))"

definition invalidate :: "'s writer \<Rightarrow> 's writer" where
  "invalidate cw = cw\<lparr>cw_aborted := True, cw_resumeInvalid := True\<rparr>"

text \<open>The upload of a part outside the mutex: its ETag and the digest of the bytes sent.\<close>

definition transfer_part ::
    "'s env \<Rightarrow> 's writer \<Rightarrow> int \<Rightarrow> reader \<Rightarrow> ('s, string \<times> string) act" where
  "transfer_part E cw chunkNumber rd =
     (let expected = expected_len cw chunkNumber;
          part = FormatInt (part_of chunkNumber)
      in case parseHeaderSignedRequest (part_auth (cw_signedParts cw) (part_of chunkNumber)) of
           Inl e \<Rightarrow> throw (Errorf ''multipart part %d: %w'' [part] [] [e])
         | Inr signed \<Rightarrow>
             (case rd_seek rd of
                Some e \<Rightarrow> throw (Errorf ''seek multipart part %d: %w'' [part] [] [e])
              | None \<Rightarrow>
                  andThen (object_request E signed (s_headers signed)
                      (StreamBody expected (take (nat expected) (rd_data rd)))
                      ''upload multipart part %d'' [part]) (\<lambda>resp.
                  let left = expected - body_read resp;
                      etag = header_get ''ETag'' (resp_headers resp) in
                  if left \<noteq> 0 then
                    throw (Errorf ''upload multipart part %d: source ended %d bytes early''
                      [part, FormatInt left] [] [])
                  else if etag = [] then
                    throw (Errorf ''upload multipart part %d: missing ETag'' [part] [] [])
                  else ok (etag, sha256 E (take (nat (body_read resp)) (rd_data rd))))))"

text \<open>The last section under the mutex records the part and saves the state.\<close>

definition record_part :: "'s writer \<Rightarrow> int \<Rightarrow> string \<Rightarrow> string \<Rightarrow> 's writer" where
  "record_part cw chunkNumber etag digest =
     (let key = FormatInt (part_of chunkNumber);
          expected = expected_len cw chunkNumber
      in cw\<lparr>cw_partInfo := AList.update key (etag, expected) (cw_partInfo cw),
           cw_resumeState := map_option (\<lambda>s. s\<lparr>rs_Completed :=
             AList.update key \<lparr>p_ETag = etag, p_Size = expected, p_SHA256 = digest\<rparr> (rs_Completed s)\<rparr>)
             (cw_resumeState cw)\<rparr>)"

definition commit_error :: "'s writer \<Rightarrow> goerr option" where
  "commit_error cw =
     (if cw_closed cw \<or> cw_aborted cw then
        (if cw_resumeInvalid cw then Some restart_error
         else Some (ErrNew ''PKU Disk multipart writer changed state while uploading a part''))
      else None)"

definition commit_part ::
    "'s env \<Rightarrow> 's writer \<Rightarrow> int \<Rightarrow> string \<Rightarrow> string \<Rightarrow> ('s, (goerr + int64) \<times> 's writer) act" where
  "commit_part E cw chunkNumber etag digest =
     (case commit_error cw of
        Some e \<Rightarrow> ok (Inl e, cw)
      | None \<Rightarrow>
          (let cw' = record_part cw chunkNumber etag digest in
           andThen (case cw_resumeState cw' of
               Some s \<Rightarrow> ignoring (store_save E (cw_resumeStore cw') s)
             | None \<Rightarrow> ok ()) (\<lambda>_. ok (Inr (expected_len cw chunkNumber), cw'))))"

text \<open>\<open>WriteChunk\<close> when no other method runs; the result comes with the writer after it.\<close>

definition WriteChunk ::
    "'s env \<Rightarrow> 's writer \<Rightarrow> int \<Rightarrow> reader \<Rightarrow> ('s, (goerr + int64) \<times> 's writer) act" where
  "WriteChunk E cw chunkNumber rd =
     (if chunkNumber < 0 \<or> chunkNumber \<ge> cw_partCount cw then
        ok (Inl (Errorf ''invalid PKU Disk multipart chunk %d'' [FormatInt chunkNumber] [] []), cw)
      else (case write_begin cw chunkNumber of
        Inl e \<Rightarrow> ok (Inl e, cw)
      | Inr (Verify p) \<Rightarrow>
          inspect (hash_completed E cw chunkNumber rd) (\<lambda>r. case r of
            Inl e \<Rightarrow> ok (Inl e, cw)
          | Inr digest \<Rightarrow>
              if digest \<noteq> p_SHA256 p then
                andThen (ignoring (store_remove E (cw_resumeStore cw))) (\<lambda>_.
                  ok (Inl (RetryErrorf
                        ''PKU Disk multipart resume source changed in completed part %d; restarting upload''
                        [FormatInt (part_of chunkNumber)]), invalidate cw))
              else ok (Inr (expected_len cw chunkNumber), cw))
      | Inr Transfer \<Rightarrow>
          inspect (transfer_part E cw chunkNumber rd) (\<lambda>r. case r of
            Inl e \<Rightarrow> ok (Inl e, cw)
          | Inr (etag, digest) \<Rightarrow> commit_part E cw chunkNumber etag digest)))"

section \<open>Closing and aborting\<close>

text \<open>The section of \<open>Close\<close> under the mutex: the part information to finish with.\<close>

definition close_begin :: "'s writer \<Rightarrow> goerr + partInfo \<times> 's writer" where
  "close_begin cw =
     (if cw_aborted cw then Inl (ErrNew ''cannot close an aborted PKU Disk multipart upload'')
      else if cw_closed cw then Inl closed_error
      else if int (length (cw_partInfo cw)) \<noteq> cw_partCount cw then
        Inl (Errorf ''PKU Disk multipart upload has %d/%d completed parts''
          [FormatInt (int (length (cw_partInfo cw))), FormatInt (cw_partCount cw)] [] [])
      else Inr (cw_partInfo cw, cw\<lparr>cw_closed := True\<rparr>))"

definition close_error :: "'s writer \<Rightarrow> goerr \<Rightarrow> goerr" where
  "close_error cw e =
     (if cw_syncPreconditioned cw \<and> isEditRevisionConflict e then
        syncPreconditionErrorf ''remote revision changed while finalizing multipart update %q: %v''
          [i_DocID (cw_init cw)] [e]
      else e)"

definition Close :: "'s env \<Rightarrow> 's writer \<Rightarrow> ('s, goerr option \<times> 's writer) act" where
  "Close E cw =
     (case close_begin cw of
        Inl e \<Rightarrow> ok (Some e, cw)
      | Inr (ps, cw') \<Rightarrow>
          inspect (finishMultipartUpload E (cw_init cw') (cw_existingRev cw') ps) (\<lambda>r.
          andThen (ignoring (store_remove E (cw_resumeStore cw'))) (\<lambda>_.
          andThen (release E (cw_resumeStore cw')) (\<lambda>st.
            ok (case r of Inl e \<Rightarrow> Some (close_error cw' e) | Inr _ \<Rightarrow> None,
                cw'\<lparr>cw_resumeStore := st\<rparr>)))))"

definition abort_flag :: "'s writer \<Rightarrow> 's writer" where
  "abort_flag cw = (if cw_closed cw then cw else cw\<lparr>cw_aborted := True\<rparr>)"

definition Abort :: "'s env \<Rightarrow> 's writer \<Rightarrow> ('s, 's writer) act" where
  "Abort E cw =
     andThen (release E (cw_resumeStore cw)) (\<lambda>st. ok (abort_flag cw\<lparr>cw_resumeStore := st\<rparr>))"

section \<open>The parts of a writer\<close>

text \<open>
  A recorded part: the key of a chunk of the file, with an ETag and the length of that chunk.
  A writer is well formed when every recorded part is one, no key occurs twice, and the resume
  state records the same parts; it is tiled when its chunks cut the file with only the last one
  short.
\<close>

definition part_done :: "'s writer \<Rightarrow> string \<times> string \<times> int64 \<Rightarrow> bool" where
  "part_done cw = (\<lambda>(key, etag, n).
     \<exists>k. 0 \<le> k \<and> k < cw_partCount cw \<and> key = FormatInt (part_of k) \<and> n = expected_len cw k
       \<and> etag \<noteq> [])"

definition wf_writer :: "'s writer \<Rightarrow> bool" where
  "wf_writer cw \<longleftrightarrow>
     distinct (map fst (cw_partInfo cw)) \<and> (\<forall>x \<in> set (cw_partInfo cw). part_done cw x)
     \<and> (\<forall>s. cw_resumeState cw = Some s \<longrightarrow> partInfo_of s = cw_partInfo cw)"

definition tiled :: "'s writer \<Rightarrow> bool" where
  "tiled cw \<longleftrightarrow>
     0 < cw_size cw \<and> in_i64 (cw_size cw) \<and> 0 < cw_partSize cw \<and> 0 < cw_partCount cw
     \<and> (cw_partCount cw - 1) * cw_partSize cw < cw_size cw
     \<and> cw_size cw \<le> cw_partCount cw * cw_partSize cw"

lemma inj_on_FormatInt: "inj_on FormatInt {1..n}"
  by (auto intro!: inj_onI simp: FormatInt_inject)

lemma part_done_key: "part_done cw x \<Longrightarrow> fst x \<in> FormatInt ` {1..cw_partCount cw}"
  by (auto simp: part_done_def part_of_def intro!: image_eqI)

lemma part_done_length:
  "part_done cw x \<Longrightarrow>
     snd (snd x) = expected_len cw (inv_into {1..cw_partCount cw} FormatInt (fst x) - 1)"
  using inv_into_f_f [OF inj_on_FormatInt, of _ "cw_partCount cw"]
  by (auto simp: part_done_def part_of_def)

text \<open>A well-formed writer with as many parts as chunks has every part, and they make the file.\<close>

lemma complete_keys:
  assumes "wf_writer cw" and "int (length (cw_partInfo cw)) = cw_partCount cw"
  shows "fst ` set (cw_partInfo cw) = FormatInt ` {1..cw_partCount cw}"
proof (rule card_subset_eq)
  show "fst ` set (cw_partInfo cw) \<subseteq> FormatInt ` {1..cw_partCount cw}"
    using assms(1) part_done_key by (fastforce simp: wf_writer_def)
  have "card (fst ` set (cw_partInfo cw)) = length (cw_partInfo cw)"
    using assms(1) distinct_card [of "map fst (cw_partInfo cw)"] by (simp add: wf_writer_def)
  then show "card (fst ` set (cw_partInfo cw)) = card (FormatInt ` {1..cw_partCount cw})"
    using assms(2) by (simp add: card_image inj_on_FormatInt)
qed simp

lemma complete_sum:
  assumes wf: "wf_writer cw" and t: "tiled cw" and len: "int (length (cw_partInfo cw)) = cw_partCount cw"
  shows "sum_list (map (snd \<circ> snd) (cw_partInfo cw)) = cw_size cw"
proof -
  let ?ps = "cw_partInfo cw" and ?c = "cw_partCount cw"
  let ?g = "\<lambda>key. expected_len cw (inv_into {1..?c} FormatInt key - 1)"
  have d: "distinct (map fst ?ps)" and each: "\<And>x. x \<in> set ?ps \<Longrightarrow> part_done cw x"
    using wf by (auto simp: wf_writer_def)
  have "sum_list (map (snd \<circ> snd) ?ps) = sum_list (map ?g (map fst ?ps))"
    by (auto intro!: arg_cong [where f = sum_list] part_done_length [OF each])
  also have "\<dots> = sum ?g (fst ` set ?ps)"
    using sum_list_distinct_conv_sum_set [OF d, of ?g] by simp
  also have "\<dots> = (\<Sum>n \<in> {1..?c}. expected_len cw (n - 1))"
    unfolding complete_keys [OF wf len] by (simp add: sum.reindex [OF inj_on_FormatInt] inj_on_FormatInt)
  also have "\<dots> = (\<Sum>k < nat ?c. expected_len cw (int k))"
    by (rule sum.reindex_bij_witness [where i = "\<lambda>k. int k + 1" and j = "\<lambda>n. nat (n - 1)"]) auto
  also have "\<dots> = cw_size cw"
    using chunkLen_tiling [of "cw_size cw" "cw_partSize cw" ?c] t by (simp add: tiled_def expected_len_def)
  finally show ?thesis .
qed

text \<open>Recording a part keeps the writer well formed.\<close>

lemma set_updateD: "x \<in> set (AList.update k v ps) \<Longrightarrow> x = (k, v) \<or> x \<in> set ps"
  by (induction ps) (auto split: if_splits)

lemma partInfo_update:
  "partInfo_of (s\<lparr>rs_Completed := AList.update key p (rs_Completed s)\<rparr>) =
     AList.update key (p_ETag p, p_Size p) (partInfo_of s)"
proof -
  have "map (\<lambda>(k, p). (k, p_ETag p, p_Size p)) (AList.update key p ps) =
      AList.update key (p_ETag p, p_Size p) (map (\<lambda>(k, p). (k, p_ETag p, p_Size p)) ps)" for ps
    by (induction ps) auto
  then show ?thesis by (simp add: partInfo_of_def)
qed

lemma record_part_sel [simp]:
  "cw_size (record_part cw k e d) = cw_size cw" "cw_partSize (record_part cw k e d) = cw_partSize cw"
  "cw_partCount (record_part cw k e d) = cw_partCount cw" "cw_init (record_part cw k e d) = cw_init cw"
  "cw_closed (record_part cw k e d) = cw_closed cw" "cw_aborted (record_part cw k e d) = cw_aborted cw"
  "cw_resumeInvalid (record_part cw k e d) = cw_resumeInvalid cw"
  "cw_existingRev (record_part cw k e d) = cw_existingRev cw"
  "cw_syncPreconditioned (record_part cw k e d) = cw_syncPreconditioned cw"
  "cw_resumeStore (record_part cw k e d) = cw_resumeStore cw"
  "cw_signedParts (record_part cw k e d) = cw_signedParts cw"
  "cw_resumeSource (record_part cw k e d) = cw_resumeSource cw"
  "expected_len (record_part cw k e d) = expected_len cw"
  by (simp_all add: record_part_def Let_def expected_len_def fun_eq_iff)

lemma record_part_wf:
  assumes "wf_writer cw" and "0 \<le> k" and "k < cw_partCount cw" and "etag \<noteq> []"
  shows "wf_writer (record_part cw k etag digest)"
proof -
  let ?x = "(FormatInt (part_of k), etag, expected_len cw k)"
  have same: "part_done (record_part cw k etag digest) = part_done cw"
    by (simp add: part_done_def)
  have "part_done cw ?x"
    using assms(2-4) by (auto simp: part_done_def)
  moreover have "x = ?x \<or> x \<in> set (cw_partInfo cw)"
    if "x \<in> set (AList.update (FormatInt (part_of k)) (etag, expected_len cw k) (cw_partInfo cw))" for x
    using that by (rule set_updateD)
  ultimately have "\<forall>x \<in> set (cw_partInfo (record_part cw k etag digest)). part_done cw x"
    using assms(1) by (fastforce simp: record_part_def Let_def wf_writer_def)
  with assms(1) show ?thesis
    unfolding wf_writer_def same
    by (auto simp: record_part_def Let_def distinct_update partInfo_update map_option_case
        split: option.splits)
qed

end
