(* ===== verification/Chunk_Writer_Steps.thy ===== *)
theory Chunk_Writer_Steps
  imports Chunk_Writer
begin

text \<open>
  The chunk writer under concurrency. rclone calls \<open>WriteChunk\<close> from several goroutines and may
  call \<open>Close\<close> and \<open>Abort\<close> at any time; the methods share the writer and take its mutex for short
  sections only. A configuration is the shared writer, the world and the calls made so far, each
  at the point its goroutine has reached; a step is one section under the mutex or one operation
  outside it, of any call. The theorems hold in every interleaving.
\<close>

section \<open>Configurations and steps\<close>

text \<open>
  Where a call is: a \<open>WriteChunk\<close> verifies a completed part, has seen its content differ, has to
  discard the resume state, transfers a part, is about to commit it, or has returned; a \<open>Close\<close>
  finishes the upload, cleans up, releases the lock, or has returned; an \<open>Abort\<close> releases the
  lock or has returned.
\<close>

datatype job =
    Verifying int reader resumePart
  | Differing int
  | Discarding int
  | Transferring int reader
  | Committing int string string
  | Wrote "goerr + int64"
  | Finishing partInfo
  | CleaningUp "goerr option"
  | Unlocking "goerr option"
  | Closed "goerr option"
  | Aborting
  | Aborted

record 's conf =
  writer :: "'s writer"
  calls :: "nat \<rightharpoonup> job"
  around :: "'s world"

definition at :: "'s conf \<Rightarrow> nat \<Rightarrow> job \<Rightarrow> 's conf" where
  "at c i j = c\<lparr>calls := (calls c)(i \<mapsto> j)\<rparr>"

definition chunk_error :: "int \<Rightarrow> goerr" where
  "chunk_error k = Errorf ''invalid PKU Disk multipart chunk %d'' [FormatInt k] [] []"

definition changed_error :: "int \<Rightarrow> goerr" where
  "changed_error k =
     RetryErrorf ''PKU Disk multipart resume source changed in completed part %d; restarting upload''
       [FormatInt (part_of k)]"

text \<open>The first section of \<open>WriteChunk\<close>.\<close>

definition start_write :: "'s writer \<Rightarrow> int \<Rightarrow> reader \<Rightarrow> job" where
  "start_write cw k rd =
     (if k < 0 \<or> k \<ge> cw_partCount cw then Wrote (Inl (chunk_error k))
      else (case write_begin cw k of
              Inl e \<Rightarrow> Wrote (Inl e)
            | Inr (Verify p) \<Rightarrow> Verifying k rd p
            | Inr Transfer \<Rightarrow> Transferring k rd))"

definition verified :: "int64 \<Rightarrow> int \<Rightarrow> resumePart \<Rightarrow> goerr + string \<Rightarrow> job" where
  "verified len k p r =
     (case r of
        Inl e \<Rightarrow> Wrote (Inl e)
      | Inr digest \<Rightarrow> if digest = p_SHA256 p then Wrote (Inr len) else Differing k)"

definition transferred :: "int \<Rightarrow> goerr + string \<times> string \<Rightarrow> job" where
  "transferred k r = (case r of Inl e \<Rightarrow> Wrote (Inl e) | Inr (etag, digest) \<Rightarrow> Committing k etag digest)"

inductive cstep :: "'s env \<Rightarrow> 's conf \<Rightarrow> 's conf \<Rightarrow> bool" for E :: "'s env" where
  call_write:
    "calls c i = None \<Longrightarrow> cstep E c (at c i (start_write (writer c) k rd))"
| verify:
    "calls c i = Some (Verifying k rd p) \<Longrightarrow> hash_completed E (writer c) k rd (around c) = (r, w) \<Longrightarrow>
       cstep E c (at (c\<lparr>around := w\<rparr>) i (verified (expected_len (writer c) k) k p r))"
| mark:
    "calls c i = Some (Differing k) \<Longrightarrow>
       cstep E c (at (c\<lparr>writer := invalidate (writer c)\<rparr>) i (Discarding k))"
| discard:
    "calls c i = Some (Discarding k) \<Longrightarrow>
       ignoring (store_remove E (cw_resumeStore (writer c))) (around c) = (r, w) \<Longrightarrow>
       cstep E c (at (c\<lparr>around := w\<rparr>) i (Wrote (Inl (changed_error k))))"
| transfer:
    "calls c i = Some (Transferring k rd) \<Longrightarrow> transfer_part E (writer c) k rd (around c) = (r, w) \<Longrightarrow>
       cstep E c (at (c\<lparr>around := w\<rparr>) i (transferred k r))"
| commit:
    "calls c i = Some (Committing k etag digest) \<Longrightarrow>
       commit_part E (writer c) k etag digest (around c) = (Inr (res, cw), w) \<Longrightarrow>
       cstep E c (at (c\<lparr>writer := cw, around := w\<rparr>) i (Wrote res))"
| call_close_refused:
    "calls c i = None \<Longrightarrow> close_begin (writer c) = Inl e \<Longrightarrow> cstep E c (at c i (Closed (Some e)))"
| call_close:
    "calls c i = None \<Longrightarrow> close_begin (writer c) = Inr (ps, cw) \<Longrightarrow>
       cstep E c (at (c\<lparr>writer := cw\<rparr>) i (Finishing ps))"
| finish:
    "calls c i = Some (Finishing ps) \<Longrightarrow>
       finishMultipartUpload E (cw_init (writer c)) (cw_existingRev (writer c)) ps (around c) = (r, w) \<Longrightarrow>
       cstep E c (at (c\<lparr>around := w\<rparr>) i
         (CleaningUp (case r of Inl e \<Rightarrow> Some (close_error (writer c) e) | Inr _ \<Rightarrow> None)))"
| clean_up:
    "calls c i = Some (CleaningUp res) \<Longrightarrow>
       ignoring (store_remove E (cw_resumeStore (writer c))) (around c) = (r, w) \<Longrightarrow>
       cstep E c (at (c\<lparr>around := w\<rparr>) i (Unlocking res))"
| unlock:
    "calls c i = Some (Unlocking res) \<Longrightarrow>
       release E (cw_resumeStore (writer c)) (around c) = (Inr st, w) \<Longrightarrow>
       cstep E c (at (c\<lparr>writer := (writer c)\<lparr>cw_resumeStore := st\<rparr>, around := w\<rparr>) i (Closed res))"
| call_abort:
    "calls c i = None \<Longrightarrow> cstep E c (at (c\<lparr>writer := abort_flag (writer c)\<rparr>) i Aborting)"
| abort_unlock:
    "calls c i = Some Aborting \<Longrightarrow>
       release E (cw_resumeStore (writer c)) (around c) = (Inr st, w) \<Longrightarrow>
       cstep E c (at (c\<lparr>writer := (writer c)\<lparr>cw_resumeStore := st\<rparr>, around := w\<rparr>) i Aborted)"

abbreviation csteps :: "'s env \<Rightarrow> 's conf \<Rightarrow> 's conf \<Rightarrow> bool" where
  "csteps E \<equiv> (cstep E)\<^sup>*\<^sup>*"

text \<open>A writer as \<open>OpenChunkWriter\<close> hands it out, before any call.\<close>

definition opened :: "'s conf \<Rightarrow> bool" where
  "opened c \<longleftrightarrow>
     calls c = Map.empty \<and> wf_writer (writer c) \<and> tiled (writer c) \<and> cw_resumeState (writer c) \<noteq> None
     \<and> \<not> cw_closed (writer c) \<and> \<not> cw_aborted (writer c) \<and> \<not> cw_resumeInvalid (writer c)"

lemma at_sel [simp]:
  "writer (at c i j) = writer c" "around (at c i j) = around c"
  "calls (at c i j) = (calls c)(i \<mapsto> j)"
  by (simp_all add: at_def)

section \<open>What the sections do to the writer\<close>

lemma close_begin_Inr:
  "close_begin cw = Inr (ps, cw') \<longleftrightarrow>
     \<not> cw_aborted cw \<and> \<not> cw_closed cw \<and> int (length (cw_partInfo cw)) = cw_partCount cw
     \<and> ps = cw_partInfo cw \<and> cw' = cw\<lparr>cw_closed := True\<rparr>"
  by (auto simp: close_begin_def)

lemma commit_part_Inr:
  assumes "commit_part E cw k etag digest w = (Inr (res, cw'), w')"
  shows "(\<exists>e. commit_error cw = Some e \<and> res = Inl e \<and> cw' = cw \<and> w' = w)
    \<or> commit_error cw = None \<and> res = Inr (expected_len cw k) \<and> cw' = record_part cw k etag digest"
  using assms
  by (auto simp: commit_part_def Let_def andThen_def ignoring_def inspect_def split: option.splits prod.splits sum.splits)

lemma commit_error_None: "commit_error cw = None \<longleftrightarrow> \<not> cw_closed cw \<and> \<not> cw_aborted cw"
  by (simp add: commit_error_def)

lemma release_Inr: "release E st w = (Inr st', w') \<Longrightarrow> st_path st' = st_path st"
  by (auto simp: release_def run_simps split: if_splits)

lemma invalidate_sel [simp]:
  "cw_size (invalidate cw) = cw_size cw" "cw_partSize (invalidate cw) = cw_partSize cw"
  "cw_partCount (invalidate cw) = cw_partCount cw" "cw_init (invalidate cw) = cw_init cw"
  "cw_partInfo (invalidate cw) = cw_partInfo cw" "cw_closed (invalidate cw) = cw_closed cw"
  "cw_resumeState (invalidate cw) = cw_resumeState cw" "cw_aborted (invalidate cw)"
  "cw_resumeInvalid (invalidate cw)" "cw_resumeStore (invalidate cw) = cw_resumeStore cw"
  by (simp_all add: invalidate_def)

text \<open>The parts of the writer that a step changes.\<close>

lemma cstep_constants:
  "cstep E c c' \<Longrightarrow>
     cw_size (writer c') = cw_size (writer c) \<and> cw_partSize (writer c') = cw_partSize (writer c)
     \<and> cw_partCount (writer c') = cw_partCount (writer c) \<and> cw_init (writer c') = cw_init (writer c)"
  by (induction rule: cstep.induct)
    (auto simp: invalidate_def close_begin_Inr abort_flag_def dest!: commit_part_Inr)

section \<open>Finishing an upload\<close>

text \<open>
  The calls that have begun to finish the upload, and what is known of the writer at each point
  of a call.
\<close>

definition finalising :: "job \<Rightarrow> bool" where
  "finalising j =
     (case j of Finishing ps \<Rightarrow> True | CleaningUp r \<Rightarrow> True | Unlocking r \<Rightarrow> True | Closed r \<Rightarrow> r = None
      | _ \<Rightarrow> False)"

definition in_file :: "'s writer \<Rightarrow> int \<Rightarrow> bool" where
  "in_file cw k \<longleftrightarrow> 0 \<le> k \<and> k < cw_partCount cw"

definition job_ok :: "'s writer \<Rightarrow> job \<Rightarrow> bool" where
  "job_ok cw j =
     (case j of
        Verifying k rd p \<Rightarrow> in_file cw k
      | Transferring k rd \<Rightarrow> in_file cw k
      | Committing k etag digest \<Rightarrow> in_file cw k \<and> etag \<noteq> []
      | Finishing ps \<Rightarrow> cw_closed cw \<and> ps = cw_partInfo cw \<and> int (length ps) = cw_partCount cw
      | j \<Rightarrow> finalising j \<longrightarrow> cw_closed cw)"

definition conf_ok :: "'s conf \<Rightarrow> bool" where
  "conf_ok c \<longleftrightarrow>
     wf_writer (writer c) \<and> (\<forall>i j. calls c i = Some j \<longrightarrow> job_ok (writer c) j)
     \<and> (\<forall>i i' j j'. calls c i = Some j \<longrightarrow> calls c i' = Some j' \<longrightarrow> finalising j \<longrightarrow> finalising j' \<longrightarrow>
          i = i')"

lemma finalising_simps [simp]:
  "finalising (Finishing ps)" "finalising (CleaningUp r)" "finalising (Unlocking r)"
  "finalising (Closed r) \<longleftrightarrow> r = None" "\<not> finalising (Verifying k rd p)" "\<not> finalising (Differing k)"
  "\<not> finalising (Discarding k)" "\<not> finalising (Transferring k rd)" "\<not> finalising (Committing k e d)"
  "\<not> finalising (Wrote res)" "\<not> finalising Aborting" "\<not> finalising Aborted"
  by (simp_all add: finalising_def)

lemma not_finalising [simp]:
  "\<not> finalising (start_write cw k rd)" "\<not> finalising (verified n k p r')" "\<not> finalising (transferred k r)"
  by (simp_all add: start_write_def verified_def transferred_def split: sum.split prod.split write_plan.split)

lemma transfer_etag: "transfer_part E cw k rd w = (Inr (etag, digest), w') \<Longrightarrow> etag \<noteq> []"
  by (auto simp: transfer_part_def Let_def andThen_def split: sum.splits option.splits prod.splits if_splits)

lemma start_write_ok: "job_ok cw (start_write cw k rd)"
  by (auto simp: start_write_def job_ok_def in_file_def split: sum.split write_plan.split)

lemma verified_ok: "job_ok cw (verified n k p r)"
  by (simp add: verified_def job_ok_def split: sum.split)

text \<open>A step keeps what is known, when it changes one call and leaves the others in place.\<close>

lemma conf_ok_at:
  assumes "conf_ok c" and "wf_writer cw" and "job_ok cw j"
    and "\<And>i' j'. i' \<noteq> i \<Longrightarrow> calls c i' = Some j' \<Longrightarrow> job_ok cw j'"
    and "finalising j \<Longrightarrow>
      (\<exists>j'. calls c i = Some j' \<and> finalising j') \<or> (\<forall>i' j'. calls c i' = Some j' \<longrightarrow> \<not> finalising j')"
  shows "conf_ok (at (c\<lparr>writer := cw, around := w\<rparr>) i j)"
  using assms unfolding conf_ok_def at_sel
  by (simp add: fun_upd_apply) (metis option.inject)

lemma at_same: "at c i j = at (c\<lparr>writer := writer c, around := around c\<rparr>) i j"
  and at_around: "at (c\<lparr>around := w\<rparr>) i j = at (c\<lparr>writer := writer c, around := w\<rparr>) i j"
  and at_writer: "at (c\<lparr>writer := cw\<rparr>) i j = at (c\<lparr>writer := cw, around := around c\<rparr>) i j"
  by simp_all

lemma job_ok_mono:
  assumes "job_ok cw j" and "cw_partCount cw' = cw_partCount cw"
    and "cw_closed cw \<Longrightarrow> cw_closed cw' \<and> cw_partInfo cw' = cw_partInfo cw"
  shows "job_ok cw' j"
  using assms by (cases j) (auto simp: job_ok_def in_file_def)

lemma finalising_closed: "job_ok cw j \<Longrightarrow> finalising j \<Longrightarrow> cw_closed cw"
  by (cases j) (auto simp: job_ok_def)

lemma commit_ok:
  assumes "commit_part E cw k etag digest w = (Inr (res, cw'), w')" and "wf_writer cw"
    and "in_file cw k" and "etag \<noteq> []"
  shows "wf_writer cw' \<and> cw_partCount cw' = cw_partCount cw \<and> cw_closed cw' = cw_closed cw
    \<and> (cw_closed cw \<longrightarrow> cw_partInfo cw' = cw_partInfo cw)"
  using commit_part_Inr [OF assms(1)] assms(2-4)
  by (auto simp: commit_error_None in_file_def intro: record_part_wf)

lemma wf_writer_flags [simp]:
  "wf_writer (cw\<lparr>cw_closed := b\<rparr>) = wf_writer cw" "wf_writer (cw\<lparr>cw_aborted := b\<rparr>) = wf_writer cw"
  "wf_writer (invalidate cw) = wf_writer cw" "wf_writer (cw\<lparr>cw_resumeStore := st\<rparr>) = wf_writer cw"
  by (simp_all add: wf_writer_def part_done_def expected_len_def invalidate_def)

lemma cstep_ok: "cstep E c c' \<Longrightarrow> conf_ok c \<Longrightarrow> conf_ok c'"
proof (induction rule: cstep.induct)
  case (call_write c i k rd)
  then show ?case
    by (subst at_same, intro conf_ok_at) (auto simp: conf_ok_def start_write_ok)
next
  case (verify c i k rd p r w)
  then show ?case
    by (subst at_around, intro conf_ok_at) (auto simp: conf_ok_def verified_ok)
next
  case (mark c i k)
  then show ?case
    by (subst at_writer, intro conf_ok_at)
      (auto simp: conf_ok_def job_ok_def [of _ "Discarding k"] intro: job_ok_mono [of "writer c"])
next
  case (discard c i k r w)
  then show ?case
    by (subst at_around, intro conf_ok_at) (auto simp: conf_ok_def job_ok_def [of _ "Wrote _"])
next
  case (transfer c i k rd r w)
  then have "job_ok (writer c) (Transferring k rd)" by (auto simp: conf_ok_def)
  then have "job_ok (writer c) (transferred k r)"
    using transfer(2)
    by (auto simp: transferred_def job_ok_def dest: transfer_etag split: sum.split prod.split)
  with transfer show ?case
    by (subst at_around, intro conf_ok_at) (auto simp: conf_ok_def)
next
  case (commit c i k etag digest res cw w)
  then have "job_ok (writer c) (Committing k etag digest)" by (auto simp: conf_ok_def)
  then have "in_file (writer c) k" "etag \<noteq> []" by (auto simp: job_ok_def)
  with commit_ok [OF commit(2)] commit show ?case
    by (intro conf_ok_at) (auto simp: conf_ok_def job_ok_def [of _ "Wrote _"] intro: job_ok_mono [of "writer c"])
next
  case (call_close_refused c i e)
  then show ?case
    by (subst at_same, intro conf_ok_at) (auto simp: conf_ok_def job_ok_def [of _ "Closed _"])
next
  case (call_close c i ps cw)
  then have "\<not> finalising j'" if "calls c i' = Some j'" for i' j'
    using that finalising_closed [of "writer c" j'] by (auto simp: conf_ok_def close_begin_Inr)
  with call_close show ?case
    by (subst at_writer, intro conf_ok_at)
      (auto simp: conf_ok_def close_begin_Inr job_ok_def [of _ "Finishing _"] intro: job_ok_mono [of "writer c"])
next
  case (finish c i ps r w)
  then have "job_ok (writer c) (Finishing ps)" by (auto simp: conf_ok_def)
  with finish show ?case
    by (subst at_around, intro conf_ok_at) (auto simp: conf_ok_def job_ok_def [of _ "CleaningUp _"] job_ok_def [of _ "Finishing _"])
next
  case (clean_up c i res r w)
  then have "job_ok (writer c) (CleaningUp res)" by (auto simp: conf_ok_def)
  with clean_up show ?case
    by (subst at_around, intro conf_ok_at) (auto simp: conf_ok_def job_ok_def [of _ "CleaningUp _"] job_ok_def [of _ "Unlocking _"])
next
  case (unlock c i res st w)
  then have "job_ok (writer c) (Unlocking res)" by (auto simp: conf_ok_def)
  with unlock show ?case
    by (intro conf_ok_at) (auto simp: conf_ok_def job_ok_def [of _ "Unlocking _"] job_ok_def [of _ "Closed _"] intro: job_ok_mono [of "writer c"])
next
  case (call_abort c i)
  then show ?case
    by (subst at_writer, intro conf_ok_at)
      (auto simp: conf_ok_def job_ok_def [of _ Aborting] abort_flag_def intro: job_ok_mono [of "writer c"])
next
  case (abort_unlock c i st w)
  then show ?case
    by (intro conf_ok_at) (auto simp: conf_ok_def job_ok_def [of _ Aborted] intro: job_ok_mono [of "writer c"])
qed

lemma opened_ok: "opened c \<Longrightarrow> conf_ok c"
  by (simp add: opened_def conf_ok_def)

lemma csteps_ok: "csteps E c c' \<Longrightarrow> conf_ok c \<Longrightarrow> conf_ok c'"
  by (induction rule: rtranclp_induct) (auto intro: cstep_ok)

text \<open>
  C1. An upload is finished once, and only when it is whole. In every interleaving of the methods
  of a freshly opened writer, whenever a \<open>Close\<close> has begun to finish the upload, the part
  information it sends has exactly the parts of the file, each once, with a non-empty ETag and
  the length of its chunk, the lengths add up to the size of the file, and no other \<open>Close\<close> has
  begun to finish it.
\<close>

theorem finished_once_and_whole:
  assumes "opened c0" and "csteps E c0 c" and "calls c i = Some (Finishing ps)"
  shows "distinct (map fst ps) \<and> fst ` set ps = FormatInt ` {1..cw_partCount (writer c0)}
    \<and> (\<forall>x \<in> set ps. part_done (writer c0) x)
    \<and> sum_list (map (snd \<circ> snd) ps) = cw_size (writer c0)
    \<and> (\<forall>i' j. calls c i' = Some j \<and> finalising j \<longrightarrow> i' = i)"
proof -
  have const: "csteps E c0 c \<Longrightarrow>
      cw_size (writer c) = cw_size (writer c0) \<and> cw_partSize (writer c) = cw_partSize (writer c0)
      \<and> cw_partCount (writer c) = cw_partCount (writer c0)"
    by (induction rule: rtranclp_induct) (auto dest: cstep_constants)
  have ok: "conf_ok c"
    using assms(1,2) by (blast intro: csteps_ok opened_ok)
  then have wf: "wf_writer (writer c)" and "job_ok (writer c) (Finishing ps)"
    using assms(3) by (auto simp: conf_ok_def)
  then have ps: "ps = cw_partInfo (writer c)" and len: "int (length ps) = cw_partCount (writer c)"
    by (auto simp: job_ok_def)
  have "tiled (writer c)"
    using assms(1) const [OF assms(2)] by (simp add: opened_def tiled_def)
  moreover have "part_done (writer c) = part_done (writer c0)"
    using const [OF assms(2)] by (auto simp: fun_eq_iff part_done_def expected_len_def)
  ultimately show ?thesis
    using complete_keys [OF wf] complete_sum [OF wf] wf len const [OF assms(2)] ok assms(3)
    unfolding ps by (auto simp: wf_writer_def conf_ok_def)
qed

text \<open>A writer of a resumed upload of three bytes, with its part already transferred.\<close>

definition sample_writer :: "script writer" where
  "sample_writer =
     \<lparr>cw_init = \<lparr>i_DocID = ''D'', i_Rev = ''R'', i_UploadID = ''U''\<rparr>, cw_existingRev = [],
      cw_syncPreconditioned = False, cw_size = 3, cw_partSize = 20971520, cw_partCount = 1,
      cw_signedParts = Map.empty, cw_resumeSource = None, cw_partInfo = [(''1'', ''E'', 3)],
      cw_closed = False, cw_aborted = False, cw_resumeInvalid = False,
      cw_resumeStore = disabled_store,
      cw_resumeState = Some (newMultipartResumeState ''I'' 3 1 ''P'' ''f'' [] [] 20971520 1
        \<lparr>i_DocID = ''D'', i_Rev = ''R'', i_UploadID = ''U''\<rparr>
        \<lparr>rs_Completed := [(''1'', \<lparr>p_ETag = ''E'', p_Size = 3, p_SHA256 = toy_digest ''abc''\<rparr>)]\<rparr>)\<rparr>"

definition sample_conf :: "script conf" where
  "sample_conf = \<lparr>writer = sample_writer, calls = Map.empty, around = start_world []\<rparr>"

lemma FormatInt_1: "FormatInt 1 = ''1''" "ParseInt ''1'' = Some 1"
  by code_simp+

lemma sample_part: "part_done sample_writer (''1'', ''E'', 3)"
  unfolding part_done_def
  by (simp add: sample_writer_def expected_len_def chunkLen_def part_of_def FormatInt_1 i64_def
      exI [of _ 0])

lemma sample_opened: "opened sample_conf"
  using sample_part
  by (simp add: opened_def sample_conf_def wf_writer_def)
    (simp add: sample_writer_def tiled_def partInfo_of_def newMultipartResumeState_def in_i64_def)

theorem finished_once_and_whole_witness:
  "\<exists>c. csteps sample_env sample_conf c \<and> calls c 0 = Some (Finishing [(''1'', ''E'', 3)])
     \<and> sum_list (map (snd \<circ> snd) [(''1'', ''E'', 3::int64)]) = cw_size (writer sample_conf)"
proof -
  let ?c = "at (sample_conf\<lparr>writer := sample_writer\<lparr>cw_closed := True\<rparr>\<rparr>) 0 (Finishing [(''1'', ''E'', 3)])"
  have "cstep sample_env sample_conf ?c"
    using call_close [of sample_conf 0 "[(''1'', ''E'', 3)]" "sample_writer\<lparr>cw_closed := True\<rparr>"]
    by (simp add: sample_conf_def close_begin_Inr) (simp add: sample_writer_def)
  then have steps: "csteps sample_env sample_conf ?c" by blast
  then show ?thesis
    using finished_once_and_whole [OF sample_opened steps, of 0] by (intro exI [of _ ?c]) simp
qed

section \<open>After the end of an upload\<close>

text \<open>
  What can become of a call that had not committed when the writer was closed or aborted: it
  has not returned, or it returned an error.
\<close>

definition hopeless :: "job option \<Rightarrow> bool" where
  "hopeless r =
     (case r of
        None \<Rightarrow> True
      | Some (Transferring k rd) \<Rightarrow> True
      | Some (Committing k etag digest) \<Rightarrow> True
      | Some (Wrote res) \<Rightarrow> isl res
      | Some (Closed res) \<Rightarrow> res \<noteq> None
      | Some Aborting \<Rightarrow> True
      | Some Aborted \<Rightarrow> True
      | _ \<Rightarrow> False)"

definition ended :: "'s writer \<Rightarrow> bool" where
  "ended cw \<longleftrightarrow> cw_closed cw \<or> cw_aborted cw"

lemma hopeless_simps [simp]:
  "hopeless None" "hopeless (Some (Transferring k rd))" "hopeless (Some (Committing k e d))"
  "hopeless (Some (Wrote res)) = isl res" "hopeless (Some (Closed r)) \<longleftrightarrow> r \<noteq> None"
  "hopeless (Some Aborting)" "hopeless (Some Aborted)" "\<not> hopeless (Some (Verifying k rd p))"
  "\<not> hopeless (Some (Differing k))" "\<not> hopeless (Some (Discarding k))"
  "\<not> hopeless (Some (Finishing ps))" "\<not> hopeless (Some (CleaningUp r))" "\<not> hopeless (Some (Unlocking r))"
  by (simp_all add: hopeless_def)

lemma start_write_hopeless: "ended cw \<Longrightarrow> hopeless (Some (start_write cw k rd))"
  by (auto simp: start_write_def write_begin_def ended_def)

lemma transferred_hopeless: "hopeless (Some (transferred k r))"
  by (simp add: transferred_def split: sum.split prod.split)

lemma cstep_ended:
  "cstep E c c' \<Longrightarrow> ended (writer c) \<Longrightarrow>
     ended (writer c') \<and> cw_partInfo (writer c') = cw_partInfo (writer c)
     \<and> cw_resumeState (writer c') = cw_resumeState (writer c)
     \<and> (cw_closed (writer c') \<longleftrightarrow> cw_closed (writer c))
     \<and> (\<forall>i. hopeless (calls c i) \<longrightarrow> hopeless (calls c' i))"
  by (induction rule: cstep.induct)
    (auto simp: ended_def commit_error_None close_begin_Inr abort_flag_def transferred_hopeless
      start_write_hopeless [unfolded ended_def] dest!: commit_part_Inr)


definition closed_conf :: "script conf" where
  "closed_conf =
     at (sample_conf\<lparr>writer := sample_writer\<lparr>cw_closed := True\<rparr>\<rparr>) 0 (Finishing [(''1'', ''E'', 3)])"


section \<open>A source that changed\<close>

text \<open>
  A call that must ask rclone to restart the upload when it returns after the content of a
  completed part was seen to differ.
\<close>

definition restarts :: "job option \<Rightarrow> bool" where
  "restarts r =
     (case r of
        Some (Wrote res) \<Rightarrow> res = Inl restart_error
      | Some (Committing k etag digest) \<Rightarrow> True
      | _ \<Rightarrow> False)"

definition starts_restart :: "job option \<Rightarrow> bool" where
  "starts_restart r =
     (case r of
        None \<Rightarrow> True
      | Some (Wrote res) \<Rightarrow> res = Inl restart_error \<or> (\<exists>k. res = Inl (chunk_error k))
      | Some (Closed res) \<Rightarrow> res \<noteq> None
      | Some Aborting \<Rightarrow> True
      | Some Aborted \<Rightarrow> True
      | _ \<Rightarrow> False)"

lemma restarts_simps [simp]:
  "restarts (Some (Committing k e d))" "restarts (Some (Wrote res)) \<longleftrightarrow> res = Inl restart_error"
  "\<not> restarts None" "\<not> restarts (Some (Verifying k rd p))" "\<not> restarts (Some (Differing k))"
  "\<not> restarts (Some (Discarding k))" "\<not> restarts (Some (Transferring k rd))"
  "\<not> restarts (Some (Finishing ps))" "\<not> restarts (Some (CleaningUp r))"
  "\<not> restarts (Some (Unlocking r))" "\<not> restarts (Some (Closed r))" "\<not> restarts (Some Aborting)"
  "\<not> restarts (Some Aborted)"
  by (simp_all add: restarts_def)

lemma starts_restart_simps [simp]:
  "starts_restart None" "starts_restart (Some Aborting)" "starts_restart (Some Aborted)"
  "starts_restart (Some (Wrote res)) \<longleftrightarrow> res = Inl restart_error \<or> (\<exists>k. res = Inl (chunk_error k))"
  "starts_restart (Some (Closed r)) \<longleftrightarrow> r \<noteq> None" "\<not> starts_restart (Some (Verifying k rd p))"
  "\<not> starts_restart (Some (Differing k))" "\<not> starts_restart (Some (Discarding k))"
  "\<not> starts_restart (Some (Transferring k rd))" "\<not> starts_restart (Some (Committing k e d))"
  "\<not> starts_restart (Some (Finishing ps))" "\<not> starts_restart (Some (CleaningUp r))"
  "\<not> starts_restart (Some (Unlocking r))"
  by (simp_all add: starts_restart_def)

lemma start_write_invalid:
  assumes "\<not> cw_closed cw" and "cw_aborted cw" and "cw_resumeInvalid cw"
  shows "starts_restart (Some (start_write cw k rd))"
  using assms by (auto simp: start_write_def write_begin_def)

lemma cstep_invalid:
  "cstep E c c' \<Longrightarrow> cw_aborted (writer c) \<and> cw_resumeInvalid (writer c) \<Longrightarrow>
     cw_aborted (writer c') \<and> cw_resumeInvalid (writer c')
     \<and> (cw_closed (writer c') \<longleftrightarrow> cw_closed (writer c))
     \<and> (\<forall>i. restarts (calls c i) \<longrightarrow> restarts (calls c' i))
     \<and> (\<not> cw_closed (writer c) \<longrightarrow> (\<forall>i. starts_restart (calls c i) \<longrightarrow> starts_restart (calls c' i)))"
  by (induction rule: cstep.induct)
    (auto simp: close_begin_Inr abort_flag_def commit_error_def start_write_invalid
      dest!: commit_part_Inr)


definition differing_conf :: "script conf" where
  "differing_conf = sample_conf\<lparr>calls := [0 \<mapsto> Differing 0, 1 \<mapsto> Committing 0 ''E'' ''F'']\<rparr>"


section \<open>The methods alone are runs of the steps\<close>

lemma csteps_trans2: "cstep E a b \<Longrightarrow> cstep E b c \<Longrightarrow> csteps E a c"
  by (meson converse_rtranclp_into_rtranclp r_into_rtranclp)

lemma at_at: "at (c\<lparr>writer := cw, around := w, calls := (calls c)(i \<mapsto> j)\<rparr>) i j' = at (c\<lparr>writer := cw, around := w\<rparr>) i j'"
  by (simp add: at_def)

lemma at_over [simp]:
  "(at c i j)\<lparr>writer := cw\<rparr> = at (c\<lparr>writer := cw\<rparr>) i j"
  "(at c i j)\<lparr>around := w\<rparr> = at (c\<lparr>around := w\<rparr>) i j"
  "at (at c i j) i j' = at c i j'"
  by (simp_all add: at_def)

lemma same_parts [simp]:
  "c\<lparr>writer := writer c\<rparr> = c" "c\<lparr>around := around c\<rparr> = c" "c\<lparr>around := w, writer := cw\<rparr> = c\<lparr>writer := cw, around := w\<rparr>"
  by simp_all

text \<open>The two ways of a \<open>WriteChunk\<close>: a part that is verified, and a part that is transferred.\<close>

lemma verify_runs_steps:
  fixes c :: "'s conf" and k :: int
  defines "cw \<equiv> writer c"
  assumes start: "cstep E c (at c i (Verifying k rd p))"
    and run: "inspect (hash_completed E cw k rd) (\<lambda>r. case r of
        Inl e \<Rightarrow> ok (Inl e, cw)
      | Inr digest \<Rightarrow>
          if digest \<noteq> p_SHA256 p then
            andThen (ignoring (store_remove E (cw_resumeStore cw))) (\<lambda>_.
              ok (Inl (changed_error k), invalidate cw))
          else ok (Inr (expected_len cw k), cw)) (around c) = (Inr (res, cw'), w')"
  shows "csteps E c (at (c\<lparr>writer := cw', around := w'\<rparr>) i (Wrote res))"
proof -
  obtain r w1 where h: "hash_completed E cw k rd (around c) = (r, w1)"
    by (cases "hash_completed E cw k rd (around c)")
  have second: "csteps E c (at (c\<lparr>around := w1\<rparr>) i (verified (expected_len cw k) k p r))"
    using csteps_trans2 [OF start] verify [of "at c i (Verifying k rd p)" i k rd p E r w1] h
    by (simp add: cw_def)
  show ?thesis
  proof (cases "\<exists>digest. r = Inr digest \<and> digest \<noteq> p_SHA256 p")
    case False
    with run h second show ?thesis
      by (auto simp: inspect_def verified_def cw_def split: sum.splits if_splits)
  next
    case True
    then obtain digest where r: "r = Inr digest" "digest \<noteq> p_SHA256 p" by blast
    let ?marked = "at (c\<lparr>writer := invalidate cw, around := w1\<rparr>) i (Discarding k)"
    obtain w2 where rm: "ignoring (store_remove E (cw_resumeStore cw)) w1 = (Inr (), w2)"
      by (cases "store_remove E (cw_resumeStore cw) w1") (simp add: ignoring_def inspect_def)
    have "cstep E (at (c\<lparr>around := w1\<rparr>) i (Differing k)) ?marked"
      using mark [of "at (c\<lparr>around := w1\<rparr>) i (Differing k)" i k E] by (simp add: cw_def)
    moreover have "cstep E ?marked
        (at (c\<lparr>writer := invalidate cw, around := w2\<rparr>) i (Wrote (Inl (changed_error k))))"
      using discard [of ?marked i k E] rm by simp
    ultimately have "csteps E c (at (c\<lparr>writer := invalidate cw, around := w2\<rparr>) i (Wrote (Inl (changed_error k))))"
      using second r by (simp add: verified_def)
    with run h r rm show ?thesis
      by (auto simp: inspect_def andThen_def)
  qed
qed

lemma transfer_runs_steps:
  fixes c :: "'s conf" and k :: int
  defines "cw \<equiv> writer c"
  assumes start: "cstep E c (at c i (Transferring k rd))"
    and run: "inspect (transfer_part E cw k rd) (\<lambda>r. case r of
        Inl e \<Rightarrow> ok (Inl e, cw)
      | Inr (etag, digest) \<Rightarrow> commit_part E cw k etag digest) (around c) = (Inr (res, cw'), w')"
  shows "csteps E c (at (c\<lparr>writer := cw', around := w'\<rparr>) i (Wrote res))"
proof -
  obtain r w1 where t: "transfer_part E cw k rd (around c) = (r, w1)"
    by (cases "transfer_part E cw k rd (around c)")
  have second: "csteps E c (at (c\<lparr>around := w1\<rparr>) i (transferred k r))"
    using csteps_trans2 [OF start] transfer [of "at c i (Transferring k rd)" i k rd E r w1] t
    by (simp add: cw_def)
  show ?thesis
  proof (cases r)
    case (Inl e)
    with run t second show ?thesis by (auto simp: inspect_def transferred_def cw_def)
  next
    case (Inr x)
    obtain etag digest where x: "x = (etag, digest)" by (cases x)
    have "commit_part E cw k etag digest w1 = (Inr (res, cw'), w')"
      using run t Inr x by (simp add: inspect_def)
    then have "cstep E (at (c\<lparr>around := w1\<rparr>) i (Committing k etag digest))
        (at (c\<lparr>writer := cw', around := w'\<rparr>) i (Wrote res))"
      using commit [of "at (c\<lparr>around := w1\<rparr>) i (Committing k etag digest)" i k etag digest E]
      by (simp add: cw_def)
    with second Inr x show ?thesis by (simp add: transferred_def)
  qed
qed

lemma WriteChunk_runs_steps:
  assumes "calls c i = None" and "WriteChunk E (writer c) k rd (around c) = (Inr (res, cw'), w')"
  shows "csteps E c (at (c\<lparr>writer := cw', around := w'\<rparr>) i (Wrote res))"
proof -
  have first: "cstep E c (at c i (start_write (writer c) k rd))"
    using assms(1) by (rule call_write)
  note run = assms(2) [unfolded WriteChunk_def changed_error_def [symmetric] chunk_error_def [symmetric]]
  show ?thesis
  proof (cases "0 \<le> k \<and> k < cw_partCount (writer c)")
    case False
    with run first show ?thesis by (auto simp: start_write_def r_into_rtranclp)
  next
    case inside: True
    show ?thesis
    proof (cases "write_begin (writer c) k")
      case (Inl e)
      with inside run first show ?thesis by (auto simp: start_write_def r_into_rtranclp)
    next
      case (Inr plan)
      show ?thesis
      proof (cases plan)
        case (Verify p)
        with inside Inr run first show ?thesis
          by (intro verify_runs_steps [where k = k and rd = rd and p = p]) (simp_all add: start_write_def)
      next
        case Transfer
        with inside Inr run first show ?thesis
          by (intro transfer_runs_steps [where k = k and rd = rd]) (simp_all add: start_write_def)
      qed
    qed
  qed
qed

lemma Close_runs_steps:
  assumes "calls c i = None" and "Close E (writer c) (around c) = (Inr (res, cw'), w')"
  shows "csteps E c (at (c\<lparr>writer := cw', around := w'\<rparr>) i (Closed res))"
proof (cases "close_begin (writer c)")
  case (Inl e)
  then have "res = Some e \<and> cw' = writer c \<and> w' = around c"
    using assms(2) by (simp add: Close_def)
  with call_close_refused [OF assms(1) Inl, of E] show ?thesis
    by (simp add: r_into_rtranclp)
next
  case (Inr x)
  then obtain ps cw where x: "close_begin (writer c) = Inr (ps, cw)" by (cases x) auto
  let ?c1 = "c\<lparr>writer := cw\<rparr>" and ?store = "cw_resumeStore cw"
  obtain r w1 where f: "finishMultipartUpload E (cw_init cw) (cw_existingRev cw) ps (around c) = (r, w1)"
    by (cases "finishMultipartUpload E (cw_init cw) (cw_existingRev cw) ps (around c)")
  obtain w2 where rm: "ignoring (store_remove E ?store) w1 = (Inr (), w2)"
    by (cases "store_remove E ?store w1") (simp add: ignoring_def inspect_def)
  obtain st w3 where rl: "release E ?store w2 = (Inr st, w3)"
    using assms(2) x f rm by (cases "release E ?store w2") (auto simp: Close_def inspect_def andThen_def split: sum.splits)
  let ?res = "case r of Inl e \<Rightarrow> Some (close_error cw e) | Inr _ \<Rightarrow> None"
  have "csteps E c (at (c\<lparr>writer := cw, around := w2\<rparr>) i (Unlocking ?res))"
  proof (rule rtranclp_trans [OF csteps_trans2 r_into_rtranclp])
    show "cstep E c (at ?c1 i (Finishing ps))"
      using assms(1) x by (rule call_close)
    show "cstep E (at ?c1 i (Finishing ps)) (at (c\<lparr>writer := cw, around := w1\<rparr>) i (CleaningUp ?res))"
      using finish [of "at ?c1 i (Finishing ps)" i ps E r w1] f by (simp cong: sum.case_cong)
    show "cstep E (at (c\<lparr>writer := cw, around := w1\<rparr>) i (CleaningUp ?res))
        (at (c\<lparr>writer := cw, around := w2\<rparr>) i (Unlocking ?res))"
      using clean_up [of "at (c\<lparr>writer := cw, around := w1\<rparr>) i (CleaningUp ?res)" i ?res E] rm by simp
  qed
  moreover have "cstep E (at (c\<lparr>writer := cw, around := w2\<rparr>) i (Unlocking ?res))
      (at (c\<lparr>writer := cw\<lparr>cw_resumeStore := st\<rparr>, around := w3\<rparr>) i (Closed ?res))"
    using unlock [of "at (c\<lparr>writer := cw, around := w2\<rparr>) i (Unlocking ?res)" i ?res E] rl by simp
  moreover have "res = ?res" "cw' = cw\<lparr>cw_resumeStore := st\<rparr>" "w' = w3"
    using assms(2) x f rm rl by (auto simp: Close_def inspect_def andThen_def)
  ultimately show ?thesis by (simp add: rtranclp.rtrancl_into_rtrancl)
qed

lemma Abort_runs_steps:
  assumes "calls c i = None" and "Abort E (writer c) (around c) = (Inr cw', w')"
  shows "csteps E c (at (c\<lparr>writer := cw', around := w'\<rparr>) i Aborted)"
proof -
  have same: "cw_resumeStore (abort_flag (writer c)) = cw_resumeStore (writer c)"
    by (simp add: abort_flag_def)
  obtain st where rl: "release E (cw_resumeStore (writer c)) (around c) = (Inr st, w')"
    and "cw' = abort_flag (writer c)\<lparr>cw_resumeStore := st\<rparr>"
    using assms(2) by (auto simp: Abort_def andThen_def split: prod.splits sum.splits)
  with csteps_trans2 [OF call_abort [OF assms(1)]
      abort_unlock [of "at (c\<lparr>writer := abort_flag (writer c)\<rparr>) i Aborting" i]] same
  show ?thesis by simp
qed


definition sample_reader :: reader where
  "sample_reader = \<lparr>rd_seek = None, rd_data = ''abc'', rd_end = Foreign ''EOF''\<rparr>"


section \<open>The resume state stays usable\<close>

text \<open>The state of a writer, which fits the target, and digests that fit the format.\<close>

definition resumable :: "target \<Rightarrow> 's writer \<Rightarrow> bool" where
  "resumable t cw \<longleftrightarrow>
     t_size t = cw_size cw \<and> t_partSize t = cw_partSize cw \<and> t_partCount t = cw_partCount cw
     \<and> (\<exists>s. cw_resumeState cw = Some s \<and> valid_for_target t s)"

definition digests_ok :: "'s conf \<Rightarrow> bool" where
  "digests_ok c \<longleftrightarrow>
     (\<forall>i k etag digest. calls c i = Some (Committing k etag digest) \<longrightarrow>
        hex_decoded_length digest = Some 32)"

lemma transfer_digest:
  "transfer_part E cw k rd w = (Inr (etag, digest), w') \<Longrightarrow> \<exists>x. digest = sha256 E x"
  by (auto simp: transfer_part_def Let_def andThen_def split: sum.splits option.splits prod.splits if_splits)

lemma validFor_update:
  assumes "valid_for_target t s" and "part_valid (t_size t) (t_partSize t) (t_partCount t) key p"
  shows "valid_for_target t (s\<lparr>rs_Completed := AList.update key p (rs_Completed s)\<rparr>)"
  using assms by (auto simp: valid_for_target_def validFor_def list_all_iff dest!: set_updateD split: if_splits)

lemma record_part_resumable:
  assumes "resumable t cw" and "in_file cw k" and "etag \<noteq> []" and "hex_decoded_length digest = Some 32"
    and "in_i64 (cw_partCount cw)"
  shows "resumable t (record_part cw k etag digest)"
proof -
  obtain s where s: "cw_resumeState cw = Some s" "valid_for_target t s"
    using assms(1) by (auto simp: resumable_def)
  have "in_i64 (k + 1)"
    using assms(2,5) by (auto simp: in_file_def in_i64_def)
  then have "part_valid (t_size t) (t_partSize t) (t_partCount t) (FormatInt (part_of k))
      \<lparr>p_ETag = etag, p_Size = expected_len cw k, p_SHA256 = digest\<rparr>"
    using assms by (simp add: part_valid_def part_of_def in_file_def resumable_def expected_len_def)
  then have "valid_for_target t (s\<lparr>rs_Completed := AList.update (FormatInt (part_of k))
      \<lparr>p_ETag = etag, p_Size = expected_len cw k, p_SHA256 = digest\<rparr> (rs_Completed s)\<rparr>)"
    by (rule validFor_update [OF s(2)])
  with assms(1) s(1) show ?thesis
    by (simp add: resumable_def) (simp add: record_part_def Let_def)
qed

lemma resumable_flags [simp]:
  "resumable t (cw\<lparr>cw_closed := b\<rparr>) = resumable t cw" "resumable t (cw\<lparr>cw_aborted := b\<rparr>) = resumable t cw"
  "resumable t (invalidate cw) = resumable t cw" "resumable t (cw\<lparr>cw_resumeStore := st\<rparr>) = resumable t cw"
  by (simp_all add: resumable_def)

lemma digests_ok_at:
  "digests_ok c \<Longrightarrow> (\<And>k e d. j = Committing k e d \<Longrightarrow> hex_decoded_length d = Some 32) \<Longrightarrow>
     digests_ok (at (c\<lparr>writer := cw, around := w\<rparr>) i j)"
  by (auto simp: digests_ok_def)

lemma cstep_digests:
  assumes "cstep E c c'" and "\<And>x. hex_decoded_length (sha256 E x) = Some 32" and "digests_ok c"
  shows "digests_ok c'"
  using assms
proof (induction rule: cstep.induct)
  case (transfer c i k rd r w)
  then show ?case
    by (auto simp: digests_ok_def transferred_def dest: transfer_digest split: sum.splits prod.splits)
qed (auto simp: digests_ok_def start_write_def verified_def split: sum.splits write_plan.splits)

lemma cstep_resumable:
  assumes "cstep E c c'" and "conf_ok c" and "digests_ok c" and "in_i64 (cw_partCount (writer c))"
    and "resumable t (writer c)"
  shows "resumable t (writer c')"
  using assms
proof (induction rule: cstep.induct)
  case (commit c i k etag digest res cw w)
  then have "job_ok (writer c) (Committing k etag digest)" "hex_decoded_length digest = Some 32"
    by (auto simp: conf_ok_def digests_ok_def)
  then have "in_file (writer c) k" "etag \<noteq> []" "hex_decoded_length digest = Some 32"
    by (auto simp: job_ok_def)
  with commit show ?case
    using commit_part_Inr [OF commit(2)] by (auto intro: record_part_resumable)
qed (auto simp: close_begin_Inr abort_flag_def)

text \<open>
  C7. What is saved can be resumed. If the resume state of a freshly opened writer fits the
  upload's target (source, size, modification time, destination, revision and part plan), then
  in every interleaving the state of the writer, which every commit saves, still fits the same
  target and records exactly the parts of the writer; so a later run that finds the file and
  the same target resumes instead of discarding it.
\<close>

theorem resume_state_stays_valid:
  assumes "\<And>x. hex_decoded_length (sha256 E x) = Some 32" and "opened c0"
    and "resumable t (writer c0)" and "in_i64 (cw_partCount (writer c0))" and "csteps E c0 c"
  shows "\<exists>s. cw_resumeState (writer c) = Some s \<and> valid_for_target t s
    \<and> partInfo_of s = cw_partInfo (writer c)"
proof -
  have "conf_ok c0 \<and> digests_ok c0 \<and> in_i64 (cw_partCount (writer c0)) \<and> resumable t (writer c0)"
    using assms(2-4) opened_ok by (auto simp: digests_ok_def opened_def)
  with assms(5) have "conf_ok c \<and> digests_ok c \<and> in_i64 (cw_partCount (writer c)) \<and> resumable t (writer c)"
    by (induction rule: rtranclp_induct)
      (auto dest: cstep_ok cstep_digests [OF _ assms(1)] cstep_resumable cstep_constants)
  then show ?thesis by (auto simp: resumable_def conf_ok_def wf_writer_def)
qed

definition sample_target :: target where
  "sample_target =
     \<lparr>t_identity = ''I'', t_size = 3, t_modTime = 1, t_parentID = ''P'', t_leaf = ''f'',
      t_existingID = [], t_existingRev = [], t_partSize = 20971520, t_partCount = 1,
      t_preconditioned = False\<rparr>"

lemma toy_digest_hex: "hex_decoded_length (toy_digest x) = Some 32"
proof -
  let ?n = "sum_list (map (\<lambda>c. byte c) x) mod 16"
  have "?n \<in> set [0..<16]" by simp
  moreover have "\<forall>n \<in> set [0..<16]. hex_decoded_length (replicate 63 CHR ''0'' @ [''0123456789abcdef'' ! n]) = Some 32"
    by code_simp
  ultimately show ?thesis unfolding toy_digest_def by blast
qed

theorem resume_state_stays_valid_witness:
  "\<exists>s. cw_resumeState (writer closed_conf) = Some s \<and> valid_for_target sample_target s
     \<and> partInfo_of s = [(''1'', ''E'', 3)]"
proof -
  have "cstep sample_env sample_conf closed_conf"
    using call_close [of sample_conf 0 "[(''1'', ''E'', 3)]" "sample_writer\<lparr>cw_closed := True\<rparr>"]
    by (simp add: sample_conf_def closed_conf_def close_begin_Inr) (simp add: sample_writer_def)
  then have steps: "csteps sample_env sample_conf closed_conf" by blast
  have "chunkLen 3 20971520 0 = 3" by (simp add: chunkLen_def i64_def)
  then have "resumable sample_target (writer sample_conf)"
    by (simp add: resumable_def sample_conf_def sample_writer_def sample_target_def
        valid_for_target_def validFor_def newMultipartResumeState_def init_complete_def
        part_valid_def FormatInt_1 toy_digest_hex)
  moreover have "in_i64 (cw_partCount (writer sample_conf))"
    by (simp add: sample_conf_def sample_writer_def)
  ultimately show ?thesis
    using resume_state_stays_valid [OF _ sample_opened _ _ steps, of sample_target]
    by (simp add: toy_digest_hex closed_conf_def) (simp add: sample_writer_def)
qed

end
