(* ===== verification/Chunk_Writer_Open.thy ===== *)
theory Chunk_Writer_Open
  imports Chunk_Writer_Steps
begin

text \<open>
  What \<open>OpenChunkWriter\<close> promises: the writer it hands out is ready for the concurrent methods of
  \<open>Chunk_Writer_Steps\<close>, and no request of opening or closing it can replace a file that the
  caller's precondition does not describe.
\<close>

section \<open>The session\<close>

text \<open>The parts of a session fit the target, because it is new or because it was validated.\<close>

definition session_ok :: "target \<Rightarrow> resumeState \<Rightarrow> bool" where
  "session_ok t s \<longleftrightarrow>
     list_all (\<lambda>(key, p). part_valid (t_size t) (t_partSize t) (t_partCount t) key p) (rs_Completed s)"

lemma new_state_ok: "session_ok t (new_state t init)"
  by (simp add: session_ok_def new_state_def newMultipartResumeState_def)

lemma valid_ok: "valid_for_target t s \<Longrightarrow> session_ok t s"
  by (simp add: session_ok_def valid_for_target_def validFor_def split: if_splits)

lemma load_valid_gives: "gives (\<lambda>old. \<forall>s. old = Some s \<longrightarrow> session_ok t s) (load_valid E st t)"
  unfolding load_valid_def by (intro gives_rules) (auto intro: valid_ok)

lemma fresh_session_gives: "gives (session_ok t) (fresh_session E st t init)"
  unfolding fresh_session_def by (intro gives_rules new_state_ok)

lemma resume_or_start_gives: "gives (\<lambda>(s, resumed). session_ok t s) (resume_or_start E st t)"
  unfolding resume_or_start_def
  by (rule gives_andThen [OF load_valid_gives])
    (intro gives_rules gives_andThen [OF fresh_session_gives]; simp)

lemma sign_or_restart_gives:
  assumes "session_ok t s"
  shows "gives (\<lambda>(s', signed). session_ok t s') (sign_or_restart E st t remote (s, resumed))"
proof -
  have fresh: "gives (\<lambda>(s', signed). session_ok t s') (andThen (fresh_session E st t init)
      (\<lambda>s'. andThen (sign_missing E t s') (\<lambda>signed. ok (s', signed))))" for init
    by (rule gives_andThen [OF fresh_session_gives]) (intro gives_rules; simp)
  show ?thesis
    unfolding sign_or_restart_def Let_def prod.case
    by (intro fresh gives_rules) (use assms in \<open>auto simp: session_ok_def\<close>)
qed

lemma unsigned_from_None:
  "unsigned_from has signed count part = None \<Longrightarrow> part \<le> n \<Longrightarrow> n \<le> count \<Longrightarrow>
     has (FormatInt n) \<or> 2 \<le> length (part_auth signed n)"
proof (induction has signed count part rule: unsigned_from.induct)
  case (1 has signed count part)
  have step: "unsigned_from has signed count part =
      (if part \<le> count then
         (if has (FormatInt part) then unsigned_from has signed count (part + 1)
          else if length (part_auth signed part) < 2 then Some part
          else unsigned_from has signed count (part + 1))
       else None)"
    by (rule unsigned_from.simps)
  show ?case
    using "1.IH" "1.prems" step by (cases "part = n") (auto split: if_splits)
qed

definition all_signed :: "target \<Rightarrow> resumeState \<Rightarrow> signedParts \<Rightarrow> bool" where
  "all_signed t s signed \<longleftrightarrow>
     (\<forall>n. 1 \<le> n \<longrightarrow> n \<le> t_partCount t \<longrightarrow>
        FormatInt n \<in> fst ` set (partInfo_of s) \<or> 2 \<le> length (part_auth signed n))"

lemma check_signed_None: "check_signed t s signed = None \<Longrightarrow> all_signed t s signed"
  unfolding check_signed_def all_signed_def
  by (auto split: option.splits dest!: unsigned_from_None)

text \<open>The target that \<open>find_target\<close> resolves.\<close>

definition planned :: "'s source \<Rightarrow> target \<Rightarrow> bool" where
  "planned src t \<longleftrightarrow>
     t_size t = src_size src \<and> t_partCount t = partCount (src_size src) (t_partSize t)"

lemma find_target_gives: "gives (planned src) (find_target E f remote src p)"
  unfolding find_target_def Let_def by (intro gives_rules) (simp add: planned_def)

lemma open_session_gives:
  "gives (\<lambda>cw. \<exists>t s signed. cw = new_writer t src st s signed \<and> planned src t \<and> session_ok t s
      \<and> all_signed t s signed) (open_session E f remote src p st)"
  unfolding open_session_def
proof (rule gives_andThen [OF find_target_gives], rule gives_andThen [OF resume_or_start_gives])
  fix t and old :: "resumeState \<times> bool" assume t: "planned src t" and old: "case old of (s, resumed) \<Rightarrow> session_ok t s"
  then have "gives (\<lambda>(s', signed). session_ok t s') (sign_or_restart E st t remote old)"
    by (cases old) (simp add: sign_or_restart_gives)
  then show "gives (\<lambda>cw. \<exists>t s signed. cw = new_writer t src st s signed \<and> planned src t \<and> session_ok t s
      \<and> all_signed t s signed)
    (andThen (sign_or_restart E st t remote old) (\<lambda>(s, signed).
       andThen (check (check_signed t s signed)) (\<lambda>_. ok (new_writer t src st s signed))))"
    by (rule gives_andThen) (use t in \<open>auto intro!: gives_check_then gives_ok dest: check_signed_None\<close>)
qed

section \<open>The writer is ready\<close>

text \<open>A state whose keys are as the program writes them.\<close>

definition canonical :: "resumeState \<Rightarrow> bool" where
  "canonical s \<longleftrightarrow>
     distinct (map fst (rs_Completed s))
     \<and> (\<forall>(key, p) \<in> set (rs_Completed s). key = FormatInt (the (ParseInt key)))"

lemma part_valid_done:
  assumes "part_valid (t_size t) (t_partSize t) (t_partCount t) key p" and "key = FormatInt (the (ParseInt key))"
  shows "part_done (new_writer t src st s signed) (key, p_ETag p, p_Size p)"
proof -
  from assms obtain n where n: "ParseInt key = Some n" "1 \<le> n" "n \<le> t_partCount t" "p_ETag p \<noteq> []"
    "p_Size p = chunkLen (t_size t) (t_partSize t) (n - 1)" "key = FormatInt n"
    by (auto simp: part_valid_def split: option.splits if_splits)
  then show ?thesis
    by (auto simp: part_done_def new_writer_def expected_len_def part_of_def intro!: exI [of _ "n - 1"])
qed

lemma new_writer_wf:
  assumes "session_ok t s" and "canonical s"
  shows "wf_writer (new_writer t src st s signed)"
proof -
  have "part_done (new_writer t src st s signed) (key, p_ETag p, p_Size p)"
    if "(key, p) \<in> set (rs_Completed s)" for key p
    using assms that by (intro part_valid_done) (auto simp: session_ok_def list_all_iff canonical_def)
  moreover have "map fst (partInfo_of s) = map fst (rs_Completed s)"
    by (auto simp: partInfo_of_def)
  ultimately show ?thesis
    using assms(2) by (auto simp: wf_writer_def new_writer_def canonical_def)
      (auto simp: partInfo_of_def)
qed

lemma new_writer_tiled:
  assumes "planned src t" and "0 < src_size src" and "0 < t_partSize t" and "in_i64 (src_size src + t_partSize t)"
  shows "tiled (new_writer t src st s signed)"
proof -
  have "t_partCount t = (t_size t + t_partSize t - 1) div t_partSize t"
    using assms by (simp add: planned_def partCount_eq)
  moreover have "in_i64 (t_size t)"
    using assms by (simp add: planned_def in_i64_def)
  ultimately show ?thesis
    using ceil_bounds [of "t_size t" "t_partSize t"] assms
    by (auto simp: tiled_def new_writer_def planned_def)
qed

lemma OpenChunkWriter_gives:
  "gives (\<lambda>(chunk, n, cw). \<exists>st t s signed. cw = new_writer t src st s signed \<and> planned src t
      \<and> session_ok t s \<and> all_signed t s signed \<and> chunk = t_partSize t \<and> 1 \<le> n \<and> 0 < src_size src)
    (OpenChunkWriter E f remote src opts)"
  unfolding OpenChunkWriter_def
  by (intro gives_then gives_if gives_throw gives_inspect [OF open_session_gives];
      simp add: gives_then)
    (auto intro!: gives_ok simp: defaultUploadConcurrency_def new_writer_def)


section \<open>Opening and closing under a precondition\<close>

text \<open>What a request of an upload under the precondition \<open>p\<close> must look like.\<close>

definition under :: "'s env \<Rightarrow> syncUploadPreconditions \<Rightarrow> request \<Rightarrow> bool" where
  "under E p r \<longleftrightarrow>
     (\<exists>parentID name rv. guarded E parentID name (if u_expectedAbsent p then [] else u_expectedID p) rv r
        \<and> (u_expectedAbsent p \<or> rv = u_expectedRev p))"

definition target_under :: "syncUploadPreconditions \<Rightarrow> target \<Rightarrow> bool" where
  "target_under p t \<longleftrightarrow>
     t_existingID t = (if u_expectedAbsent p then [] else u_expectedID p)
     \<and> (u_expectedAbsent p \<or> t_existingRev t = u_expectedRev p)"

lemma guarded_under: "(\<And>parentID name i rv. guarded E parentID name i rv r) \<Longrightarrow> under E p r"
  by (auto simp: under_def)

lemma other_call_under:
  "api_call E ep r \<Longrightarrow> TrimLeft CHR ''/'' ep \<noteq> ''efast/v1/file/osbeginupload'' \<Longrightarrow>
     TrimLeft CHR ''/'' ep \<noteq> ''efast/v1/file/osinitmultiupload'' \<Longrightarrow>
     TrimLeft CHR ''/'' ep \<noteq> ''efast/v1/file/osendupload'' \<Longrightarrow> under E p r"
  by (intro guarded_under) (auto simp: guarded_def api_call_def)

lemma sign_under: "sends (under E p) (sign_missing E t s)"
proof -
  have "sends (under E p) (sign_ranges E init acc rs)" for init acc rs
    by (induction rs arbitrary: acc)
      (auto simp: osuploadpart_def intro!: runs_rules other_call_under [where ep = "''efast/v1/file/osuploadpart''"])
  then show ?thesis by (simp add: sign_missing_def signMultipartParts_def)
qed

lemma refresh_under: "sends (under E p) (refreshMultipartUpload E init z)"
  unfolding refreshMultipartUpload_def
  by (intro runs_rules other_call_under [where ep = "''efast/v1/file/osuploadrefresh''"]; simp)

lemma startFresh_under:
  assumes "target_under p t"
  shows "sends (under E p) (startFresh E t)"
proof -
  let ?b = "uploadStartBody (t_parentID t) (t_leaf t) (t_existingID t) (t_existingRev t) (t_size t) (t_modTime t)"
  have "under E p (api_request E ApiHTTP None ''POST'' ''efast/v1/file/osinitmultiupload'' (Some (JObj ?b)) tok)"
    for tok
    using assms unfolding under_def target_under_def
    by (intro exI [of _ "t_parentID t"] exI [of _ "t_leaf t"] exI [of _ "t_existingRev t"])
      (auto simp: guarded_def guarded_bodies)
  then show ?thesis
    unfolding startFresh_def by (intro runs_rules)
qed

lemma ignoring_sends [runs_rules]: "sends P m \<Longrightarrow> sends P (ignoring m)"
  unfolding ignoring_def by (intro runs_rules)

lemma session_under:
  assumes "target_under p t"
  shows "sends (under E p) (resume_or_start E st t)"
    and "sends (under E p) (sign_or_restart E st t remote old)"
  unfolding resume_or_start_def sign_or_restart_def load_valid_def fresh_session_def Let_def
  by (intro runs_rules resume_store_sends sign_under refresh_under startFresh_under [OF assms])+

lemma find_target_under:
  assumes "dircache_frame E" and "u_set p"
  shows "sends (under E p) (find_target E f remote src p)" and "gives (target_under p) (find_target E f remote src p)"
proof -
  have look: "lookup_request E c r \<Longrightarrow> under E p r" and read: "read_request E r \<Longrightarrow> under E p r" for c r
    by (intro guarded_under; erule lookup_guarded read_guarded)+
  have "sends (under E p) (multipartPartSize E z)" for z
    unfolding multipartPartSize_def
    by (intro runs_rules other_call_under [where ep = "''efast/v1/file/osoption''"]; simp)
  then show "sends (under E p) (find_target E f remote src p)"
    unfolding find_target_def Let_def
    by (intro runs_rules sends_mono [OF dircache_sends(2) [OF assms(1)] look]
        sends_mono [OF NewObject_sends [OF assms(1)] read])
  show "gives (target_under p) (find_target E f remote src p)"
    unfolding find_target_def Let_def
    by (intro gives_rules gives_check_then)
      (use assms(2) in \<open>auto simp: target_under_def checkObject_None intro!: gives_check_then gives_rules split: if_splits\<close>)
qed

lemma OpenChunkWriter_under:
  assumes frame: "dircache_frame E" and p: "extractSyncUploadPreconditions opts = Inr p" and set: "u_set p"
  shows "sends (under E p) (OpenChunkWriter E f remote src opts)"
    and "gives (\<lambda>(chunk, n, cw). u_expectedAbsent p \<or> cw_existingRev cw = u_expectedRev p)
      (OpenChunkWriter E f remote src opts)"
proof -
  have session: "sends (under E p) (open_session E f remote src p st)" for st
    unfolding open_session_def
    by (rule sends_gives [OF find_target_under [OF frame set]])
      (intro runs_rules session_under; assumption)
  have result: "gives (\<lambda>cw. u_expectedAbsent p \<or> cw_existingRev cw = u_expectedRev p)
      (open_session E f remote src p st)" for st
    unfolding open_session_def
    by (rule gives_andThen [OF find_target_under(2) [OF frame set]])
      (intro gives_rules; auto simp: new_writer_def target_under_def)
  show "sends (under E p) (OpenChunkWriter E f remote src opts)"
    unfolding OpenChunkWriter_def
    by (rule sends_lift_then) (use p session in \<open>auto intro!: runs_rules resume_store_sends split: sum.split\<close>)
  show "gives (\<lambda>(chunk, n, cw). u_expectedAbsent p \<or> cw_existingRev cw = u_expectedRev p)
      (OpenChunkWriter E f remote src opts)"
    unfolding OpenChunkWriter_def
    by (rule gives_lift_then) (use p in \<open>auto intro!: gives_then gives_if gives_inspect [OF result] gives_ok split: sum.split\<close>)
qed

lemma Close_under:
  assumes "u_expectedAbsent p \<or> cw_existingRev cw = u_expectedRev p"
  shows "sends (under E p) (Close E cw)"
proof -
  have finish: "sends (under E p) (finishMultipartUpload E init (cw_existingRev cw) ps)" for init ps
    by (rule sends_mono [OF finish_guarded [where p = "[]" and nm = "[]"
            and i = "if u_expectedAbsent p then [] else u_expectedID p"]])
      (use assms in \<open>unfold under_def, blast\<close>)
  have "cw_existingRev cw' = cw_existingRev cw" if "close_begin cw = Inr (ps, cw')" for ps cw'
    using that by (simp add: close_begin_Inr)
  then show ?thesis
    unfolding Close_def
    by (auto intro!: runs_rules resume_store_sends finish split: sum.split)
qed

text \<open>
  C12. A chunked upload keeps the precondition. When the options of \<open>OpenChunkWriter\<close> carry a
  precondition, then whatever the cache, the resume file and the service hold, a session is only
  started (also after an expired one) for the expected ID with the expected revision attached,
  or, when absence is expected, as a new file that must not replace anything; and the writer it
  returns is closed under the expected revision, however the service answers.
\<close>

theorem chunked_upload_under_precondition:
  assumes "dircache_frame E" and "extractSyncUploadPreconditions opts = Inr p" and "u_set p"
  shows "(\<forall>r \<in> set (requests (OpenChunkWriter E f remote src opts) w). under E p r)
    \<and> (\<forall>chunk n cw w'. OpenChunkWriter E f remote src opts w = (Inr (chunk, n, cw), w') \<longrightarrow>
         (\<forall>v. \<forall>r \<in> set (requests (Close E cw) v). under E p r))"
proof (intro conjI ballI allI impI)
  show "under E p r" if "r \<in> set (requests (OpenChunkWriter E f remote src opts) w)" for r
    using OpenChunkWriter_under(1) [OF assms] that by (rule sends_requests)
  show "under E p r" if "OpenChunkWriter E f remote src opts w = (Inr (chunk, n, cw), w')"
    and "r \<in> set (requests (Close E cw) v)" for chunk n cw w' v r
    using Close_under [of p cw E] givesD [OF OpenChunkWriter_under(2) [OF assms] that(1)] that(2)
    by (auto intro: sends_requests)
qed

text \<open>Opening a writer for \<open>L/f\<close>, three bytes in parts of two, in the sample setting.\<close>

definition open_script :: script where
  "open_script = [answer 200 libraries_body, answer 200 info_body, answer 200 options_body,
     answer 200 init_body, answer 200 parts_body]"

lemma sample_target_run:
  assumes "ext w = answer 200 libraries_body # answer 200 info_body # answer 200 options_body # s"
  obtains t w' where "find_target sample_env sample_fs ''L/f'' sample_source
      \<lparr>u_expectedID = ''D'', u_expectedRev = ''R'', u_expectedAbsent = False, u_set = True\<rparr> w = (Inr t, w')"
    and "ext w' = s" and "t_size t = 3" and "t_partSize t = 2" and "t_partCount t = 2" and "t_preconditioned t"
proof -
  obtain w1 where w1: "FindPath sample_env sample_fs ''L/f'' True w = (Inr (''f'', ''i''), w1)"
    and e1: "ext w1 = answer 200 info_body # answer 200 options_body # s"
    using assms by (rule sample_FindPath)
  obtain w2 where w2: "NewObject sample_env sample_fs ''L/f'' w1 = (Inr (objectFromEntry sample_fs ''L/f''
      (zero_entry\<lparr>e_DocID := ''D'', e_Size := 3, e_Rev := ''R''\<rparr>)), w2)"
    and e2: "ext w2 = answer 200 options_body # s"
    using e1 by (rule sample_NewObject)
  obtain w3 where w3: "multipartPartSize sample_env 3 w2 = (Inr 2, w3)" and e3: "ext w3 = s"
    using e2 by (rule sample_plan)
  have "src_size sample_source = 3" by (simp add: sample_source_def)
  then show ?thesis
    using w1 w2 w3 e3 that
    by (simp add: find_target_def run_simps virtualRootID_def checkObject_def objectFromEntry_def
        Let_def cong: run_congs) (simp add: partCount_def quot_def i64_def)
qed

lemma sample_fresh:
  assumes "ext w = answer 200 init_body # s"
  obtains w' where "resume_or_start sample_env disabled_store t w = (Inr (new_state t sample_init, False), w')"
    and "ext w' = s"
  using assms
  by (auto simp: resume_or_start_def load_valid_def store_load_def disabled_store_def startFresh_def
      fresh_session_def ignoring_def store_save_def sample_steps sample_bodies init_complete_def
      cong: run_congs)

lemma sample_sign:
  assumes "ext w = answer 200 parts_body # s" and "t_partCount t = 2"
  obtains w' where "sign_or_restart sample_env disabled_store t rm (new_state t sample_init, False) w =
      (Inr (new_state t sample_init, sample_auths), w')"
proof -
  have none: "(\<lambda>k. k \<in> fst ` set (partInfo_of (new_state t i))) = (\<lambda>_. False)" for i
    by (simp add: new_state_def newMultipartResumeState_def partInfo_of_def)
  have "missingMultipartRanges 2 (\<lambda>_. False) = [''1-2'']"
    by code_simp
  then show ?thesis
    using assms that
    by (simp add: sign_or_restart_def sign_missing_def none signMultipartParts_def osuploadpart_def
        sample_steps sample_bodies sample_parts cong: run_congs)
qed

lemma sample_check:
  assumes "t_partCount t = 2"
  shows "check_signed t (new_state t sample_init) sample_auths = None"
proof -
  have none: "(\<lambda>k. k \<in> fst ` set (partInfo_of (new_state t i))) = (\<lambda>_. False)" for i
    by (simp add: new_state_def newMultipartResumeState_def partInfo_of_def)
  have "unsigned_from (\<lambda>_. False) sample_auths 2 1 = None"
    unfolding sample_auths_def by code_simp
  then show ?thesis by (simp add: check_signed_def none assms)
qed

lemma sample_open:
  obtains cw w' where "OpenChunkWriter sample_env sample_fs ''L/f'' sample_source sample_options
      (start_world open_script) = (Inr (2, 4, cw), w')"
proof -
  let ?p = "\<lparr>u_expectedID = ''D'', u_expectedRev = ''R'', u_expectedAbsent = False, u_set = True\<rparr>"
  obtain t w1 where t: "find_target sample_env sample_fs ''L/f'' sample_source ?p (start_world open_script) = (Inr t, w1)"
    and e1: "ext w1 = [answer 200 init_body, answer 200 parts_body]"
    and t2: "t_partSize t = 2" "t_partCount t = 2"
    by (rule sample_target_run [of "start_world open_script"]) (auto simp: start_world_def open_script_def)
  obtain w2 where w2: "resume_or_start sample_env disabled_store t w1 = (Inr (new_state t sample_init, False), w2)"
    and e2: "ext w2 = [answer 200 parts_body]"
    using e1 by (rule sample_fresh)
  obtain w3 where w3: "sign_or_restart sample_env disabled_store t ''L/f'' (new_state t sample_init, False) w2 =
      (Inr (new_state t sample_init, sample_auths), w3)"
    using e2 t2(2) by (rule sample_sign)
  have "open_session sample_env sample_fs ''L/f'' sample_source ?p disabled_store (start_world open_script) =
      (Inr (new_writer t sample_source disabled_store (new_state t sample_init) sample_auths), w3)"
    using t w2 w3 by (simp add: open_session_def run_simps sample_check t2 cong: run_congs)
  then show ?thesis
    using that
    by (simp add: OpenChunkWriter_def openMultipartResumeStore_def sample_lookup run_simps
        sample_fs_def sample_source_def cong: run_congs) (simp add: new_writer_def t2)
qed


theorem chunked_upload_under_precondition_witness:
  "\<exists>cw w'. OpenChunkWriter sample_env sample_fs ''L/f'' sample_source sample_options (start_world open_script)
       = (Inr (2, 4, cw), w')
     \<and> (\<forall>v. \<forall>r \<in> set (requests (Close sample_env cw) v).
          under sample_env \<lparr>u_expectedID = ''D'', u_expectedRev = ''R'', u_expectedAbsent = False, u_set = True\<rparr> r)"
proof -
  obtain cw w' where run: "OpenChunkWriter sample_env sample_fs ''L/f'' sample_source sample_options
      (start_world open_script) = (Inr (2, 4, cw), w')"
    by (rule sample_open)
  with chunked_upload_under_precondition [OF sample_frame sample_lookup(5)]
  have "\<forall>v. \<forall>r \<in> set (requests (Close sample_env cw) v). under sample_env
      \<lparr>u_expectedID = ''D'', u_expectedRev = ''R'', u_expectedAbsent = False, u_set = True\<rparr> r"
    by simp blast
  with run show ?thesis by blast
qed

end
