(* ===== verification/Chunk_Writer_Progress.thy ===== *)
theory Chunk_Writer_Progress
  imports Chunk_Writer_Steps
begin

text \<open>
  Progress of the chunk writer: a call never waits for another one except for the mutex, whose
  sections all end, so every call returns after a few steps of its own. A rank counts the steps
  that a call still has to make. Where the service is cooperative, an upload that was neither
  closed nor aborted can be completed from whatever state the calls have reached.
\<close>

definition rank :: "job \<Rightarrow> nat" where
  "rank j =
     (case j of
        Verifying k rd p \<Rightarrow> 3 | Differing k \<Rightarrow> 2 | Discarding k \<Rightarrow> 1
      | Transferring k rd \<Rightarrow> 2 | Committing k etag digest \<Rightarrow> 1 | Wrote r \<Rightarrow> 0
      | Finishing ps \<Rightarrow> 3 | CleaningUp r \<Rightarrow> 2 | Unlocking r \<Rightarrow> 1 | Closed r \<Rightarrow> 0
      | Aborting \<Rightarrow> 1 | Aborted \<Rightarrow> 0)"

definition returned :: "job \<Rightarrow> bool" where
  "returned j \<longleftrightarrow> (case j of Wrote r \<Rightarrow> True | Closed r \<Rightarrow> True | Aborted \<Rightarrow> True | _ \<Rightarrow> False)"

lemma rank_simps [simp]:
  "rank (Verifying k rd p) = 3" "rank (Differing k) = 2" "rank (Discarding k) = 1"
  "rank (Transferring k rd) = 2" "rank (Committing k etag digest) = 1" "rank (Wrote r) = 0"
  "rank (Finishing ps) = 3" "rank (CleaningUp res) = 2" "rank (Unlocking res) = 1" "rank (Closed res) = 0"
  "rank Aborting = 1" "rank Aborted = 0"
  by (simp_all add: rank_def)

lemma returned_iff: "returned j \<longleftrightarrow> rank j = 0"
  by (cases j) (simp_all add: returned_def)

lemma rank_verified [simp]: "rank (verified n k p r) \<le> 2"
  by (simp add: verified_def split: sum.split)

lemma rank_transferred [simp]: "rank (transferred k r) \<le> 1"
  by (simp add: transferred_def split: sum.split prod.split)

section \<open>The sections end\<close>

lemma commit_part_returns: "\<exists>res cw' w'. commit_part E cw k etag digest w = (Inr (res, cw'), w')"
  by (auto simp: commit_part_def Let_def ignoring_def andThen_def inspect_def split: option.split prod.split)

lemma release_returns: "\<exists>st' w'. release E st w = (Inr st', w')"
  by (simp add: release_def andThen_def tell_def)

section \<open>Steps of one call\<close>

lemma call_step:
  assumes "calls c i = Some j" and "\<not> returned j"
  shows "\<exists>c' j'. cstep E c c' \<and> calls c' = (calls c)(i \<mapsto> j') \<and> rank j' < rank j"
  using assms
proof (cases j)
  case (Verifying k rd p)
  obtain r w where r: "hash_completed E (writer c) k rd (around c) = (r, w)"
    by (cases "hash_completed E (writer c) k rd (around c)")
  have "rank (verified (expected_len (writer c) k) k p r) < 3"
    using rank_verified le_imp_less_Suc by (metis numeral_3_eq_3 numeral_2_eq_2)
  with verify [of c i k rd p E r w] r assms Verifying show ?thesis
    by (intro exI [of _ "at (c\<lparr>around := w\<rparr>) i (verified (expected_len (writer c) k) k p r)"]) auto
next
  case (Differing k)
  with mark [of c i k E] assms show ?thesis
    by (intro exI [of _ "at (c\<lparr>writer := invalidate (writer c)\<rparr>) i (Discarding k)"]) auto
next
  case (Discarding k)
  obtain r w where "ignoring (store_remove E (cw_resumeStore (writer c))) (around c) = (r, w)"
    by (cases "ignoring (store_remove E (cw_resumeStore (writer c))) (around c)")
  with discard [of c i k E r w] assms Discarding show ?thesis
    by (intro exI [of _ "at (c\<lparr>around := w\<rparr>) i (Wrote (Inl (changed_error k)))"]) auto
next
  case (Transferring k rd)
  obtain r w where r: "transfer_part E (writer c) k rd (around c) = (r, w)"
    by (cases "transfer_part E (writer c) k rd (around c)")
  have "rank (transferred k r) < 2"
    using rank_transferred le_imp_less_Suc by (metis One_nat_def numeral_2_eq_2)
  with transfer [of c i k rd E r w] r assms Transferring show ?thesis
    by (intro exI [of _ "at (c\<lparr>around := w\<rparr>) i (transferred k r)"]) auto
next
  case (Committing k etag digest)
  from commit_part_returns obtain res cw w
    where "commit_part E (writer c) k etag digest (around c) = (Inr (res, cw), w)" by blast
  with commit [of c i k etag digest E res cw w] assms Committing show ?thesis
    by (intro exI [of _ "at (c\<lparr>writer := cw, around := w\<rparr>) i (Wrote res)"]) auto
next
  case (Finishing ps)
  obtain r w where "finishMultipartUpload E (cw_init (writer c)) (cw_existingRev (writer c)) ps (around c) = (r, w)"
    by (cases "finishMultipartUpload E (cw_init (writer c)) (cw_existingRev (writer c)) ps (around c)")
  with finish [of c i ps E r w] assms Finishing show ?thesis
    by (intro exI [of _ "at (c\<lparr>around := w\<rparr>) i
        (CleaningUp (case r of Inl e \<Rightarrow> Some (close_error (writer c) e) | Inr _ \<Rightarrow> None))"]) auto
next
  case (CleaningUp res)
  obtain r w where "ignoring (store_remove E (cw_resumeStore (writer c))) (around c) = (r, w)"
    by (cases "ignoring (store_remove E (cw_resumeStore (writer c))) (around c)")
  with clean_up [of c i res E r w] assms CleaningUp show ?thesis
    by (intro exI [of _ "at (c\<lparr>around := w\<rparr>) i (Unlocking res)"]) auto
next
  case (Unlocking res)
  from release_returns obtain st w where "release E (cw_resumeStore (writer c)) (around c) = (Inr st, w)"
    by blast
  with unlock [of c i res E st w] assms Unlocking show ?thesis
    by (intro exI [of _ "at (c\<lparr>writer := (writer c)\<lparr>cw_resumeStore := st\<rparr>, around := w\<rparr>) i (Closed res)"]) auto
next
  case Aborting
  from release_returns obtain st w where "release E (cw_resumeStore (writer c)) (around c) = (Inr st, w)"
    by blast
  with abort_unlock [of c i E st w] assms Aborting show ?thesis
    by (intro exI [of _ "at (c\<lparr>writer := (writer c)\<lparr>cw_resumeStore := st\<rparr>, around := w\<rparr>) i Aborted"]) auto
qed (simp_all add: returned_def)

text \<open>No step of another call disturbs it, and every step of its own brings it nearer to its end.\<close>

lemma step_ranks:
  assumes "cstep E c c'" and "calls c i = Some j"
  shows "calls c' i = Some j \<or> (\<exists>j'. calls c' i = Some j' \<and> rank j' < rank j)"
  using assms
proof (cases rule: cstep.cases)
  case (verify i' k rd p r w)
  have "rank (verified (expected_len (writer c) k) k p r) < 3"
    using rank_verified le_imp_less_Suc by (metis numeral_3_eq_3 numeral_2_eq_2)
  with verify assms(2) show ?thesis by (cases "i' = i") auto
next
  case (transfer i' k rd r w)
  have "rank (transferred k r) < 2"
    using rank_transferred le_imp_less_Suc by (metis One_nat_def numeral_2_eq_2)
  with transfer assms(2) show ?thesis by (cases "i' = i") auto
qed (use assms(2) in auto)

lemma runs_to_return:
  assumes "calls c i = Some j"
  shows "\<exists>c' j'. csteps E c c' \<and> calls c' = (calls c)(i \<mapsto> j') \<and> returned j'"
  using assms
proof (induction "rank j" arbitrary: c j rule: less_induct)
  case less
  show ?case
  proof (cases "returned j")
    case True
    with less.prems show ?thesis by (intro exI [of _ c] exI [of _ j]) (auto simp: fun_upd_idem)
  next
    case False
    from call_step [OF less.prems this] obtain c1 j1
      where c1: "cstep E c c1" "calls c1 = (calls c)(i \<mapsto> j1)" "rank j1 < rank j" by blast
    with less.hyps [of j1 c1] obtain c' j'
      where "csteps E c1 c'" "calls c' = (calls c1)(i \<mapsto> j')" "returned j'" by auto
    with c1 show ?thesis by (intro exI [of _ c'] exI [of _ j']) (auto intro: converse_rtranclp_into_rtranclp)
  qed
qed



section \<open>An upload can be completed\<close>

text \<open>
  The service accepts every part that is still missing, of which the reader \<open>rd k\<close> gives the
  bytes, and finishes the upload.
\<close>

definition part_missing :: "'s writer \<Rightarrow> int \<Rightarrow> bool" where
  "part_missing cw k \<longleftrightarrow> in_file cw k \<and> FormatInt (part_of k) \<notin> fst ` set (cw_partInfo cw)"

definition cooperative :: "'s env \<Rightarrow> 's writer \<Rightarrow> (int \<Rightarrow> reader) \<Rightarrow> bool" where
  "cooperative E cw rd \<longleftrightarrow>
     (\<forall>k w. part_missing cw k \<longrightarrow>
        (\<exists>etag digest w'. transfer_part E cw k (rd k) w = (Inr (etag, digest), w')))
     \<and> (\<forall>ps w. \<exists>meta w'. finishMultipartUpload E (cw_init cw) (cw_existingRev cw) ps w = (Inr meta, w'))"

definition missing_count :: "'s writer \<Rightarrow> nat" where
  "missing_count cw = nat (cw_partCount cw) - length (cw_partInfo cw)"

lemma record_part_keeps [simp]:
  "cw_partCount (record_part cw k etag digest) = cw_partCount cw"
  "cw_init (record_part cw k etag digest) = cw_init cw"
  "cw_existingRev (record_part cw k etag digest) = cw_existingRev cw"
  "cw_closed (record_part cw k etag digest) = cw_closed cw"
  "cw_aborted (record_part cw k etag digest) = cw_aborted cw"
  "cw_partInfo (record_part cw k etag digest) =
     AList.update (FormatInt (part_of k)) (etag, expected_len cw k) (cw_partInfo cw)"
  "transfer_part E (record_part cw k etag digest) = transfer_part E cw"
  by (auto simp: record_part_def Let_def transfer_part_def expected_len_def fun_eq_iff)

lemma cooperative_record:
  "cooperative E cw rd \<Longrightarrow> cooperative E (record_part cw k etag digest) rd"
  by (simp add: cooperative_def part_missing_def in_file_def dom_update [unfolded dom_map_of_conv_image_fst])

lemma update_new: "k \<notin> fst ` set xs \<Longrightarrow> AList.update k v xs = xs @ [(k, v)]"
  by (induction xs) auto

lemma not_completed:
  assumes "wf_writer cw" and "part_missing cw k"
  shows "completed_part cw k = None"
proof (cases "cw_resumeState cw")
  case (Some s)
  with assms have "FormatInt (part_of k) \<notin> fst ` set (partInfo_of s)"
    by (simp add: wf_writer_def part_missing_def)
  moreover have "fst ` set (partInfo_of s) = fst ` set (rs_Completed s)"
    by (force simp: partInfo_of_def image_image)
  ultimately show ?thesis
    using Some by (simp add: completed_part_def map_of_eq_None_iff)
qed (simp add: completed_part_def)

text \<open>A well-formed writer has too few parts exactly when one of them is missing.\<close>

lemma wf_keys:
  assumes "wf_writer cw"
  shows "card (fst ` set (cw_partInfo cw)) = length (cw_partInfo cw)"
    and "fst ` set (cw_partInfo cw) \<subseteq> FormatInt ` {1..cw_partCount cw}"
  using assms part_done_key distinct_card [of "map fst (cw_partInfo cw)"]
  by (fastforce simp: wf_writer_def)+

lemma some_missing:
  assumes "wf_writer cw" and "int (length (cw_partInfo cw)) \<noteq> cw_partCount cw" and "0 < cw_partCount cw"
  shows "\<exists>k. part_missing cw k"
proof (rule ccontr)
  assume no: "\<nexists>k. part_missing cw k"
  have "FormatInt n \<in> fst ` set (cw_partInfo cw)" if "n \<in> {1..cw_partCount cw}" for n
  proof -
    have "\<not> part_missing cw (n - 1)" using no by blast
    with that show ?thesis by (simp add: part_missing_def in_file_def part_of_def)
  qed
  then have "fst ` set (cw_partInfo cw) = FormatInt ` {1..cw_partCount cw}"
    using wf_keys(2) [OF assms(1)] by blast
  then show False
    using wf_keys(1) [OF assms(1)] assms(2,3) by (simp add: card_image inj_on_FormatInt)
qed

lemma missing_count_0:
  assumes "wf_writer cw" and "missing_count cw = 0" and "0 < cw_partCount cw"
  shows "int (length (cw_partInfo cw)) = cw_partCount cw"
  using card_mono [OF _ wf_keys(2) [OF assms(1)]] wf_keys(1) [OF assms(1)] assms(2,3)
  by (simp add: missing_count_def card_image inj_on_FormatInt)

text \<open>A configuration from which the upload can still be completed.\<close>

definition underway :: "'s env \<Rightarrow> (int \<Rightarrow> reader) \<Rightarrow> 's conf \<Rightarrow> bool" where
  "underway E rd c \<longleftrightarrow>
     conf_ok c \<and> finite (dom (calls c)) \<and> \<not> ended (writer c) \<and> cooperative E (writer c) rd
     \<and> 0 < cw_partCount (writer c)"

lemma write_missing:
  assumes "underway E rd c" and "calls c i = None" and missing: "part_missing (writer c) k"
  shows "\<exists>c'. csteps E c c' \<and> underway E rd c' \<and> dom (calls c') = insert i (dom (calls c))
    \<and> cw_partCount (writer c') = cw_partCount (writer c)
    \<and> length (cw_partInfo (writer c')) = Suc (length (cw_partInfo (writer c)))"
proof -
  let ?cw = "writer c"
  from assms(1) have ok: "conf_ok c" "wf_writer ?cw" and fin: "finite (dom (calls c))"
    and live: "\<not> cw_closed ?cw" "\<not> cw_aborted ?cw" and coop: "cooperative E ?cw rd"
    and pos: "0 < cw_partCount ?cw"
    by (auto simp: underway_def conf_ok_def ended_def)
  from coop missing obtain etag digest w
    where tr: "transfer_part E ?cw k (rd k) (around c) = (Inr (etag, digest), w)"
    unfolding cooperative_def by blast
  let ?c1 = "at c i (Transferring k (rd k))"
  have "start_write ?cw k (rd k) = Transferring k (rd k)"
    using missing live not_completed [OF ok(2) missing]
    by (simp add: start_write_def part_missing_def in_file_def write_begin_def)
  with call_write [of c i E k "rd k"] assms(2) have s1: "cstep E c ?c1" by simp
  let ?c2 = "at (?c1\<lparr>around := w\<rparr>) i (Committing k etag digest)"
  have s2: "cstep E ?c1 ?c2"
    using transfer [of ?c1 i k "rd k" E "Inr (etag, digest)" w] tr by (simp add: transferred_def)
  obtain res cw w' where cm: "commit_part E ?cw k etag digest w = (Inr (res, cw), w')"
    using commit_part_returns by blast
  have "commit_error ?cw = None" using live by (simp add: commit_error_None)
  with commit_part_Inr [OF cm] have cw: "cw = record_part ?cw k etag digest" by auto
  let ?c3 = "at (?c2\<lparr>writer := cw, around := w'\<rparr>) i (Wrote res)"
  have s3: "cstep E ?c2 ?c3"
    using commit [of ?c2 i k etag digest E res cw w'] cm by (simp add: at_def)
  from s1 s2 s3 have steps: "csteps E c ?c3" by (meson r_into_rtranclp rtranclp.rtrancl_into_rtrancl)
  have "conf_ok ?c3" using csteps_ok [OF steps ok(1)] .
  then have "underway E rd ?c3"
    using live fin coop pos by (simp add: underway_def cw ended_def cooperative_record)
  moreover have "length (cw_partInfo (writer ?c3)) = Suc (length (cw_partInfo ?cw))"
    using missing by (simp add: cw update_new part_missing_def)
  moreover have "dom (calls ?c3) = insert i (dom (calls c))"
    and "cw_partCount (writer ?c3) = cw_partCount ?cw"
    by (auto simp: cw)
  ultimately show ?thesis
    using steps by blast
qed

lemma close_whole:
  assumes "underway E rd c" and "calls c i = None"
    and whole: "int (length (cw_partInfo (writer c))) = cw_partCount (writer c)"
  shows "\<exists>c'. csteps E c c' \<and> calls c' i = Some (Closed None)"
proof -
  let ?cw = "(writer c)\<lparr>cw_closed := True\<rparr>" and ?ps = "cw_partInfo (writer c)"
  let ?c1 = "at (c\<lparr>writer := ?cw\<rparr>) i (Finishing ?ps)"
  have s1: "cstep E c ?c1"
    using call_close [of c i ?ps ?cw E] assms by (simp add: close_begin_Inr underway_def ended_def)
  obtain meta w where fin: "finishMultipartUpload E (cw_init (writer c)) (cw_existingRev (writer c)) ?ps (around c)
      = (Inr meta, w)"
    using assms(1) unfolding underway_def cooperative_def by blast
  let ?c2 = "at (?c1\<lparr>around := w\<rparr>) i (CleaningUp None)"
  have s2: "cstep E ?c1 ?c2"
    using finish [of ?c1 i ?ps E "Inr meta" w] fin by simp
  obtain r w2 where rm: "ignoring (store_remove E (cw_resumeStore ?cw)) w = (r, w2)"
    by (cases "ignoring (store_remove E (cw_resumeStore ?cw)) w")
  let ?c3 = "at (?c2\<lparr>around := w2\<rparr>) i (Unlocking None)"
  have s3: "cstep E ?c2 ?c3"
    using clean_up [of ?c2 i None E r w2] rm by simp
  obtain st w3 where rel: "release E (cw_resumeStore ?cw) w2 = (Inr st, w3)"
    using release_returns by blast
  let ?c4 = "at (?c3\<lparr>writer := (writer ?c3)\<lparr>cw_resumeStore := st\<rparr>, around := w3\<rparr>) i (Closed None)"
  have s4: "cstep E ?c3 ?c4"
    using unlock [of ?c3 i None E st w3] rel by simp
  from s1 s2 s3 s4 have "csteps E c ?c4"
    by (meson r_into_rtranclp rtranclp.rtrancl_into_rtrancl)
  then show ?thesis by (intro exI [of _ ?c4]) simp
qed

lemma free_call: "finite (dom m) \<Longrightarrow> \<exists>i :: nat. m i = None"
  using ex_new_if_finite [of "dom m"] by auto

lemma underway_completes:
  assumes "underway E rd c"
  shows "\<exists>c' i. csteps E c c' \<and> calls c i = None \<and> calls c' i = Some (Closed None)"
  using assms
proof (induction "missing_count (writer c)" arbitrary: c)
  case 0
  from 0(2) obtain i where i: "calls c i = None" using free_call unfolding underway_def by blast
  from 0 have "int (length (cw_partInfo (writer c))) = cw_partCount (writer c)"
    by (intro missing_count_0) (auto simp: underway_def conf_ok_def)
  with close_whole [OF 0(2) i] i show ?case by blast
next
  case (Suc n)
  from Suc(3) obtain i where i: "calls c i = None" using free_call unfolding underway_def by blast
  have "\<exists>k. part_missing (writer c) k"
    using Suc(2,3) by (intro some_missing) (auto simp: underway_def conf_ok_def missing_count_def)
  with write_missing [OF Suc(3) i] obtain c1
    where c1: "csteps E c c1" "underway E rd c1" "dom (calls c1) = insert i (dom (calls c))"
      "cw_partCount (writer c1) = cw_partCount (writer c)"
      "length (cw_partInfo (writer c1)) = Suc (length (cw_partInfo (writer c)))"
    by blast
  then have "n = missing_count (writer c1)"
    using Suc(2) by (simp add: missing_count_def)
  from Suc(1) [OF this c1(2)] obtain c' i'
    where c': "csteps E c1 c'" "calls c1 i' = None" "calls c' i' = Some (Closed None)" by blast
  moreover have "calls c i' = None"
    using c1(3) c'(2) by (metis domIff insertCI)
  ultimately show ?case
    using rtranclp_trans [OF c1(1) c'(1)] by blast
qed

lemma csteps_finite: "csteps E c c' \<Longrightarrow> finite (dom (calls c)) \<Longrightarrow> finite (dom (calls c'))"
proof (induction rule: rtranclp_induct)
  case (step c1 c2)
  from step(2) have "\<exists>i. dom (calls c2) = insert i (dom (calls c1))"
    by (cases rule: cstep.cases) auto
  with step show ?case by auto
qed

text \<open>
  C9. An upload in progress can always be completed. In every state that the concurrent methods
  of a freshly opened writer can reach without closing or aborting it, however many parts were
  transferred, failed or are being transferred, and in whatever order, if the service accepts
  the parts that are still missing and the request to finish, then there are calls after which
  \<open>Close\<close> returns without an error: no reachable state is a dead end.
\<close>

theorem upload_can_complete:
  assumes "opened c0" and "csteps E c0 c" and "\<not> ended (writer c)" and "cooperative E (writer c) rd"
  shows "\<exists>c' i. csteps E c c' \<and> calls c i = None \<and> calls c' i = Some (Closed None)"
proof (rule underway_completes)
  have "cw_partCount (writer c) = cw_partCount (writer c0)"
    using assms(2) by (induction rule: rtranclp_induct) (auto dest: cstep_constants)
  then show "underway E rd c"
    using assms csteps_ok [OF assms(2)] opened_ok [OF assms(1)] csteps_finite [OF assms(2)]
    by (auto simp: underway_def opened_def tiled_def)
qed

text \<open>A service that accepts every part and finishes every upload, and a writer with a part to transfer.\<close>

definition helpful_do :: "request \<Rightarrow> script \<Rightarrow> (goerr + response) \<times> script" where
  "helpful_do r s =
     (if via r = ObjectHTTP then map_sum id (\<lambda>resp. resp\<lparr>body_read := stream_length (payload r)\<rparr>) (Sample_Service.stored ''E'')
      else if url r = endpoint sample_env ''efast/v1/file/oscompleteupload'' then answer 200 completion_body
      else answer 200 empty_body, s)"

definition helpful_env :: "script env" where
  "helpful_env = sample_env\<lparr>http_do := helpful_do\<rparr>"

definition missing_conf :: "script conf" where
  "missing_conf = sample_conf\<lparr>writer := sample_writer
     \<lparr>cw_signedParts := [''1'' \<mapsto> [''P'', ''w'']], cw_partInfo := [],
      cw_resumeState := map_option (\<lambda>s. s\<lparr>rs_Completed := []\<rparr>) (cw_resumeState sample_writer)\<rparr>\<rparr>"

lemma helpful_sel:
  "base_url helpful_env = base_url sample_env" "http_do helpful_env = helpful_do"
  "token helpful_env b s = (Inr ''T'', s)" "request_error helpful_env m u = None"
  "endpoint helpful_env = endpoint sample_env"
  by (simp_all add: helpful_env_def fun_eq_iff endpoint_def)

lemma helpful_do_api:
  "\<exists>w'. do_api helpful_env dl m ep jb w =
     (Inr (if endpoint sample_env ep = endpoint sample_env ''efast/v1/file/oscompleteupload''
        then completion_body else empty_body), w')"
  using sample_bodies(4) empty_body(1)
  by (simp add: do_api_def doWithClient_unroll exchange_def accepted_def answer_def helpful_do_def
      limit_read_def get_token_def perform_def run_simps helpful_sel api_request_def cong: run_congs)

lemma helpful_completion:
  obtains w' where "do_api helpful_env dl m ''efast/v1/file/oscompleteupload'' jb w = (Inr completion_body, w')"
  using helpful_do_api [of dl m "''efast/v1/file/oscompleteupload''" jb w] by auto

lemma helpful_other:
  assumes "endpoint sample_env ep \<noteq> endpoint sample_env ''efast/v1/file/oscompleteupload''"
  obtains w' where "do_api helpful_env dl m ep jb w = (Inr empty_body, w')"
  using helpful_do_api [of dl m ep jb w] assms by auto

lemma missing_opened: "opened missing_conf"
  by (simp add: opened_def missing_conf_def sample_conf_def wf_writer_def)
    (simp add: sample_writer_def tiled_def partInfo_of_def newMultipartResumeState_def in_i64_def)

lemma other_endpoint:
  "endpoint sample_env ''efast/v1/file/osendupload'' \<noteq> endpoint sample_env ''efast/v1/file/oscompleteupload''"
  "endpoint sample_env ''efast/v1/file/metadata'' \<noteq> endpoint sample_env ''efast/v1/file/oscompleteupload''"
  by code_simp+

lemma empty_metadata:
  "decode_response ''efast/v1/file/metadata'' dec_metadata zero_metadata empty_body = Inr zero_metadata"
  by code_simp

lemma helpful_metadata:
  "\<exists>m w'. metadata helpful_env d w = (Inr m, w')"
proof -
  obtain w' where "do_api helpful_env (Some 20000) ''POST'' ''efast/v1/file/metadata''
      (Some (JObj [(''docid'', JStr d)])) w = (Inr empty_body, w')"
    by (rule helpful_other [OF other_endpoint(2)])
  then show ?thesis
    by (simp add: metadata_def doJSONWithTransientRetry_def retryTransient_def transientReadAttempts_def
      transientReadTimeout_def retry_from.simps [of helpful_env] run_simps doJSON_def empty_metadata
      cong: run_congs)
qed

lemma helpful_finish:
  "\<exists>m w'. finishMultipartUpload helpful_env init rv ps w = (Inr m, w')"
proof -
  obtain w1 where w1: "do_api helpful_env None ''POST'' ''efast/v1/file/oscompleteupload''
      (Some (completeBody init ps)) w = (Inr completion_body, w1)"
    by (rule helpful_completion)
  obtain w2 where w2: "do_api helpful_env None ''POST'' ''efast/v1/file/osendupload''
      (Some (JObj (uploadEndBody (i_DocID init) (i_Rev init) rv)))
      (w1\<lparr>sent := sent w1 @ [\<lparr>via = ObjectHTTP, deadline = None, verb = ''P'', url = ''w'',
         headers = [], payload = RawBody ''c''\<rparr>]\<rparr>) = (Inr empty_body, w2)"
    by (rule helpful_other [OF other_endpoint(1)])
  from w1 w2 helpful_metadata [of "i_DocID init" w2] show ?thesis
    by (auto simp: finishMultipartUpload_def run_simps sample_bodies sample_signed object_request_def
      perform_def helpful_do_def Sample_Service.stored_def helpful_sel cong: run_congs)
qed

lemma helpful_cooperative:
  "cooperative helpful_env (writer missing_conf) (\<lambda>k. \<lparr>rd_seek = None, rd_data = ''abc'', rd_end = Foreign ''EOF''\<rparr>)"
proof -
  have part: "part_auth (cw_signedParts (writer missing_conf)) (part_of 0) = [''P'', ''w'']"
    by (simp add: part_auth_def part_of_def missing_conf_def sample_conf_def FormatInt_1)
  have len: "expected_len (writer missing_conf) 0 = 3"
    by (simp add: missing_conf_def sample_conf_def sample_writer_def expected_len_def chunkLen_def i64_def)
  have only: "k = 0" if "part_missing (writer missing_conf) k" for k
    using that by (simp add: part_missing_def in_file_def missing_conf_def sample_conf_def sample_writer_def)
  show ?thesis
    using helpful_finish
    by (auto simp: cooperative_def transfer_part_def part len sample_signed object_request_def perform_def
      helpful_do_def Sample_Service.stored_def helpful_sel sample_etag run_simps Let_def dest!: only
      cong: run_congs)
qed

theorem upload_can_complete_witness:
  "\<exists>c' i. csteps helpful_env missing_conf c' \<and> calls c' i = Some (Closed None)"
  using upload_can_complete [OF missing_opened _ _ helpful_cooperative] missing_opened
  by (auto simp: opened_def ended_def)

end
