(* ===== verification/Go_Time.thy ===== *)
theory Go_Time
  imports Go_Text
begin

text \<open>
  \<open>time.Parse(time.RFC3339, s)\<close> of the Go standard library, with the zero \<open>time.Time\<close> that it
  returns with an error: an instant is its number of nanoseconds since the epoch, and \<open>None\<close> is
  the zero time (the first of January of the year 1, which a string can also denote).
\<close>

definition leap_year :: "int \<Rightarrow> bool" where
  "leap_year y \<longleftrightarrow> y mod 4 = 0 \<and> (y mod 100 \<noteq> 0 \<or> y mod 400 = 0)"

definition month_lengths :: "int \<Rightarrow> int list" where
  "month_lengths y = [31, if leap_year y then 29 else 28, 31, 30, 31, 30, 31, 31, 30, 31, 30, 31]"

definition days_in :: "int \<Rightarrow> int \<Rightarrow> int" where
  "days_in y m = (if 1 \<le> m \<and> m \<le> 12 then month_lengths y ! nat (m - 1) else 0)"

text \<open>Days since the first of January of the year 1, in the proleptic Gregorian calendar.\<close>

definition days_before_year :: "int \<Rightarrow> int" where
  "days_before_year y = 365 * (y - 1) + (y - 1) div 4 - (y - 1) div 100 + (y - 1) div 400"

definition days_before :: "int \<Rightarrow> int \<Rightarrow> int \<Rightarrow> int" where
  "days_before y m d = days_before_year y + sum_list (take (nat (m - 1)) (month_lengths y)) + d - 1"

definition unix_seconds :: "int \<Rightarrow> int \<Rightarrow> int \<Rightarrow> int \<Rightarrow> int \<Rightarrow> int \<Rightarrow> int" where
  "unix_seconds y m d h mi s = (days_before y m d - 719162) * 86400 + h * 3600 + mi * 60 + s"

text \<open>\<open>getnum\<close>: one or two digits, or exactly two.\<close>

definition digit :: "char \<Rightarrow> int option" where
  "digit c =
     (let n = of_char c :: nat in if 48 \<le> n \<and> n \<le> 57 then Some (int n - 48) else None)"

definition getnum :: "bool \<Rightarrow> string \<Rightarrow> (int \<times> string) option" where
  "getnum fixed s =
     (case s of
        [] \<Rightarrow> None
      | a # r \<Rightarrow>
          (case digit a of
             None \<Rightarrow> None
           | Some x \<Rightarrow>
               (case r of
                  b # r' \<Rightarrow>
                    (case digit b of
                       Some y \<Rightarrow> Some (x * 10 + y, r')
                     | None \<Rightarrow> if fixed then None else Some (x, r))
                | [] \<Rightarrow> if fixed then None else Some (x, r))))"

definition literal :: "char \<Rightarrow> string \<Rightarrow> string option" where
  "literal c s = (case s of x # r \<Rightarrow> if x = c then Some r else None | [] \<Rightarrow> None)"

definition four_digits :: "string \<Rightarrow> (int \<times> string) option" where
  "four_digits s =
     Option.bind (getnum True s) (\<lambda>(a, r). map_option (\<lambda>(b, r'). (a * 100 + b, r')) (getnum True r))"

definition in_range_num :: "int \<Rightarrow> int \<Rightarrow> (int \<times> string) option \<Rightarrow> (int \<times> string) option" where
  "in_range_num lo hi r =
     (case r of Some (n, s) \<Rightarrow> if lo \<le> n \<and> n \<le> hi then r else None | None \<Rightarrow> None)"

text \<open>An optional fraction of a second; digits after the ninth are dropped.\<close>

definition nanoseconds :: "string \<Rightarrow> int" where
  "nanoseconds ds = foldl (\<lambda>n c. n * 10 + (case digit c of Some x \<Rightarrow> x | None \<Rightarrow> 0)) 0
     (take 9 (ds @ replicate 9 CHR ''0''))"

definition fraction :: "string \<Rightarrow> int \<times> string" where
  "fraction s =
     (case s of
        p # d # r \<Rightarrow>
          if (p = CHR ''.'' \<or> p = CHR '','') \<and> digit d \<noteq> None then
            (nanoseconds (takeWhile (\<lambda>c. digit c \<noteq> None) (d # r)),
             dropWhile (\<lambda>c. digit c \<noteq> None) (d # r))
          else (0, s)
      | _ \<Rightarrow> (0, s))"

text \<open>The zone: \<open>Z\<close>, or an offset of at most 24 hours and 60 minutes; nothing may follow.\<close>

definition zone :: "string \<Rightarrow> int option" where
  "zone s =
     (if s = ''Z'' then Some 0
      else if length s \<noteq> 6 \<or> s ! 3 \<noteq> CHR '':'' then None
      else (case (getnum True (take 2 (drop 1 s)), getnum True (drop 4 s)) of
              (Some (h, _), Some (m, _)) \<Rightarrow>
                if h > 24 \<or> m > 60 then None
                else if hd s = CHR ''+'' then Some ((h * 60 + m) * 60)
                else if hd s = CHR ''-'' then Some (- ((h * 60 + m) * 60))
                else None
            | _ \<Rightarrow> None))"

definition parse_RFC3339 :: "string \<Rightarrow> int option" where
  "parse_RFC3339 s0 =
     Option.bind (four_digits s0) (\<lambda>(y, s1).
     Option.bind (Option.bind (literal CHR ''-'' s1) (\<lambda>s. in_range_num 1 12 (getnum True s))) (\<lambda>(mo, s2).
     Option.bind (Option.bind (literal CHR ''-'' s2) (getnum True)) (\<lambda>(d, s3).
     Option.bind (Option.bind (literal CHR ''T'' s3) (\<lambda>s. in_range_num 0 23 (getnum False s))) (\<lambda>(h, s4).
     Option.bind (Option.bind (literal CHR '':'' s4) (\<lambda>s. in_range_num 0 59 (getnum True s))) (\<lambda>(mi, s5).
     Option.bind (Option.bind (literal CHR '':'' s5) (\<lambda>s. in_range_num 0 59 (getnum True s))) (\<lambda>(se, s6).
     let (ns, s7) = fraction s6 in
     Option.bind (zone s7) (\<lambda>offset.
     if d < 1 \<or> d > days_in y mo then None
     else Some ((unix_seconds y mo d h mi se - offset) * 1000000000 + ns))))))))"

definition zero_time :: int where
  "zero_time = -62135596800000000000"

definition time_Parse :: "string \<Rightarrow> int option" where
  "time_Parse s =
     (case parse_RFC3339 s of
        None \<Rightarrow> None
      | Some t \<Rightarrow> if t = zero_time then None else Some t)"

lemma time_Parse_examples:
  "time_Parse ''2024-02-29T12:00:00.5+08:00'' = Some 1709179200500000000"
  "time_Parse ''1970-01-01T00:00:00Z'' = Some 0"
  "time_Parse ''2023-02-29T12:00:00Z'' = None"
  "time_Parse ''0001-01-01T00:00:00Z'' = None"
  by code_simp+

end
