(* ===== verification/Fs_Dirs.thy ===== *)
theory Fs_Dirs
  imports Fs_Objects Go_Time
begin

text \<open>
  Directories of the backend, \<open>pkudisk.go\<close>: listing, creating, removing and purging them, and
  the server-side copies and moves of files and directories. \<open>None\<close> as the source of a copy or
  a move is an object or a remote of another backend.
\<close>

section \<open>Operations\<close>

datatype dirEntry = Directory string gotime string | File Object

text \<open>Entering directories into the cache, in the order of the listing.\<close>

fun put_all :: "'s env \<Rightarrow> Fs \<Rightarrow> (string \<times> string) list \<Rightarrow> ('s, unit) act" where
  "put_all E f [] = ok ()"
| "put_all E f ((remote, i) # ps) =
     andThen (tell (dc_put E (fs_cache f) remote i)) (\<lambda>_. put_all E f ps)"

definition library_entry :: "string \<Rightarrow> library \<Rightarrow> dirEntry" where
  "library_entry dir lib =
     Directory (PathJoin dir (lib_Name lib)) (time_Parse (lib_ModifiedAt lib)) (lib_ID lib)"

definition directory_entry :: "'s env \<Rightarrow> string \<Rightarrow> apiEntry \<Rightarrow> dirEntry" where
  "directory_entry E dir item =
     Directory (PathJoin dir (decode E (e_Name item))) (parseModifiedMicros (e_Modified item)) (e_DocID item)"

definition file_entry :: "'s env \<Rightarrow> Fs \<Rightarrow> string \<Rightarrow> apiEntry \<Rightarrow> dirEntry" where
  "file_entry E f dir item = File (objectFromEntry f (PathJoin dir (decode E (e_Name item))) item)"

definition find_existing :: "'s env \<Rightarrow> Fs \<Rightarrow> string \<Rightarrow> ('s, string) act" where
  "find_existing E f dir =
     inspect (FindDir E f dir False) (\<lambda>r. case r of
       Inl e \<Rightarrow>
         if err_is e (FsError ErrorDirNotFound) then throw (FsError ErrorDirNotFound) else throw e
     | Inr i \<Rightarrow> ok i)"

definition ListDir :: "'s env \<Rightarrow> Fs \<Rightarrow> string \<Rightarrow> ('s, dirEntry list) act" where
  "ListDir E f dir =
     andThen (find_existing E f dir) (\<lambda>i.
     if i = virtualRootID then
       andThen (libraries E) (\<lambda>libs.
       andThen (put_all E f (map (\<lambda>lib. (PathJoin dir (lib_Name lib), lib_ID lib)) libs)) (\<lambda>_.
         ok (map (library_entry dir) libs)))
     else
       andThen (listDir E i) (\<lambda>listing.
       andThen (put_all E f (map (\<lambda>item. (PathJoin dir (decode E (e_Name item)), e_DocID item)) (l_Dirs listing)))
         (\<lambda>_. ok (map (directory_entry E dir) (l_Dirs listing) @ map (file_entry E f dir) (l_Files listing)))))"

definition Mkdir :: "'s env \<Rightarrow> Fs \<Rightarrow> string \<Rightarrow> ('s, unit) act" where
  "Mkdir E f dir = andThen (FindDir E f dir True) (\<lambda>_. ok ())"

definition library_error :: goerr where
  "library_error = ErrNew ''PKU Disk document libraries cannot be removed through the file API''"

definition flush_dir :: "'s env \<Rightarrow> Fs \<Rightarrow> string \<Rightarrow> ('s, unit) act" where
  "flush_dir E f dir = tell (dc_flush_dir E (fs_cache f) dir)"

text \<open>The guard of \<open>Rmdir\<close> for the root of a remote, and the removal of an empty directory.\<close>

definition rmdir_guard :: "'s env \<Rightarrow> Fs \<Rightarrow> string \<Rightarrow> ('s, unit) act" where
  "rmdir_guard E f dir =
     (if dir = [] then
        andThen (RootParentID E f False) (\<lambda>parentID.
          if parentID = virtualRootID then throw library_error else ok ())
      else ok ())"

definition rmdir_empty :: "'s env \<Rightarrow> Fs \<Rightarrow> string \<Rightarrow> string \<Rightarrow> ('s, unit) act" where
  "rmdir_empty E f dir i =
     andThen (listDir E i) (\<lambda>listing.
     if l_Dirs listing \<noteq> [] \<or> l_Files listing \<noteq> [] then throw (FsError ErrorDirectoryNotEmpty)
     else andThen (deleteEntry E i True) (\<lambda>_. flush_dir E f dir))"

definition Rmdir :: "'s env \<Rightarrow> Fs \<Rightarrow> string \<Rightarrow> ('s, unit) act" where
  "Rmdir E f dir =
     (if dir = [] \<and> fs_root f = [] then throw (ErrNew ''cannot remove PKU Disk virtual root'')
      else andThen (find_existing E f dir) (\<lambda>i.
        if i = virtualRootID then throw (FsError ErrorDirNotFound)
        else andThen (rmdir_guard E f dir) (\<lambda>_. rmdir_empty E f dir i)))"

text \<open>The ID of the parent of the directory that a purge is to delete.\<close>

definition purge_parent :: "'s env \<Rightarrow> Fs \<Rightarrow> string \<Rightarrow> ('s, string) act" where
  "purge_parent E f dir =
     (if dir = [] then RootParentID E f False else FindDir E f (fst (split_path E dir)) False)"

definition Purge :: "'s env \<Rightarrow> Fs \<Rightarrow> string \<Rightarrow> ('s, unit) act" where
  "Purge E f dir =
     (if dir = [] \<and> fs_root f = [] then throw (ErrNew ''cannot purge PKU Disk virtual root'')
      else andThen (find_existing E f dir) (\<lambda>i.
        if i = virtualRootID then throw (FsError ErrorDirNotFound)
        else andThen (purge_parent E f dir) (\<lambda>parentID.
          if parentID = virtualRootID then throw library_error
          else andThen (deleteEntry E i True) (\<lambda>_. flush_dir E f dir))))"

section \<open>Copies and moves\<close>

text \<open>Renaming the temporary copy, and deleting it when that fails.\<close>

definition rename_copy :: "'s env \<Rightarrow> string \<Rightarrow> string \<Rightarrow> ('s, unit) act" where
  "rename_copy E copiedID dstLeaf =
     inspect (renameEntry E copiedID (encode E dstLeaf) False) (\<lambda>r. case r of
       Inr _ \<Rightarrow> ok ()
     | Inl e \<Rightarrow>
         inspect (deleteEntry E copiedID False) (\<lambda>c. case c of
           Inl cleanup \<Rightarrow>
             throw (Errorf ''rename server-side copy: %w (cleanup failed: %v)'' [] [cleanup] [e])
         | Inr _ \<Rightarrow> throw (Errorf ''rename server-side copy: %w'' [] [] [e])))"

text \<open>The copy to a destination that is known to be absent.\<close>

definition copy_absent :: "'s env \<Rightarrow> Fs \<Rightarrow> string \<Rightarrow> string \<Rightarrow> string \<Rightarrow> bool \<Rightarrow> string \<Rightarrow> ('s, Object) act" where
  "copy_absent E f i parentID remote needsRename dstLeaf =
     andThen (copyFile E i parentID (if needsRename then 2 else 1)) (\<lambda>copiedID.
     andThen (if needsRename then rename_copy E copiedID dstLeaf else ok ()) (\<lambda>_.
       NewObject E f remote))"

definition Copy :: "'s env \<Rightarrow> Fs \<Rightarrow> Object option \<Rightarrow> string \<Rightarrow> ('s, Object) act" where
  "Copy E f src remote =
     (case src of
        None \<Rightarrow> throw (FsError ErrorCantCopy)
      | Some source \<Rightarrow>
          if fs_name (o_fs source) \<noteq> fs_name f then throw (FsError ErrorCantCopy)
          else
            (let (dstDir, dstLeaf) = split_path E remote;
                 srcLeaf = snd (split_path E (o_remote source));
                 needsRename = srcLeaf \<noteq> dstLeaf
             in andThen (FindDir E f dstDir True) (\<lambda>dstParentID.
                if dstParentID = virtualRootID then throw (FsError ErrorCantCopy)
                else inspect (NewObject E f remote) (\<lambda>r. case r of
                  Inr existing \<Rightarrow>
                    if o_id existing = o_id source then ok existing else throw (FsError ErrorCantCopy)
                | Inl e \<Rightarrow>
                    if err_is e (FsError ErrorObjectNotFound) then
                      copy_absent E f (o_id source) dstParentID remote needsRename dstLeaf
                    else if err_is e (FsError ErrorIsDir) then throw (FsError ErrorCantCopy)
                    else throw e))))"

definition relocateEntry ::
    "'s env \<Rightarrow> string \<Rightarrow> string \<Rightarrow> string \<Rightarrow> string \<Rightarrow> string \<Rightarrow> bool \<Rightarrow> ('s, string) act" where
  "relocateEntry E i srcParentID dstParentID srcLeaf dstLeaf isDir =
     (if srcParentID = dstParentID then
        if srcLeaf = dstLeaf then ok i
        else andThen (renameEntry E i (encode E dstLeaf) isDir) (\<lambda>_. ok i)
      else moveEntry E i dstParentID (if srcLeaf \<noteq> dstLeaf then encode E dstLeaf else []) isDir)"

definition Move :: "'s env \<Rightarrow> Fs \<Rightarrow> Object option \<Rightarrow> string \<Rightarrow> ('s, Object) act" where
  "Move E f src remote =
     (case src of
        None \<Rightarrow> throw (FsError ErrorCantMove)
      | Some source \<Rightarrow>
          if fs_name (o_fs source) \<noteq> fs_name f then throw (FsError ErrorCantMove)
          else
            (let (dstDir, dstLeaf) = split_path E remote;
                 (srcDir, srcLeaf) = split_path E (o_remote source)
             in andThen (FindDir E f dstDir True) (\<lambda>dstParentID.
                andThen (FindDir E (o_fs source) srcDir False) (\<lambda>srcParentID.
                andThen (relocateEntry E (o_id source) srcParentID dstParentID srcLeaf dstLeaf False)
                  (\<lambda>newID. ok (source\<lparr>o_fs := f, o_remote := remote, o_id := newID\<rparr>))))))"

definition DirMove :: "'s env \<Rightarrow> Fs \<Rightarrow> Fs option \<Rightarrow> string \<Rightarrow> string \<Rightarrow> ('s, unit) act" where
  "DirMove E f src srcRemote dstRemote =
     (case src of
        None \<Rightarrow> throw (FsError ErrorCantDirMove)
      | Some source \<Rightarrow>
          if fs_name source \<noteq> fs_name f then throw (FsError ErrorCantDirMove)
          else if (srcRemote = [] \<and> fs_root source = []) \<or> (dstRemote = [] \<and> fs_root f = []) then
            throw (FsError ErrorCantDirMove)
          else
            andThen (DirCacheMove E f source srcRemote dstRemote)
              (\<lambda>(srcID, srcParentID, srcLeaf, dstParentID, dstLeaf).
            if srcParentID = virtualRootID \<or> dstParentID = virtualRootID then
              throw (FsError ErrorCantDirMove)
            else
              andThen (relocateEntry E srcID srcParentID dstParentID srcLeaf dstLeaf True) (\<lambda>_.
              andThen (flush_dir E source srcRemote) (\<lambda>_. flush_dir E f dstRemote))))"

section \<open>What the operations send\<close>

text \<open>The requests that change an entry of the service.\<close>

definition delete_dir :: "'s env \<Rightarrow> string \<Rightarrow> request \<Rightarrow> bool" where
  "delete_dir E i =
     api_post E ''efast/v1/dir/delete''
       (JObj [(''docid'', JStr i), (''check_upload_process'', JBool True)])"

definition delete_file :: "'s env \<Rightarrow> string \<Rightarrow> request \<Rightarrow> bool" where
  "delete_file E i = api_post E ''efast/v1/file/delete'' (JObj [(''docid'', JStr i)])"

lemma api_post_request [simp]:
  "api_post E ep j (api_request E cl dl method ep' body tok) \<longleftrightarrow>
     cl \<noteq> ObjectHTTP \<and> TrimLeft CHR ''/'' ep' = TrimLeft CHR ''/'' ep \<and> method = ''POST'' \<and> body = Some j"
  by (auto simp: api_post_def split: option.splits)

lemma deleteEntry_sends:
  "sends (delete_dir E i) (deleteEntry E i True)" "sends (delete_file E i) (deleteEntry E i False)"
  unfolding deleteEntry_def by (intro runs_rules; simp add: delete_dir_def delete_file_def)+

lemma flush_dir_sends [runs_rules, simp]: "sends P (flush_dir E f dir)"
  by (simp add: flush_dir_def)

lemma find_existing_sends [runs_rules]:
  "dircache_frame E \<Longrightarrow> sends (lookup_request E False) (find_existing E f dir)"
  unfolding find_existing_def by (intro runs_rules)

lemma read_lookup: "sends (read_request E) m \<Longrightarrow> sends (lookup_request E c) m"
  by (erule sends_mono) (simp add: lookup_request_def)

lemma lookup_not_write: "sends (lookup_request E False) m \<Longrightarrow> sends (\<lambda>r. \<not> \<not> lookup_request E False r) m"
  by simp

lemma dirs_extends:
  assumes "dircache_frame E"
  shows "extends (find_existing E f dir)" "extends (FindDir E f dir c)" "extends (RootParentID E f c)"
    "extends (listDir E i)" "extends (libraries E)" "extends (NewObject E f rm)"
  by (rule sends_extends, rule find_existing_sends [OF assms] dircache_sends [OF assms] reads_send
      NewObject_sends [OF assms])+

lemma find_existing_Inr:
  "find_existing E f dir w = (Inr i, w') \<longleftrightarrow> FindDir E f dir False w = (Inr i, w')"
  by (auto simp: find_existing_def inspect_def split: prod.splits sum.splits)


text \<open>The runs of the sample directory cache for \<open>L\<close> and \<open>L/d\<close>.\<close>

definition dirs_body :: string where
  "dirs_body = ''{\"dirs\":[{\"docid\":\"X\",\"name\":\"d\"}],\"files\":[]}''"

lemma sample_dirs_body:
  "accepted dirs_body"
  "decode_response ''efast/v1/dir/list'' dec_listing zero_listing dirs_body =
     Inr \<lparr>l_Dirs = [zero_entry\<lparr>e_DocID := ''X'', e_Name := ''d''\<rparr>], l_Files = []\<rparr>"
  "decode_response ''efast/v1/dir/list'' dec_listing zero_listing empty_body = Inr zero_listing"
  by code_simp+

lemma sample_find_L:
  assumes "ext w = answer 200 libraries_body # s"
  obtains w' where "FindDir sample_env f ''L'' c w = (Inr ''i'', w')" and "ext w' = s"
proof -
  have "components ''L'' = [''L'']" by code_simp
  with assms that show ?thesis
    by (auto simp: FindDir_def sample_env_def [THEN arg_cong [where f = dc_find_dir]] FindLeaf_def
        libraries_def sample_steps sample_lookup cong: run_congs)
qed

lemma sample_listDir:
  assumes "ext w = answer 200 b # s" and "accepted b"
    and "decode_response ''efast/v1/dir/list'' dec_listing zero_listing b = Inr l"
  obtains w' where "listDir sample_env i w = (Inr l, w')" and "ext w' = s"
  using assms by (auto simp: listDir_def sample_steps cong: run_congs)

lemma sample_find_Ld:
  assumes "ext w = answer 200 libraries_body # answer 200 dirs_body # s"
  obtains w' where "FindDir sample_env f ''L/d'' c w = (Inr ''X'', w')" and "ext w' = s"
proof -
  have "components ''L/d'' = [''L'', ''d'']" and "''i'' \<noteq> virtualRootID"
    by code_simp+
  with assms that show ?thesis
    by (auto simp: FindDir_def sample_env_def [THEN arg_cong [where f = dc_find_dir]] FindLeaf_def
        libraries_def listDir_def sample_steps sample_lookup sample_dirs_body cong: run_congs)
qed

text \<open>The request of a deletion that the service refuses.\<close>

lemma sample_delete:
  assumes "ext w = []"
  shows "sent (snd (andThen (deleteEntry sample_env i True) g w)) = sent w @
    [api_request sample_env RecursiveDeleteHTTP None ''POST'' ''efast/v1/dir/delete''
       (Some (JObj [(''docid'', JStr i), (''check_upload_process'', JBool True)])) ''T'']"
  using assms
  by (cases w) (simp add: deleteEntry_def doWithClient_unroll exchange_def script_do_def
      get_token_def perform_def run_simps cong: run_congs)


section \<open>Removing an empty directory\<close>

text \<open>
  C30. Only directories seen empty are removed. Any request of \<open>Rmdir\<close> other than a look-up is
  the deletion of exactly the resolved directory, which is not the virtual root, and it comes
  directly after a listing of that ID that showed neither a directory nor a file in it; at the
  root of a remote the parent was checked not to be the virtual root, so that no document
  library is removed there.
\<close>

theorem Rmdir_only_empty:
  assumes frame: "dircache_frame E" and r: "r \<in> set (requests (Rmdir E f dir) w)"
    and change: "\<not> lookup_request E False r"
  shows "(dir \<noteq> [] \<or> fs_root f \<noteq> []) \<and> (\<exists>i w1 w2 w3.
    FindDir E f dir False w = (Inr i, w1) \<and> i \<noteq> virtualRootID
    \<and> (if dir = [] then \<exists>parentID. RootParentID E f False w1 = (Inr parentID, w2) \<and> parentID \<noteq> virtualRootID
       else w2 = w1)
    \<and> (\<exists>listing. listDir E i w2 = (Inr listing, w3) \<and> l_Dirs listing = [] \<and> l_Files listing = [])
    \<and> delete_dir E i r)"
proof -
  let ?look = "\<lambda>r. \<not> lookup_request E False r"
  have del: "sends (delete_dir E i) (andThen (deleteEntry E i True) (\<lambda>_. flush_dir E f dir))" for i
    by (intro runs_rules deleteEntry_sends)
  have ext: "extends (rmdir_empty E f dir i)" for i
    unfolding rmdir_empty_def
    by (intro runs_rules sends_extends [OF reads_send(2)] sends_extends [OF deleteEntry_sends(1)])
  have look: "sends (lookup_request E False) (rmdir_guard E f dir)"
    unfolding rmdir_guard_def by (intro runs_rules dircache_sends [OF frame])
  have root: "\<not> (dir = [] \<and> fs_root f = [])"
    using r by (auto simp: Rmdir_def)
  with r have "r \<in> set (requests (andThen (find_existing E f dir) (\<lambda>i.
      if i = virtualRootID then throw (FsError ErrorDirNotFound)
      else andThen (rmdir_guard E f dir) (\<lambda>_. rmdir_empty E f dir i))) w)"
    unfolding Rmdir_def by (simp only: if_False)
  then obtain i w1 where i: "find_existing E f dir w = (Inr i, w1)" "i \<noteq> virtualRootID"
    and r1: "r \<in> set (requests (andThen (rmdir_guard E f dir) (\<lambda>_. rmdir_empty E f dir i)) w1)"
  proof (rule requests_after [where D = ?look])
    show "extends (if i = virtualRootID then throw (FsError ErrorDirNotFound)
        else andThen (rmdir_guard E f dir) (\<lambda>_. rmdir_empty E f dir i))" for i
      by (rule sends_if, simp, rule sends_andThen [OF sends_extends [OF look] ext])
  qed (use find_existing_sends [OF frame] change in \<open>auto split: if_splits\<close>)
  from r1 obtain u w2 where g: "rmdir_guard E f dir w1 = (Inr u, w2)"
    and r2: "r \<in> set (requests (rmdir_empty E f dir i) w2)"
    by (rule requests_after [where D = ?look]) (use look change ext in auto)
  from r2 [unfolded rmdir_empty_def] obtain listing w3 where l: "listDir E i w2 = (Inr listing, w3)"
    and r3: "r \<in> set (requests (if l_Dirs listing \<noteq> [] \<or> l_Files listing \<noteq> [] then throw (FsError ErrorDirectoryNotEmpty)
       else andThen (deleteEntry E i True) (\<lambda>_. flush_dir E f dir)) w3)"
    by (rule requests_after [where D = ?look])
      (use read_lookup [OF reads_send(2)] change sends_extends [OF del] in \<open>auto intro: sends_if\<close>)
  then have empty: "l_Dirs listing = []" "l_Files listing = []" and "delete_dir E i r"
    using sends_requests [OF del] by (auto split: if_splits)
  moreover have "if dir = [] then \<exists>parentID. RootParentID E f False w1 = (Inr parentID, w2) \<and> parentID \<noteq> virtualRootID
      else w2 = w1"
    using g by (auto simp: rmdir_guard_def andThen_def split: if_splits prod.splits sum.splits)
  ultimately show ?thesis
    using root i l by (auto simp: find_existing_Inr)
qed

abbreviation delete_call :: "string \<Rightarrow> request" where
  "delete_call i \<equiv> api_request sample_env RecursiveDeleteHTTP None ''POST'' ''efast/v1/dir/delete''
     (Some (JObj [(''docid'', JStr i), (''check_upload_process'', JBool True)])) ''T''"

lemma delete_call_changes: "\<not> lookup_request sample_env False (delete_call i)"
  by (auto simp: lookup_request_def read_request_def read_endpoints_def)

lemma sample_Rmdir:
  assumes "FindDir sample_env sample_fs dir False w = (Inr i, w1)" and "ext w1 = [answer 200 empty_body]"
    and "i \<noteq> virtualRootID" and "dir \<noteq> []" and "sent w = []"
  shows "delete_call i \<in> set (requests (Rmdir sample_env sample_fs dir) w)"
proof -
  obtain w2 where w2: "listDir sample_env i w1 = (Inr zero_listing, w2)" and e2: "ext w2 = []"
    by (rule sample_listDir [of w1, OF assms(2) empty_body(1) sample_dirs_body(3)])
  have "Rmdir sample_env sample_fs dir w =
      andThen (deleteEntry sample_env i True) (\<lambda>_. flush_dir sample_env sample_fs dir) w2"
    using assms w2
    by (simp add: Rmdir_def rmdir_guard_def rmdir_empty_def find_existing_def zero_listing_def run_simps
        cong: run_congs)
  then show ?thesis
    by (simp add: requests_def sample_delete [OF e2] assms(5))
qed

theorem Rmdir_only_empty_witness:
  "\<exists>r \<in> set (requests (Rmdir sample_env sample_fs ''L/d'')
       (start_world [answer 200 libraries_body, answer 200 dirs_body, answer 200 empty_body])).
     delete_dir sample_env ''X'' r"
proof -
  let ?w = "start_world [answer 200 libraries_body, answer 200 dirs_body, answer 200 empty_body]"
  obtain w1 where w1: "FindDir sample_env sample_fs ''L/d'' False ?w = (Inr ''X'', w1)"
    and e1: "ext w1 = [answer 200 empty_body]"
    by (rule sample_find_Ld [of ?w]) (auto simp: start_world_def)
  have "''X'' \<noteq> virtualRootID" by code_simp
  then have sent: "delete_call ''X'' \<in> set (requests (Rmdir sample_env sample_fs ''L/d'') ?w)"
    by (intro sample_Rmdir [OF w1 e1]) (simp_all add: start_world_def)
  have "delete_dir sample_env ''X'' (delete_call ''X'')"
    using Rmdir_only_empty [OF sample_frame sent delete_call_changes] w1 by auto
  with sent show ?thesis by blast
qed

text \<open>
  C40. The guard of \<open>Rmdir\<close> for document libraries does not cover a path. The comment in the code
  says that a top-level document library is never turned into a deletable directory, but the
  check is made only when the argument is the root of the remote: from the virtual root,
  \<open>Rmdir("L")\<close> resolves the library \<open>L\<close> to its ID, lists it, finds it empty and asks the service
  to delete it.
\<close>

theorem Rmdir_deletes_library:
  "\<exists>w. (\<exists>w'. FindLeaf sample_env virtualRootID ''L'' w = (Inr (Some ''i''), w'))
     \<and> fs_root sample_fs = []
     \<and> (\<exists>r \<in> set (requests (Rmdir sample_env sample_fs ''L'') w). delete_dir sample_env ''i'' r)"
proof -
  let ?w = "start_world [answer 200 libraries_body, answer 200 empty_body]"
  obtain w1 where w1: "FindDir sample_env sample_fs ''L'' False ?w = (Inr ''i'', w1)"
    and e1: "ext w1 = [answer 200 empty_body]"
    by (rule sample_find_L [of ?w]) (auto simp: start_world_def)
  have "''i'' \<noteq> virtualRootID" by code_simp
  then have "delete_call ''i'' \<in> set (requests (Rmdir sample_env sample_fs ''L'') ?w)"
    by (intro sample_Rmdir [OF w1 e1]) (simp_all add: start_world_def)
  moreover have "delete_dir sample_env ''i'' (delete_call ''i'')"
    by (simp add: delete_dir_def)
  moreover have "\<exists>w'. FindLeaf sample_env virtualRootID ''L'' ?w = (Inr (Some ''i''), w')"
    by (simp add: FindLeaf_def libraries_def start_world_def sample_steps sample_lookup cong: run_congs)
  moreover have "fs_root sample_fs = []" by (simp add: sample_fs_def)
  ultimately show ?thesis by blast
qed

section \<open>Copies and moves replace nothing\<close>

text \<open>
  A rename or a move of the entry \<open>i\<close> under the policy that refuses to replace an entry, and
  the server-side copy of a file.
\<close>

definition relocates :: "'s env \<Rightarrow> string \<Rightarrow> bool \<Rightarrow> request \<Rightarrow> bool" where
  "relocates E i isDir r \<longleftrightarrow>
     (\<exists>op kvs. op \<in> {''/rename'', ''/move''}
        \<and> api_post E (''efast/v1/'' @ (if isDir then ''dir'' else ''file'') @ op) (JObj kvs) r
        \<and> map_of kvs ''docid'' = Some (JStr i) \<and> map_of kvs ''ondup'' = Some (JNum ''1''))"

definition copies :: "'s env \<Rightarrow> string \<Rightarrow> string \<Rightarrow> string \<Rightarrow> request \<Rightarrow> bool" where
  "copies E i parentID ondup =
     api_post E ''efast/v1/file/copy''
       (JObj [(''docid'', JStr i), (''destparent'', JStr parentID), (''ondup'', JNum ondup)])"

lemma renameEntry_sends: "sends (relocates E i isDir) (renameEntry E i nm isDir)"
  unfolding renameEntry_def
  by (intro runs_rules) (auto simp: relocates_def intro!: exI [of _ "''/rename''"])

lemma moveEntry_sends: "sends (relocates E i isDir) (moveEntry E i parentID nm isDir)"
  unfolding moveEntry_def
  by (intro runs_rules) (auto simp: relocates_def intro!: exI [of _ "''/move''"])

lemma relocateEntry_sends [runs_rules]:
  "sends (relocates E i isDir) (relocateEntry E i sp dp sl dl isDir)"
  unfolding relocateEntry_def by (intro runs_rules renameEntry_sends moveEntry_sends)

text \<open>
  C32. A move relocates its source and nothing else. Every request of \<open>Move\<close> is a look-up or a
  creation of a destination directory, or the rename or move of the source object's own ID as a
  file, under the policy that refuses to replace an existing entry; a move deletes nothing.
\<close>

theorem Move_never_replaces:
  assumes "dircache_frame E" and "r \<in> set (requests (Move E f (Some ob) remote) w)"
  shows "lookup_request E True r \<or> relocates E (o_id ob) False r"
proof -
  have look: "sends (\<lambda>r. lookup_request E True r \<or> relocates E i d r) (FindDir E g p c)" for i d g p c
    by (rule sends_mono [OF dircache_sends(1) [OF assms(1)]]) (auto simp: lookup_request_def)
  have go: "sends (\<lambda>r. lookup_request E True r \<or> relocates E i d r) (relocateEntry E i sp dp sl dl d)" for i d sp dp sl dl
    by (rule sends_mono [OF relocateEntry_sends]) simp
  have "sends (\<lambda>r. lookup_request E True r \<or> relocates E (o_id ob) False r) (Move E f (Some ob) remote)"
    unfolding Move_def Let_def option.case by (intro runs_rules look go)
  then show ?thesis using assms(2) by (rule sends_requests)
qed

text \<open>
  C31. A directory move spares the virtual root and the libraries. Any request of \<open>DirMove\<close> that
  is not a look-up or the creation of a destination directory comes after the cache resolved
  source and destination to parents that are not the virtual root, neither side is the root of
  a remote without a path, and it is the rename or move of the resolved source directory under
  the policy that refuses to replace an existing entry.
\<close>

theorem DirMove_protects_libraries:
  assumes frame: "dircache_frame E" and r: "r \<in> set (requests (DirMove E f (Some source) srcRemote dstRemote) w)"
    and change: "\<not> lookup_request E True r"
  shows "(srcRemote \<noteq> [] \<or> fs_root source \<noteq> []) \<and> (dstRemote \<noteq> [] \<or> fs_root f \<noteq> [])
    \<and> (\<exists>srcID srcParentID srcLeaf dstParentID dstLeaf w1.
         DirCacheMove E f source srcRemote dstRemote w =
           (Inr (srcID, srcParentID, srcLeaf, dstParentID, dstLeaf), w1)
         \<and> srcParentID \<noteq> virtualRootID \<and> dstParentID \<noteq> virtualRootID \<and> relocates E srcID True r)"
proof -
  let ?after = "\<lambda>(srcID, srcParentID, srcLeaf, dstParentID, dstLeaf).
    if srcParentID = virtualRootID \<or> dstParentID = virtualRootID then throw (FsError ErrorCantDirMove)
    else andThen (relocateEntry E srcID srcParentID dstParentID srcLeaf dstLeaf True) (\<lambda>_.
      andThen (flush_dir E source srcRemote) (\<lambda>_. flush_dir E f dstRemote))"
  have go: "sends (relocates E i True) (andThen (relocateEntry E i sp dp sl dl True) (\<lambda>_.
      andThen (flush_dir E source srcRemote) (\<lambda>_. flush_dir E f dstRemote)))" for i sp dp sl dl
    by (intro runs_rules)
  have "\<not> ((srcRemote = [] \<and> fs_root source = []) \<or> (dstRemote = [] \<and> fs_root f = []))"
    using r by (auto simp: DirMove_def split: if_splits)
  moreover from this have "r \<in> set (requests (andThen (DirCacheMove E f source srcRemote dstRemote) ?after) w)"
    using r by (auto simp: DirMove_def split: if_splits)
  then obtain x w1 where x: "DirCacheMove E f source srcRemote dstRemote w = (Inr x, w1)"
    and r1: "r \<in> set (requests (?after x) w1)"
  proof (rule requests_after [where D = "\<lambda>r. \<not> lookup_request E True r"])
    show "extends (?after x)" for x
      using sends_extends [OF go] by (cases x) simp
  qed (use dircache_sends(5) [OF frame] change in auto)
  obtain srcID srcParentID srcLeaf dstParentID dstLeaf where
    xs: "x = (srcID, srcParentID, srcLeaf, dstParentID, dstLeaf)" by (cases x)
  from r1 have "srcParentID \<noteq> virtualRootID" "dstParentID \<noteq> virtualRootID" "relocates E srcID True r"
    using sends_requests [OF go] by (auto simp: xs split: if_splits)
  ultimately show ?thesis using x xs by blast
qed

lemma FormatInt_12: "FormatInt 1 = ''1''" "FormatInt 2 = ''2''"
  by code_simp+

lemma copyFile_sends: "sends (copies E i parentID (FormatInt n)) (copyFile E i parentID n)"
  unfolding copyFile_def by (intro runs_rules; simp add: copies_def)

lemma rename_copy_sends:
  "sends (\<lambda>r. relocates E i False r \<or> delete_file E i r) (rename_copy E i leaf)"
  unfolding rename_copy_def
  by (intro runs_rules sends_mono [OF renameEntry_sends] sends_mono [OF deleteEntry_sends(2)]; simp)

lemma copy_absent_requests:
  assumes frame: "dircache_frame E" and r: "r \<in> set (requests (copy_absent E f i parentID remote needs leaf) w)"
    and change: "\<not> lookup_request E True r"
  shows "copies E i parentID (if needs then ''2'' else ''1'') r
    \<or> needs \<and> (\<exists>copiedID w'. copyFile E i parentID 2 w = (Inr copiedID, w')
        \<and> (relocates E copiedID False r \<or> delete_file E copiedID r))"
proof (cases "copies E i parentID (if needs then ''2'' else ''1'') r")
  case False
  let ?n = "if needs then 2 else 1 :: int"
  have copy: "sends (copies E i parentID (if needs then ''2'' else ''1'')) (copyFile E i parentID ?n)"
    using copyFile_sends [of E i parentID ?n] by (cases needs) (simp_all add: FormatInt_12)
  have look: "sends (\<lambda>r. \<not> \<not> lookup_request E True r) (NewObject E f remote)"
    using read_lookup [OF NewObject_sends [OF frame]] by simp
  have rest: "sends (\<lambda>r. lookup_request E True r \<or> needs \<and> (relocates E c False r \<or> delete_file E c r))
      (andThen (if needs then rename_copy E c leaf else ok ()) (\<lambda>_. NewObject E f remote))" for c
    by (rule sends_andThen, rule sends_if, rule sends_mono [OF rename_copy_sends])
      (auto intro: sends_mono [OF look])
  from r obtain c w' where c: "copyFile E i parentID ?n w = (Inr c, w')"
    and r1: "r \<in> set (requests (andThen (if needs then rename_copy E c leaf else ok ()) (\<lambda>_. NewObject E f remote)) w')"
    unfolding copy_absent_def
    by (rule requests_after [where D = "\<lambda>r. \<not> copies E i parentID (if needs then ''2'' else ''1'') r"])
      (use copy False sends_extends [OF rest] in auto)
  have "needs \<and> (relocates E c False r \<or> delete_file E c r)"
    using sends_requests [OF rest r1] change by blast
  with c show ?thesis by auto
qed simp


section \<open>Sample runs\<close>

lemma refused_do_api:
  assumes "ext w = []"
  shows "do_api sample_env dl method ep jb w =
    (Inl (Errorf ''PKU Disk request failed: %w'' [] [] [Foreign ''connection refused'']),
     w\<lparr>sent := sent w @ [api_request sample_env ApiHTTP dl method ep jb ''T'']\<rparr>)"
  using assms
  by (cases w) (simp add: do_api_def doWithClient_unroll exchange_def script_do_def
      get_token_def perform_def run_simps cong: run_congs)

abbreviation rename_call :: "string \<Rightarrow> string \<Rightarrow> string \<Rightarrow> request" where
  "rename_call kind i nm \<equiv> api_request sample_env ApiHTTP None ''POST'' (''efast/v1/'' @ kind @ ''/rename'')
     (Some (JObj [(''docid'', JStr i), (''name'', JStr nm), (''ondup'', JNum ''1'')])) ''T''"

lemma sample_rename:
  assumes "ext w = []" and "sl \<noteq> dl"
  shows "relocateEntry sample_env i p p sl dl d w =
    (Inl (Errorf ''PKU Disk request failed: %w'' [] [] [Foreign ''connection refused'']),
     w\<lparr>sent := sent w @ [rename_call (if d then ''dir'' else ''file'') i dl]\<rparr>)"
  using assms
  by (simp add: relocateEntry_def renameEntry_def refused_do_api run_simps cong: run_congs)

definition sample_object :: Object where
  "sample_object = (new_object sample_fs ''L/f'')\<lparr>o_id := ''D''\<rparr>"

lemma sample_splits:
  "split_last ''L/f'' = (''L'', ''f'')" "split_last ''L/g'' = (''L'', ''g'')"
  "split_last ''L/d'' = (''L'', ''d'')" "split_last ''L/e'' = (''L'', ''e'')"
  by code_simp+

theorem Move_never_replaces_witness:
  "\<exists>r \<in> set (requests (Move sample_env sample_fs (Some sample_object) ''L/g'')
       (start_world [answer 200 libraries_body, answer 200 libraries_body])).
     verb r = ''POST'' \<and> relocates sample_env ''D'' False r"
proof -
  let ?w = "start_world [answer 200 libraries_body, answer 200 libraries_body]"
  obtain w1 where w1: "FindDir sample_env sample_fs ''L'' True ?w = (Inr ''i'', w1)"
    and e1: "ext w1 = [answer 200 libraries_body]"
    by (rule sample_find_L [of ?w]) (auto simp: start_world_def)
  obtain w2 where w2: "FindDir sample_env sample_fs ''L'' False w1 = (Inr ''i'', w2)" and e2: "ext w2 = []"
    using e1 by (rule sample_find_L)
  have "rename_call ''file'' ''D'' ''g'' \<in> set (sent (snd (Move sample_env sample_fs (Some sample_object) ''L/g'' ?w)))"
    using w1 w2 sample_rename [OF e2, of "''f''" "''g''" "''D''" "''i''" False]
    by (simp add: Move_def sample_object_def new_object_def sample_splits run_simps cong: run_congs)
  then have sent: "rename_call ''file'' ''D'' ''g'' \<in> set (requests (Move sample_env sample_fs (Some sample_object) ''L/g'') ?w)"
    by (simp add: requests_def start_world_def)
  have "\<not> lookup_request sample_env True (rename_call ''file'' ''D'' ''g'')"
    by (auto simp: lookup_request_def read_request_def read_endpoints_def create_request_def)
  then have "relocates sample_env (o_id sample_object) False (rename_call ''file'' ''D'' ''g'')"
    using Move_never_replaces [OF sample_frame sent] by blast
  with sent show ?thesis by (intro bexI [of _ "rename_call ''file'' ''D'' ''g''"]) (simp_all add: sample_object_def)
qed

theorem DirMove_protects_libraries_witness:
  "\<exists>r \<in> set (requests (DirMove sample_env sample_fs (Some sample_fs) ''L/d'' ''L/e'')
       (start_world [answer 200 libraries_body, answer 200 dirs_body, answer 200 libraries_body,
          answer 200 libraries_body])).
     verb r = ''POST'' \<and> relocates sample_env ''X'' True r"
proof -
  let ?w = "start_world [answer 200 libraries_body, answer 200 dirs_body, answer 200 libraries_body,
          answer 200 libraries_body]"
  have comps: "components ''L/d'' = [''L'', ''d'']" "components ''L'' = [''L'']"
    and ne: "''i'' \<noteq> virtualRootID"
    by code_simp+
  obtain w1 where w1: "DirCacheMove sample_env sample_fs sample_fs ''L/d'' ''L/e'' ?w =
      (Inr (''X'', ''i'', ''d'', ''i'', ''e''), w1)" and e1: "ext w1 = []"
    using ne
    by (auto simp: DirCacheMove_def sample_env_def [THEN arg_cong [where f = dc_dir_move]] FindLeaf_def
        libraries_def listDir_def sample_steps sample_lookup sample_dirs_body comps sample_splits
        start_world_def cong: run_congs)
  have "rename_call ''dir'' ''X'' ''e'' \<in> set (sent (snd (DirMove sample_env sample_fs (Some sample_fs) ''L/d'' ''L/e'' ?w)))"
    using w1 ne sample_rename [OF e1, of "''d''" "''e''" "''X''" "''i''" True]
    by (simp add: DirMove_def run_simps cong: run_congs)
  then have sent: "rename_call ''dir'' ''X'' ''e'' \<in> set (requests (DirMove sample_env sample_fs (Some sample_fs) ''L/d'' ''L/e'') ?w)"
    by (simp add: requests_def start_world_def)
  have "\<not> lookup_request sample_env True (rename_call ''dir'' ''X'' ''e'')"
    by (auto simp: lookup_request_def read_request_def read_endpoints_def create_request_def)
  with DirMove_protects_libraries [OF sample_frame sent] w1
  have "relocates sample_env ''X'' True (rename_call ''dir'' ''X'' ''e'')" by auto
  with sent show ?thesis by (intro bexI [of _ "rename_call ''dir'' ''X'' ''e''"]) simp_all
qed

text \<open>An object that the service says does not exist.\<close>

definition absent_body :: string where
  "absent_body = ''{\"code\":404002006}''"

lemma sample_absent:
  "parseAPIError 404 absent_body = Some (ApiError 404 404002006 ''Not Found'')"
  "int (length absent_body) \<le> 16777216"
  "encodedNamePath sample_env sample_fs ''L/g'' = ''L/g''"
  "isAuthError (ApiError 404 404002006 m) = False" "isTransientError (ApiError 404 404002006 m) = False"
  "isGetInfoPathNotFound (ApiError 404 404002006 m)"
  by code_simp+

lemma sample_NewObject_absent:
  assumes "ext w = answer 404 absent_body # s"
  obtains w' where "NewObject sample_env sample_fs ''L/g'' w = (Inl (FsError ErrorObjectNotFound), w')"
    and "ext w' = s"
proof -
  have "do_api sample_env dl m ep jb w = (Inl (ApiError 404 404002006 ''Not Found''),
      w\<lparr>ext := s, sent := sent w @ [api_request sample_env ApiHTTP dl m ep jb ''T'']\<rparr>)" for dl m ep jb
    using assms sample_absent(2)
    by (simp add: do_api_def doWithClient_unroll exchange_def answer_def script_do_def limit_read_def
        get_token_def perform_def sample_absent(1,4) run_simps cong: run_congs)
  then show ?thesis
    using that
    by (simp add: NewObject_def newObjectByPath_def getInfoByPath_def doJSONWithTransientRetry_def
        retryTransient_def transientReadAttempts_def retry_from.simps [of sample_env] doJSON_def
        sample_absent run_simps Let_def cong: run_congs)
qed


end
