(* ===== verification/Fs_Commands.thy ===== *)
theory Fs_Commands
  imports Fs_Dirs
begin

text \<open>
  The backend commands of \<open>pkudisk.go\<close>, the low-level primitives of stateful sync clients:
  deleting a file under its revision, deleting an empty directory, and moving an entry by ID.
  An option that is not given is the empty string, as a Go map lookup gives it.
\<close>

datatype commandResult = Deleted string | Relocated string string

definition option_value :: "(string \<rightharpoonup> string) \<Rightarrow> string \<Rightarrow> string" where
  "option_value opt k = (case opt k of None \<Rightarrow> [] | Some v \<Rightarrow> v)"

text \<open>The check of \<open>sync-delete\<close> on the metadata of the file, read just before.\<close>

definition delete_check :: "string \<Rightarrow> string \<Rightarrow> fileMetadata \<Rightarrow> goerr option" where
  "delete_check i expectedRev meta =
     (if m_DocID meta \<noteq> [] \<and> m_DocID meta \<noteq> i then
        Some (syncPreconditionErrorf ''remote object ID changed: expected %q, got %q'' [i, m_DocID meta] [])
      else if m_Rev meta \<noteq> expectedRev then
        Some (syncPreconditionErrorf ''remote revision changed for %q: expected %q, got %q''
          [i, expectedRev, m_Rev meta] [])
      else None)"

definition sync_delete ::
    "'s env \<Rightarrow> string list \<Rightarrow> (string \<rightharpoonup> string) \<Rightarrow> ('s, commandResult) act" where
  "sync_delete E arg opt =
     (case arg of
        [a] \<Rightarrow>
          (let i = TrimSpace a; expectedRev = TrimSpace (option_value opt ''expected-rev'') in
           if i = [] \<or> expectedRev = [] then
             throw (ErrNew ''sync-delete requires a non-empty docid and -o expected-rev=<rev>'')
           else andThen (metadata E i) (\<lambda>meta.
             andThen (check (delete_check i expectedRev meta)) (\<lambda>_.
             andThen (deleteEntry E i False) (\<lambda>_. ok (Deleted i)))))
      | _ \<Rightarrow> throw (ErrNew ''sync-delete requires exactly one docid argument''))"

definition sync_delete_dir :: "'s env \<Rightarrow> Fs \<Rightarrow> string list \<Rightarrow> ('s, commandResult) act" where
  "sync_delete_dir E f arg =
     (case arg of
        [a] \<Rightarrow>
          (let i = TrimSpace a in
           if i = [] then throw (ErrNew ''sync-delete-dir requires a non-empty docid'')
           else if parentDocID i = None then
             throw (ErrNew ''sync-delete-dir refuses document-library or malformed docids'')
           else andThen (listDir E i) (\<lambda>listing.
             if l_Dirs listing \<noteq> [] \<or> l_Files listing \<noteq> [] then
               throw (syncPreconditionErrorf ''remote directory %q is no longer empty'' [i] [])
             else andThen (deleteEntry E i True) (\<lambda>_.
               andThen (tell (dc_flush E (fs_cache f))) (\<lambda>_. ok (Deleted i)))))
      | _ \<Rightarrow> throw (ErrNew ''sync-delete-dir requires exactly one docid argument''))"

text \<open>The kind of the entry to move: \<open>True\<close> for a directory.\<close>

definition move_kind :: "(string \<rightharpoonup> string) \<Rightarrow> goerr + bool" where
  "move_kind opt =
     (let kind = ToLower (TrimSpace (option_value opt ''kind'')) in
      if kind = [] \<or> kind = ''file'' then Inr False
      else if kind = ''dir'' then Inr True
      else Inl (Errorf ''sync-move kind must be file or dir, got %q'' [kind] [] []))"

definition relocate_by_id ::
    "'s env \<Rightarrow> string \<Rightarrow> string \<Rightarrow> string \<Rightarrow> string \<Rightarrow> bool \<Rightarrow> ('s, string) act" where
  "relocate_by_id E i srcParentID dstParentID dstLeaf isDir =
     (if srcParentID = dstParentID then
        andThen (renameEntry E i (encode E dstLeaf) isDir) (\<lambda>_. ok i)
      else moveEntry E i dstParentID (encode E dstLeaf) isDir)"

definition sync_move ::
    "'s env \<Rightarrow> Fs \<Rightarrow> string list \<Rightarrow> (string \<rightharpoonup> string) \<Rightarrow> ('s, commandResult) act" where
  "sync_move E f arg opt =
     (case arg of
        [a, b] \<Rightarrow>
          (let i = TrimSpace a; dstRemote = Trim CHR ''/'' (TrimSpace b) in
           if i = [] \<or> dstRemote = [] then
             throw (ErrNew ''sync-move requires non-empty docid and destination-remote arguments'')
           else andThen (lift (move_kind opt)) (\<lambda>isDir.
             let (dstDir, dstLeaf) = split_path E dstRemote in
             if dstLeaf = [] then throw (ErrNew ''sync-move destination must name an entry'')
             else andThen (FindDir E f dstDir False) (\<lambda>dstParentID.
               if dstParentID = virtualRootID then
                 throw (ErrNew ''sync-move cannot move entries directly into the PKU Disk virtual root'')
               else (case parentDocID i of
                 None \<Rightarrow>
                   throw (Errorf ''sync-move cannot derive the source parent from docid %q'' [i] [] [])
               | Some srcParentID \<Rightarrow>
                   andThen (relocate_by_id E i srcParentID dstParentID dstLeaf isDir) (\<lambda>newID.
                   andThen (if isDir then tell (dc_flush E (fs_cache f)) else ok ()) (\<lambda>_.
                     ok (Relocated newID dstRemote)))))))
      | _ \<Rightarrow> throw (ErrNew ''sync-move requires <docid> <destination-remote>''))"

definition Command ::
    "'s env \<Rightarrow> Fs \<Rightarrow> string \<Rightarrow> string list \<Rightarrow> (string \<rightharpoonup> string) \<Rightarrow> ('s, commandResult) act" where
  "Command E f name arg opt =
     (if name = ''sync-delete'' then sync_delete E arg opt
      else if name = ''sync-delete-dir'' then sync_delete_dir E f arg
      else if name = ''sync-move'' then sync_move E f arg opt
      else throw (Errorf ''unknown PKU Disk backend command %q'' [name] [] []))"

section \<open>Deleting under a revision\<close>

text \<open>
  A deletion of the command: of a file whose metadata was read before and showed the expected
  ID and revision, or of a directory that is not a library and was listed before as empty.
\<close>

definition deletes_file_under ::
    "'s env \<Rightarrow> string \<Rightarrow> string \<Rightarrow> 's world \<Rightarrow> request \<Rightarrow> bool" where
  "deletes_file_under E i rv w r \<longleftrightarrow>
     (\<exists>meta w'. metadata E i w = (Inr meta, w') \<and> m_DocID meta = i \<and> m_Rev meta = rv)
     \<and> i \<noteq> [] \<and> rv \<noteq> [] \<and> delete_file E i r"

definition deletes_empty_dir :: "'s env \<Rightarrow> string \<Rightarrow> 's world \<Rightarrow> request \<Rightarrow> bool" where
  "deletes_empty_dir E i w r \<longleftrightarrow>
     (\<exists>listing w'. listDir E i w = (Inr listing, w') \<and> l_Dirs listing = [] \<and> l_Files listing = [])
     \<and> parentDocID i \<noteq> None \<and> delete_dir E i r"

lemma metadata_DocID: "metadata E i w = (Inr meta, w') \<Longrightarrow> m_DocID meta \<noteq> [] \<or> i = []"
  by (auto simp: metadata_def andThen_def split: prod.splits sum.splits if_splits)

lemma delete_check_None:
  "delete_check i rv meta = None \<longleftrightarrow> (m_DocID meta = [] \<or> m_DocID meta = i) \<and> m_Rev meta = rv"
  by (auto simp: delete_check_def)

lemma sync_delete_requests:
  assumes r: "r \<in> set (requests (sync_delete E [a] opt) w)" and change: "\<not> lookup_request E False r"
  shows "deletes_file_under E (TrimSpace a) (TrimSpace (option_value opt ''expected-rev'')) w r"
proof -
  let ?i = "TrimSpace a" and ?rv = "TrimSpace (option_value opt ''expected-rev'')"
  let ?D = "\<lambda>r. \<not> lookup_request E False r"
  have del: "sends (delete_file E ?i) (andThen (deleteEntry E ?i False) (\<lambda>_. ok (Deleted ?i)))"
    by (intro runs_rules deleteEntry_sends)
  have ne: "?i \<noteq> []" "?rv \<noteq> []"
    using r by (auto simp: sync_delete_def Let_def split: if_splits)
  with r have "r \<in> set (requests (andThen (metadata E ?i) (\<lambda>meta.
      andThen (check (delete_check ?i ?rv meta)) (\<lambda>_.
      andThen (deleteEntry E ?i False) (\<lambda>_. ok (Deleted ?i))))) w)"
    by (simp add: sync_delete_def Let_def)
  then obtain meta w1 where m: "metadata E ?i w = (Inr meta, w1)"
    and r1: "r \<in> set (requests (andThen (check (delete_check ?i ?rv meta)) (\<lambda>_.
      andThen (deleteEntry E ?i False) (\<lambda>_. ok (Deleted ?i)))) w1)"
    by (rule requests_after [where D = ?D])
      (use read_lookup [OF reads_send(3)] sends_extends [OF del] change in \<open>auto intro: sends_check_then\<close>)
  then have "delete_check ?i ?rv meta = None"
    by (cases "delete_check ?i ?rv meta") (auto simp: check_def requests_def andThen_def)
  moreover from this r1 have "r \<in> set (requests (andThen (deleteEntry E ?i False) (\<lambda>_. ok (Deleted ?i))) w1)"
    by (simp add: check_def requests_def andThen_def)
  then have "delete_file E ?i r" using del sends_requests by blast
  ultimately show ?thesis
    using m ne metadata_DocID [OF m] by (auto simp: deletes_file_under_def delete_check_None)
qed

lemma sync_delete_dir_requests:
  assumes r: "r \<in> set (requests (sync_delete_dir E f [a]) w)" and change: "\<not> lookup_request E False r"
  shows "deletes_empty_dir E (TrimSpace a) w r"
proof -
  let ?i = "TrimSpace a"
  let ?D = "\<lambda>r. \<not> lookup_request E False r"
  let ?del = "andThen (deleteEntry E ?i True) (\<lambda>_. andThen (tell (dc_flush E (fs_cache f))) (\<lambda>_. ok (Deleted ?i)))"
  have del: "sends (delete_dir E ?i) ?del"
    by (intro runs_rules deleteEntry_sends)
  have ne: "parentDocID ?i \<noteq> None" "?i \<noteq> []"
    using r by (auto simp: sync_delete_dir_def Let_def split: if_splits)
  with r have "r \<in> set (requests (andThen (listDir E ?i) (\<lambda>listing.
      if l_Dirs listing \<noteq> [] \<or> l_Files listing \<noteq> [] then
        throw (syncPreconditionErrorf ''remote directory %q is no longer empty'' [?i] [])
      else ?del)) w)"
    by (simp add: sync_delete_dir_def Let_def)
  then obtain listing w1 where l: "listDir E ?i w = (Inr listing, w1)"
    and r1: "r \<in> set (requests (if l_Dirs listing \<noteq> [] \<or> l_Files listing \<noteq> [] then
        throw (syncPreconditionErrorf ''remote directory %q is no longer empty'' [?i] []) else ?del) w1)"
    by (rule requests_after [where D = ?D])
      (use read_lookup [OF reads_send(2)] sends_extends [OF del] change in \<open>auto intro: sends_if\<close>)
  from r1 have "l_Dirs listing = [] \<and> l_Files listing = [] \<and> delete_dir E ?i r"
    using sends_requests [OF del] by (auto split: if_splits)
  with l ne show ?thesis by (auto simp: deletes_empty_dir_def)
qed

section \<open>Moving by ID\<close>

text \<open>
  A relocation of the command: of the entry with this ID, which has a parent, as the kind of
  entry that was asked for, to an existing directory other than the virtual root, and never in
  place of another entry.
\<close>

definition relocates_under ::
    "'s env \<Rightarrow> Fs \<Rightarrow> string \<Rightarrow> string \<Rightarrow> bool \<Rightarrow> 's world \<Rightarrow> request \<Rightarrow> bool" where
  "relocates_under E f i dstRemote isDir w r \<longleftrightarrow>
     (\<exists>dst w'. FindDir E f (fst (split_path E dstRemote)) False w = (Inr dst, w') \<and> dst \<noteq> virtualRootID)
     \<and> snd (split_path E dstRemote) \<noteq> [] \<and> parentDocID i \<noteq> None \<and> relocates E i isDir r"

lemma relocate_by_id_sends: "sends (relocates E i isDir) (relocate_by_id E i sp dp leaf isDir)"
  unfolding relocate_by_id_def by (intro runs_rules renameEntry_sends moveEntry_sends)

lemma sync_move_requests:
  assumes frame: "dircache_frame E" and r: "r \<in> set (requests (sync_move E f [a, b] opt) w)"
    and change: "\<not> lookup_request E False r"
  shows "\<exists>isDir. move_kind opt = Inr isDir
    \<and> relocates_under E f (TrimSpace a) (Trim CHR ''/'' (TrimSpace b)) isDir w r"
proof -
  let ?i = "TrimSpace a" and ?rm = "Trim CHR ''/'' (TrimSpace b)"
  obtain dir leaf where split: "split_path E ?rm = (dir, leaf)" by (cases "split_path E ?rm")
  obtain isDir where kind: "move_kind opt = Inr isDir"
    using r by (cases "move_kind opt") (auto simp: sync_move_def Let_def requests_def andThen_def split: if_splits)
  let ?done = "\<lambda>newID. andThen (if isDir then tell (dc_flush E (fs_cache f)) else ok ()) (\<lambda>_. ok (Relocated newID ?rm))"
  let ?go = "\<lambda>dst. if dst = virtualRootID then
       throw (ErrNew ''sync-move cannot move entries directly into the PKU Disk virtual root'')
     else (case parentDocID ?i of
       None \<Rightarrow> throw (Errorf ''sync-move cannot derive the source parent from docid %q'' [?i] [] [])
     | Some sp \<Rightarrow> andThen (relocate_by_id E ?i sp dst leaf isDir) ?done)"
  have move: "sends (relocates E ?i isDir) (andThen (relocate_by_id E ?i sp dst leaf isDir) ?done)" for sp dst
    by (intro runs_rules relocate_by_id_sends)
  have ext: "extends (?go dst)" for dst
    using sends_extends [OF move] by (auto split: option.split)
  have leaf: "leaf \<noteq> []"
    using r kind by (auto simp: sync_move_def Let_def split requests_def andThen_def split: if_splits)
  with r kind have "r \<in> set (requests (andThen (FindDir E f dir False) ?go) w)"
    by (auto simp: sync_move_def Let_def split andThen_def [of "lift _"] split: if_splits cong: option.case_cong)
  then obtain dst w1 where d: "FindDir E f dir False w = (Inr dst, w1)" and r1: "r \<in> set (requests (?go dst) w1)"
    by (rule requests_after [where D = "\<lambda>r. \<not> lookup_request E False r"])
      (use dircache_sends(1) [OF frame] ext change in auto)
  from r1 have "dst \<noteq> virtualRootID \<and> parentDocID ?i \<noteq> None \<and> relocates E ?i isDir r"
    using sends_requests [OF move] by (auto split: if_splits option.splits)
  with d leaf kind show ?thesis by (auto simp: relocates_under_def split)
qed


definition rev_body :: string where
  "rev_body = ''{\"docid\":\"D\",\"rev\":\"R\"}''"

lemma sample_rev:
  "accepted rev_body"
  "decode_response ''efast/v1/file/metadata'' dec_metadata zero_metadata rev_body =
     Inr (zero_metadata\<lparr>m_DocID := ''D'', m_Rev := ''R''\<rparr>)"
  "TrimSpace '' D'' = ''D''" "TrimSpace ''R'' = ''R''"
  by code_simp+


end
