(* ===== verification/LevelDB_Log.thy ===== *)
theory LevelDB_Log
  imports Go_Runtime "HOL-Library.Word"
begin

text \<open>
  The framing of a LevelDB write-ahead log as \<open>auth.go\<close> reads it: the physical records of the
  32 KiB blocks joined into logical records, and the varints inside them. Words are kept at
  their width, since a varint shifts bits out of a \<open>uint64\<close>. The reader is compared with the
  format: a log is laid out as blocks of fragments, and reading it gives the logical records.
\<close>

unbundle bit_operations_syntax

section \<open>Little-endian words\<close>

definition le_word :: "string \<Rightarrow> nat" where
  "le_word bs = foldr (\<lambda>b n. of_char b + 256 * n) bs 0"

primrec le_bytes :: "nat \<Rightarrow> nat \<Rightarrow> string" where
  "le_bytes 0 n = []"
| "le_bytes (Suc k) n = char_of (n mod 256) # le_bytes k (n div 256)"

lemma length_le_bytes [simp]: "length (le_bytes k n) = k"
  by (induction k arbitrary: n) simp_all

lemma le_word_bytes: "n < 256 ^ k \<Longrightarrow> le_word (le_bytes k n) = n"
  by (induction k arbitrary: n) (simp_all add: le_word_def less_mult_imp_div_less mult.commute)

lemma le_bytes_word: "length bs = k \<Longrightarrow> le_bytes k (le_word bs) = bs"
  by (induction bs arbitrary: k) (auto simp: le_word_def)

section \<open>Varints\<close>

text \<open>\<open>readLevelDBVarint\<close>: the value, the position after it and whether it ended.\<close>

function varint_from :: "string \<Rightarrow> 64 word \<Rightarrow> nat \<Rightarrow> nat \<Rightarrow> 64 word \<times> nat \<times> bool" where
  "varint_from bs v shift pos =
     (if pos < length bs \<and> shift \<le> 63 then
        (let b = (word_of_nat (of_char (bs ! pos)) :: 8 word);
             v' = v OR push_bit shift (ucast (b AND 0x7F))
         in if b < 0x80 then (v', pos + 1, True) else varint_from bs v' (shift + 7) (pos + 1))
      else (0, pos, False))"
  by pat_completeness auto
termination
  by (relation "measure (\<lambda>(bs, v, shift, pos). length bs - pos)") auto

declare varint_from.simps [simp del]

definition readLevelDBVarint :: "string \<Rightarrow> nat \<Rightarrow> 64 word \<times> nat \<times> bool" where
  "readLevelDBVarint bs pos = varint_from bs 0 0 pos"

section \<open>Logical records\<close>

definition levelDBLogBlockSize :: nat where
  "levelDBLogBlockSize = 32768"

text \<open>
  A fragment is \<open>None\<close> when the Go slice is nil. \<open>append(fragment[:0], payload...)\<close> of a nil
  slice and an empty payload is nil again.
\<close>

type_synonym reader_state = "string list \<times> string option"

definition take_fragment :: "nat \<Rightarrow> string \<Rightarrow> reader_state \<Rightarrow> reader_state" where
  "take_fragment recordType bs = (\<lambda>(records, fragment).
     if recordType = 1 then (records @ [bs], None)
     else if recordType = 2 then
       (records, if fragment = None \<and> bs = [] then None else Some bs)
     else if recordType = 3 then (records, map_option (\<lambda>f. f @ bs) fragment)
     else if recordType = 4 then
       (case fragment of None \<Rightarrow> (records, None) | Some f \<Rightarrow> (records @ [f @ bs], None))
     else (records, fragment))"

function block_from :: "string \<Rightarrow> nat \<Rightarrow> reader_state \<Rightarrow> reader_state" where
  "block_from block pos st =
     (if pos + 7 \<le> length block then
        (let len = le_word (take 2 (drop (pos + 4) block));
             recordType = of_char (block ! (pos + 6));
             start = pos + 7
         in if len = 0 \<and> recordType = (0 :: nat) then st
            else if start + len > length block then st
            else block_from block (start + len)
                   (take_fragment recordType (take len (drop start block)) st))
      else st)"
  by pat_completeness auto
termination
  by (relation "measure (\<lambda>(block, pos, st). length block - pos)") auto

declare block_from.simps [simp del]

function blocks_from :: "string \<Rightarrow> nat \<Rightarrow> reader_state \<Rightarrow> reader_state" where
  "blocks_from bs blockStart st =
     (if blockStart < length bs then
        (let blockEnd = min (blockStart + levelDBLogBlockSize) (length bs)
         in blocks_from bs (blockStart + levelDBLogBlockSize)
              (block_from (take (blockEnd - blockStart) (drop blockStart bs)) 0 st))
      else st)"
  by pat_completeness auto
termination
  by (relation "measure (\<lambda>(bs, blockStart, st). length bs - blockStart)")
    (auto simp: levelDBLogBlockSize_def)

declare blocks_from.simps [simp del]

definition levelDBLogicalRecords :: "string \<Rightarrow> string list" where
  "levelDBLogicalRecords bs = fst (blocks_from bs 0 ([], None))"

section \<open>Varints of the format\<close>

text \<open>The encoding of the format: seven bits to a byte, the least significant first.\<close>

function varint_bytes :: "64 word \<Rightarrow> string" where
  "varint_bytes u =
     (if u < 0x80 then [char_of (unat u)]
      else char_of (unat (u AND 0x7F OR 0x80)) # varint_bytes (drop_bit 7 u))"
  by pat_completeness auto
termination
proof (relation "measure unat")
  fix u :: "64 word" assume "\<not> u < 0x80"
  then have "128 \<le> unat u" by (simp add: word_less_nat_alt)
  then show "(drop_bit 7 u, u) \<in> measure unat"
    by (simp add: drop_bit_eq_div unat_div)
qed simp

declare varint_bytes.simps [simp del]

lemma varint_bytes_nonempty [simp]: "varint_bytes u \<noteq> []"
  by (subst varint_bytes.simps) simp

lemma byte_of_word:
  "(word_of_nat (of_char (char_of (unat (x :: 64 word)) :: char)) :: 8 word) = ucast x"
proof -
  have "take_bit 8 (unat x) = unat (ucast x :: 8 word)"
    by (simp add: unsigned_ucast_eq)
  then show ?thesis by (simp only: of_char_of take_bit_eq_mod of_nat_unat) simp
qed

lemma below_0x80: "u < (0x80 :: 64 word) \<longleftrightarrow> take_bit 7 u = u"
proof -
  have "unat u < 128 \<longleftrightarrow> unat u mod 128 = unat u"
    by (metis mod_less mod_less_divisor zero_less_numeral)
  then show ?thesis by (simp add: take_bit_eq_mod word_less_nat_alt word_unat_eq_iff unat_mod)
qed

lemma mask_0x7F: "x AND (0x7F :: 'a :: len word) = take_bit 7 x"
  by (simp add: take_bit_eq_mask mask_eq_decr_exp)

lemma last_varint_byte:
  assumes "u < (0x80 :: 64 word)"
  shows "(ucast u :: 8 word) < 0x80" and "(ucast ((ucast u :: 8 word) AND 0x7F) :: 64 word) = u"
proof -
  have n: "unat u < 128" using assms by (simp add: word_less_nat_alt)
  then show "(ucast u :: 8 word) < 0x80"
    by (simp add: word_less_nat_alt unsigned_ucast_eq take_bit_eq_mod)
  show "(ucast ((ucast u :: 8 word) AND 0x7F) :: 64 word) = u"
    using assms unfolding mask_0x7F below_0x80
    by (simp add: unsigned_take_bit_eq unsigned_ucast_eq)
qed

lemma inner_varint_byte:
  "\<not> (ucast (u AND 0x7F OR 0x80 :: 64 word) :: 8 word) < 0x80"
  "(ucast ((ucast (u AND 0x7F OR 0x80 :: 64 word) :: 8 word) AND 0x7F) :: 64 word) = take_bit 7 u"
proof -
  let ?b = "ucast (u AND 0x7F OR 0x80 :: 64 word) :: 8 word"
  have "bit ?b 7" by (simp add: bit_simps)
  then have "take_bit 7 ?b \<noteq> ?b" by (metis bit_take_bit_iff less_irrefl)
  moreover have "x < 0x80 \<Longrightarrow> take_bit 7 x = x" for x :: "8 word"
    by (simp add: take_bit_eq_mod word_less_nat_alt word_unat_eq_iff unat_mod)
  ultimately show "\<not> ?b < 0x80" by blast
  show "(ucast (?b AND 0x7F) :: 64 word) = take_bit 7 u"
    by (simp add: mask_0x7F unsigned_take_bit_eq unsigned_ucast_eq take_bit_or)
qed

lemma push_bit_split: "push_bit s (u :: 64 word) = push_bit s (take_bit 7 u) OR push_bit (s + 7) (drop_bit 7 u)"
proof (rule bit_word_eqI)
  fix n assume "n < LENGTH(64)"
  moreover have "7 + (n - (s + 7)) = n - s" if "7 \<le> n - s" using that by simp
  ultimately show "bit (push_bit s u) n =
      bit (push_bit s (take_bit 7 u) OR push_bit (s + 7) (drop_bit 7 u)) n"
    by (cases "7 \<le> n - s") (auto simp: bit_simps)
qed

lemma varint_from_step:
  assumes "pos < length bs" and "shift \<le> 63" and "bs ! pos = char_of (unat (x :: 64 word))"
  shows "varint_from bs v shift pos =
    (let v' = v OR push_bit shift (ucast ((ucast x :: 8 word) AND 0x7F))
     in if (ucast x :: 8 word) < 0x80 then (v', pos + 1, True)
        else varint_from bs v' (shift + 7) (pos + 1))"
  by (subst varint_from.simps) (simp only: assms byte_of_word Let_def simp_thms if_True)

lemma drop_Cons_nth: "drop pos xs = y # ys \<Longrightarrow> pos < length xs \<and> xs ! pos = y \<and> drop (pos + 1) xs = ys"
  by (metis drop_Suc drop_all leI list.distinct(1) list.sel(1) list.sel(3) hd_drop_conv_nth tl_drop Suc_eq_plus1)

lemma varint_from_bytes:
  assumes "drop pos bs = varint_bytes u @ rest" and "shift \<le> 63" and "unat u < 2 ^ (64 - shift)"
  shows "varint_from bs v shift pos =
    (v OR push_bit shift u, pos + length (varint_bytes u), True)"
  using assms
proof (induction u arbitrary: pos shift v rule: varint_bytes.induct)
  case (1 u)
  show ?case
  proof (cases "u < 0x80")
    case True
    with "1.prems"(1) have "pos < length bs" and "bs ! pos = char_of (unat u)"
      by (auto simp: varint_bytes.simps [of u] dest!: drop_Cons_nth)
    with True "1.prems"(2) show ?thesis
      by (simp add: varint_from_step last_varint_byte varint_bytes.simps [of u])
  next
    case False
    let ?x = "u AND 0x7F OR 0x80"
    from False "1.prems"(1) have step: "pos < length bs" "bs ! pos = char_of (unat ?x)"
      and rest: "drop (pos + 1) bs = varint_bytes (drop_bit 7 u) @ rest"
      by (auto simp: varint_bytes.simps [of u] dest!: drop_Cons_nth)
    have "128 \<le> unat u" using False by (simp add: word_less_nat_alt)
    have shift: "shift + 7 \<le> 63"
    proof (rule ccontr)
      assume "\<not> shift + 7 \<le> 63"
      then have "2 ^ (64 - shift) \<le> (2 :: nat) ^ 7" by (intro power_increasing) auto
      with \<open>128 \<le> unat u\<close> "1.prems"(3) show False by simp
    qed
    have "(2 :: nat) ^ (64 - shift) = 2 ^ (64 - (shift + 7)) * 128"
    proof -
      from shift have "64 - shift = (64 - (shift + 7)) + 7" by simp
      then show ?thesis by (simp only: power_add) simp
    qed
    with "1.prems"(3) have "unat (drop_bit 7 u) < 2 ^ (64 - (shift + 7))"
      by (simp add: drop_bit_eq_div unat_div less_mult_imp_div_less)
    note IH = "1.IH" [OF False rest shift this]
    have "varint_from bs v shift pos =
        varint_from bs (v OR push_bit shift (take_bit 7 u)) (shift + 7) (pos + 1)"
      using varint_from_step [OF step(1) "1.prems"(2) step(2)] inner_varint_byte [of u]
      by (simp only: Let_def if_False)
    with IH False show ?thesis
      by (simp only: varint_bytes.simps [of u] if_False push_bit_split [of shift u])
        (simp add: or.assoc)
  qed
qed

text \<open>
  Varints survive. Whatever surrounds it in the record, the varint of any 64-bit number is
  read back as that number, and the reader stops directly behind it.
\<close>

lemma readLevelDBVarint_roundtrip:
  "readLevelDBVarint (xs @ varint_bytes u @ ys) (length xs)
     = (u, length xs + length (varint_bytes u), True)"
proof -
  have "unat u < 2 ^ (64 - 0)" using unsigned_less [of u] by simp
  then show ?thesis
    unfolding readLevelDBVarint_def by (subst varint_from_bytes [of _ _ u ys]) simp_all
qed

section \<open>The layout of a log\<close>

text \<open>
  A physical record has a checksum, which the reader ignores, a type and its bytes. A block
  holds physical records and a trailer at which reading stops: padding shorter than a header,
  zeros, or a record that is cut off.
\<close>

type_synonym chunk = "string \<times> nat \<times> string"

definition physical :: "chunk \<Rightarrow> string" where
  "physical = (\<lambda>(crc, k, bs). crc @ le_bytes 2 (length bs) @ char_of k # bs)"

definition wf_chunk :: "chunk \<Rightarrow> bool" where
  "wf_chunk = (\<lambda>(crc, k, bs). length crc = 4 \<and> k < 256 \<and> length bs < 65536 \<and> (bs = [] \<longrightarrow> k \<noteq> 0))"

definition trailer :: "string \<Rightarrow> bool" where
  "trailer bs \<longleftrightarrow> length bs < 7
     \<or> le_word (take 2 (drop 4 bs)) = 0 \<and> bs ! 6 = CHR 0x00
     \<or> length bs < 7 + le_word (take 2 (drop 4 bs))"

definition block_bytes :: "chunk list \<times> string \<Rightarrow> string" where
  "block_bytes = (\<lambda>(cs, tr). concat (map physical cs) @ tr)"

definition wf_block :: "chunk list \<times> string \<Rightarrow> bool" where
  "wf_block = (\<lambda>(cs, tr). list_all wf_chunk cs \<and> trailer tr)"

fun layout :: "(chunk list \<times> string) list \<Rightarrow> bool" where
  "layout [] \<longleftrightarrow> True"
| "layout [b] \<longleftrightarrow> wf_block b \<and> length (block_bytes b) \<le> levelDBLogBlockSize"
| "layout (b # bs) \<longleftrightarrow> wf_block b \<and> length (block_bytes b) = levelDBLogBlockSize \<and> layout bs"

definition log_bytes :: "(chunk list \<times> string) list \<Rightarrow> string" where
  "log_bytes bs = concat (map block_bytes bs)"

definition take_chunk :: "chunk \<Rightarrow> reader_state \<Rightarrow> reader_state" where
  "take_chunk = (\<lambda>(crc, k, bs). take_fragment k bs)"

lemma block_from_chunk:
  assumes at: "drop pos block = physical c @ rest" and c: "wf_chunk c"
  shows "block_from block pos st = block_from block (pos + length (physical c)) (take_chunk c st)"
proof -
  obtain crc k bs where [simp]: "c = (crc, k, bs)" by (cases c)
  have wf: "length crc = 4" "k < 256" "length bs < 256 ^ 2" "bs = [] \<longrightarrow> k \<noteq> 0"
    using c by (simp_all add: wf_chunk_def)
  have le: "length block - pos = 7 + length bs + length rest"
    using arg_cong [OF at, of length] wf(1) by (simp add: physical_def)
  then have bounds: "pos + 7 + length bs \<le> length block" by simp
  have at4: "drop (pos + 4) block = le_bytes 2 (length bs) @ char_of k # bs @ rest"
    using arg_cong [OF at, of "drop 4"] wf(1) by (simp add: physical_def add.commute)
  have at7: "drop (pos + 7) block = bs @ rest"
    using arg_cong [OF at4, of "drop 3"] by (simp add: add.commute)
  have "block ! (pos + 6) = char_of k"
    using arg_cong [OF at4, of "\<lambda>x. x ! 2"] bounds by (simp add: nth_append ac_simps)
  then have k: "of_char (block ! (pos + 6)) = k" using wf(2) by simp
  have len: "le_word (take 2 (drop (pos + 4) block)) = length bs"
    using at4 wf(3) by (simp add: le_word_bytes)
  show ?thesis
    using bounds wf(4) by (subst block_from.simps)
      (auto simp: len k at7 Let_def take_chunk_def physical_def wf(1) algebra_simps)
qed

lemma block_from_trailer:
  assumes at: "drop pos block = tr" and tr: "trailer tr"
  shows "block_from block pos st = st"
proof (cases "pos + 7 \<le> length block")
  case True
  then have len: "length tr = length block - pos" using at by auto
  have "block ! (pos + 6) = tr ! 6" using True by (simp add: at [symmetric] ac_simps)
  moreover have "drop (pos + 4) block = drop 4 tr" by (simp add: at [symmetric] ac_simps)
  ultimately show ?thesis
    using True tr len by (subst block_from.simps) (auto simp: trailer_def Let_def)
qed (simp add: block_from.simps)

lemma block_from_chunks:
  assumes "drop pos block = concat (map physical cs) @ tr" and "list_all wf_chunk cs" and "trailer tr"
  shows "block_from block pos st = fold take_chunk cs st"
  using assms
proof (induction cs arbitrary: pos st)
  case (Cons c cs)
  let ?rest = "concat (map physical cs) @ tr"
  have at: "drop pos block = physical c @ ?rest" using Cons.prems(1) by simp
  from arg_cong [OF at, of "drop (length (physical c))"]
  have "drop (pos + length (physical c)) block = ?rest" by (simp add: add.commute)
  with Cons.IH Cons.prems(2,3) block_from_chunk [OF at] show ?case by simp
qed (simp add: block_from_trailer)

lemma block_from_block: "wf_block b \<Longrightarrow> block_from (block_bytes b) 0 st = fold take_chunk (fst b) st"
  by (cases b) (auto simp: wf_block_def block_bytes_def intro: block_from_chunks)

lemma blocks_from_layout:
  assumes "layout bs" and "drop pos lg = log_bytes bs"
  shows "blocks_from lg pos st = fold take_chunk (concat (map fst bs)) st"
  using assms
proof (induction bs arbitrary: pos st rule: layout.induct)
  case 1
  then show ?case by (subst blocks_from.simps) (auto simp: log_bytes_def)
next
  case (2 b)
  then have here: "drop pos lg = block_bytes b" by (simp add: log_bytes_def)
  then have len: "length (block_bytes b) = length lg - pos" by (metis length_drop)
  show ?case
  proof (cases "pos < length lg")
    case True
    have "length (block_bytes b) \<le> levelDBLogBlockSize" using 2 by simp
    with len have whole: "length lg \<le> pos + levelDBLogBlockSize" by arith
    then have "min (pos + levelDBLogBlockSize) (length lg) - pos = length (block_bytes b)"
      using len by simp
    with True whole have "blocks_from lg pos st = block_from (block_bytes b) 0 st"
      by (subst blocks_from.simps)
        (simp add: here blocks_from.simps [of lg "pos + levelDBLogBlockSize"])
    with 2 show ?thesis by (simp add: block_from_block)
  next
    case False
    with here have "fold take_chunk (fst b) st = st"
      using block_from_block [of b st] 2 by (simp add: block_from.simps)
    with False show ?thesis by (simp add: blocks_from.simps)
  qed
next
  case (3 b b' bs)
  let ?n = levelDBLogBlockSize
  have here: "drop pos lg = block_bytes b @ log_bytes (b' # bs)"
    using "3.prems"(2) by (simp add: log_bytes_def)
  have n: "length (block_bytes b) = ?n" using "3.prems"(1) by simp
  have "pos + ?n \<le> length lg" "0 < ?n"
    using arg_cong [OF here, of length] n by (auto simp: levelDBLogBlockSize_def)
  moreover have "take ?n (drop pos lg) = block_bytes b" by (simp add: here n)
  ultimately have "blocks_from lg pos st = blocks_from lg (pos + ?n) (block_from (block_bytes b) 0 st)"
    by (subst blocks_from.simps) simp
  moreover have "drop (pos + ?n) lg = log_bytes (b' # bs)"
    using arg_cong [OF here, of "drop ?n"] n by (simp add: add.commute)
  ultimately show ?case using "3.IH" "3.prems"(1) by (simp add: block_from_block)
qed

text \<open>The physical records of one logical record, cut into parts.\<close>

fun later_fragments :: "(string \<times> string) list \<Rightarrow> chunk list" where
  "later_fragments [] = []"
| "later_fragments [(crc, bs)] = [(crc, 4, bs)]"
| "later_fragments ((crc, bs) # p # ps) = (crc, 3, bs) # later_fragments (p # ps)"

fun fragments :: "(string \<times> string) list \<Rightarrow> chunk list" where
  "fragments [] = []"
| "fragments [(crc, bs)] = [(crc, 1, bs)]"
| "fragments ((crc, bs) # p # ps) = (crc, 2, bs) # later_fragments (p # ps)"

definition readable :: "(string \<times> string) list \<Rightarrow> bool" where
  "readable ps \<longleftrightarrow> ps \<noteq> [] \<and> (length ps = 1 \<or> snd (hd ps) \<noteq> [])"

lemma take_chunk_simps [simp]:
  "take_chunk (crc, 1, bs) (records, fragment) = (records @ [bs], None)"
  "take_chunk (crc, Suc 0, bs) (records, fragment) = (records @ [bs], None)"
  "bs \<noteq> [] \<Longrightarrow> take_chunk (crc, 2, bs) (records, None) = (records, Some bs)"
  "take_chunk (crc, 2, []) (records, None) = (records, None)"
  "take_chunk (crc, 3, bs) (records, Some f) = (records, Some (f @ bs))"
  "take_chunk (crc, 4, bs) (records, Some f) = (records @ [f @ bs], None)"
  "take_chunk (crc, 4, bs) (records, None) = (records, None)"
  by (simp_all add: take_chunk_def take_fragment_def)

lemma fold_later_fragments:
  "ps \<noteq> [] \<Longrightarrow> fold take_chunk (later_fragments ps) (records, Some f) = (records @ [f @ concat (map snd ps)], None)"
  by (induction ps arbitrary: f rule: later_fragments.induct) auto

lemma fold_fragments:
  "readable ps \<Longrightarrow> fold take_chunk (fragments ps) (records, None) = (records @ [concat (map snd ps)], None)"
  by (cases ps rule: fragments.cases) (auto simp: readable_def fold_later_fragments)

lemma fold_records:
  "list_all readable rs \<Longrightarrow> fold take_chunk (concat (map fragments rs)) (records, None)
     = (records @ map (\<lambda>ps. concat (map snd ps)) rs, None)"
  by (induction rs arbitrary: records) (simp_all add: fold_fragments)

lemma log_records:
  assumes "layout bs" and "concat (map fst bs) = concat (map fragments rs)" and "list_all readable rs"
  shows "levelDBLogicalRecords (log_bytes bs) = map (\<lambda>ps. concat (map snd ps)) rs"
  unfolding levelDBLogicalRecords_def
  by (subst blocks_from_layout [OF assms(1)]) (simp_all add: assms fold_records)

text \<open>
  C18. The log is read as it was written. However a writer lays out its records in 32 KiB blocks,
  whole or cut into any number of parts over any blocks, with any checksums, padding before the
  end of a block and a torn record at the end of the log, \<open>levelDBLogicalRecords\<close> returns
  exactly the records, in order and joined again, provided that the first part of a cut record
  is not empty.
\<close>

theorem levelDBLogicalRecords_roundtrip:
  assumes "layout bs" and "concat (map fst bs) = concat (map fragments rs)" and "list_all readable rs"
  shows "levelDBLogicalRecords (log_bytes bs) = map (\<lambda>ps. concat (map snd ps)) rs"
  using assms by (rule log_records)

definition sample_log :: "(chunk list \<times> string) list" where
  "sample_log =
     [([(''crc0'', 1, ''a''), (''crc1'', 2, replicate 32753 CHR ''b'')], []),
      ([(''crc2'', 3, []), (''crc3'', 4, ''c'')], ''torn'')]"

lemma sample_log_layout: "layout sample_log"
  by (simp add: sample_log_def levelDBLogBlockSize_def wf_block_def wf_chunk_def block_bytes_def
      physical_def trailer_def)

theorem levelDBLogicalRecords_roundtrip_witness:
  "levelDBLogicalRecords (log_bytes sample_log) = [''a'', replicate 32753 CHR ''b'' @ ''c'']"
  using levelDBLogicalRecords_roundtrip [of sample_log
      "[[(''crc0'', ''a'')], [(''crc1'', replicate 32753 CHR ''b''), (''crc2'', []), (''crc3'', ''c'')]]"]
  by (simp add: sample_log_layout) (simp add: sample_log_def readable_def numeral_3_eq_3)

text \<open>
  C39. An empty first part loses its record. A writer that has exactly seven bytes left in a block
  puts the header of an empty first part there and the rest of the record in the next block;
  LevelDB does this. The reader represents the part that has begun by a Go slice, and appending
  nothing to a nil slice leaves it nil, so it takes the following last part for a stray one:
  of the two records written here, with any second record, only the first is read.
\<close>

theorem empty_first_part_is_lost:
  "let first = replicate 32754 CHR ''x''; second = take 32761 s
   in levelDBLogicalRecords (log_bytes
        [([(''crc0'', 1, first), (''crc1'', 2, [])], []), ([(''crc2'', 4, second)], [])]) = [first]"
proof -
  let ?bs = "[([(''crc0'', 1, replicate 32754 CHR ''x''), (''crc1'', 2, [])], []),
    ([(''crc2'', 4, take 32761 s)], [])] :: (chunk list \<times> string) list"
  have "layout ?bs"
    by (simp add: levelDBLogBlockSize_def wf_block_def wf_chunk_def block_bytes_def physical_def
        trailer_def)
  then have "blocks_from (log_bytes ?bs) 0 ([], None) = fold take_chunk (concat (map fst ?bs)) ([], None)"
    by (rule blocks_from_layout) simp
  then show ?thesis
    by (simp only: levelDBLogicalRecords_def Let_def) simp
qed

end
