(* ===== verification/LevelDB_Wal.thy ===== *)
theory LevelDB_Wal
  imports LevelDB_Log Resume_Store
begin

text \<open>
  The newest mutations of a LevelDB database, \<open>readLatestWALMutations\<close> of \<open>auth.go\<close>: the write
  batches in the logical records of all its log files, of which the mutation with the highest
  sequence number counts for each key. A nil value stands for a deletion; an empty value is
  copied to a nil slice too. The positions in a record are Go's \<open>int\<close>, to which a varint is
  converted, so that its sum with a position wraps around and can leave the slice.
\<close>

text \<open>
  What the token reader is given by the operating system: the environment, the home directory,
  \<open>filepath.Abs\<close>, whether \<open>os.Stat\<close> finds a directory, \<open>filepath.Glob\<close>, \<open>os.ReadDir\<close> with the
  name of an entry and whether it is a directory or a regular file, and \<open>os.MkdirTemp\<close>. The
  last two fields are \<open>leveldb.OpenFile\<close> of the files in a directory, and \<open>Get\<close> of the database
  it opens.
\<close>

record 's host =
  getenv :: "string \<Rightarrow> string"
  home_dir :: "goerr + string"
  abs_path :: "string \<Rightarrow> goerr + string"
  is_dir :: "string \<Rightarrow> 's \<Rightarrow> bool"
  glob :: "string \<Rightarrow> 's \<Rightarrow> string list"
  read_dir :: "string \<Rightarrow> 's \<Rightarrow> goerr + (string \<times> bool \<times> bool) list"
  mkdir_temp :: "string \<Rightarrow> 's \<Rightarrow> goerr + string"
  db_open :: "string \<Rightarrow> (string \<rightharpoonup> string) \<Rightarrow> goerr + nat"
  db_get :: "nat \<Rightarrow> string \<Rightarrow> string option"

record levelDBMutation =
  lm_sequence :: "64 word"
  lm_value :: "string option"

type_synonym mutations = "string \<rightharpoonup> levelDBMutation"

section \<open>One batch\<close>

text \<open>
  A length and as many bytes: nothing when the varint or the bytes are cut off, and a panic when
  the slice expression is out of range.
\<close>

definition read_bytes :: "string \<Rightarrow> nat \<Rightarrow> goerr + (string \<times> nat) option" where
  "read_bytes record pos =
     (case readLevelDBVarint record pos of (n, next, found) \<Rightarrow>
        let stop = i64 (int next + sint n) in
        if \<not> found \<or> stop > int (length record) then Inr None
        else if stop < int next then Inl (Panic ''slice bounds out of range'')
        else Inr (Some (take (nat stop - next) (drop next record), nat stop)))"

definition keep_newest :: "string list \<Rightarrow> string \<times> levelDBMutation \<Rightarrow> mutations \<Rightarrow> mutations" where
  "keep_newest wanted = (\<lambda>(key, mutation) result.
     if key \<notin> set wanted then result
     else case result key of
       None \<Rightarrow> result(key \<mapsto> mutation)
     | Some previous \<Rightarrow>
         if lm_sequence mutation > lm_sequence previous then result(key \<mapsto> mutation) else result)"

lemma varint_from_pos: "varint_from bs v shift pos = (n, next, True) \<Longrightarrow> pos < next"
  by (induction bs v shift pos rule: varint_from.induct)
    (force simp: varint_from.simps Let_def split: if_splits)

lemma read_bytes_pos: "read_bytes record pos = Inr (Some (bs, stop)) \<Longrightarrow> pos < stop"
  by (auto simp: read_bytes_def readLevelDBVarint_def Let_def split: prod.splits if_splits
      dest!: varint_from_pos)

function batch_from ::
    "string list \<Rightarrow> string \<Rightarrow> 64 word \<Rightarrow> nat \<Rightarrow> nat \<Rightarrow> nat \<Rightarrow> mutations \<Rightarrow> goerr + mutations" where
  "batch_from wanted record sequence count index pos result =
     (if index < count \<and> pos < length record then
        (let op = record ! pos;
             mutate = (\<lambda>key value.
               keep_newest wanted (key, \<lparr>lm_sequence = sequence + of_nat index, lm_value = value\<rparr>) result)
         in case read_bytes record (pos + 1) of
              Inl e \<Rightarrow> Inl e
            | Inr None \<Rightarrow> Inr result
            | Inr (Some (key, p)) \<Rightarrow>
                if op = CHR 0x00 then
                  batch_from wanted record sequence count (index + 1) p (mutate key None)
                else if op = CHR 0x01 then
                  (case read_bytes record p of
                     Inl e \<Rightarrow> Inl e
                   | Inr None \<Rightarrow> Inr result
                   | Inr (Some (v, q)) \<Rightarrow>
                       batch_from wanted record sequence count (index + 1) q
                         (mutate key (if v = [] then None else Some v)))
                else Inr result)
      else Inr result)"
  by pat_completeness auto
termination
  by (relation "measure (\<lambda>(wanted, record, sequence, count, index, pos, result). count - index)") auto

declare batch_from.simps [simp del]

definition scan_record :: "string list \<Rightarrow> string \<Rightarrow> mutations \<Rightarrow> goerr + mutations" where
  "scan_record wanted record result =
     (if length record < 12 then Inr result
      else batch_from wanted record (of_nat (le_word (take 8 record)))
             (le_word (take 4 (drop 8 record))) 0 12 result)"

fun scan_records :: "string list \<Rightarrow> string list \<Rightarrow> mutations \<Rightarrow> goerr + mutations" where
  "scan_records wanted [] result = Inr result"
| "scan_records wanted (r # rs) result =
     (case scan_record wanted r result of Inl e \<Rightarrow> Inl e | Inr m \<Rightarrow> scan_records wanted rs m)"

section \<open>All log files\<close>

fun scan_files :: "'s env \<Rightarrow> string list \<Rightarrow> string list \<Rightarrow> mutations \<Rightarrow> ('s, mutations) act" where
  "scan_files E wanted [] result = ok result"
| "scan_files E wanted (path # paths) result =
     inspect (os_read E path) (\<lambda>r. case r of
       Inr (Some contents) \<Rightarrow>
         andThen (lift (scan_records wanted (levelDBLogicalRecords contents) result))
           (scan_files E wanted paths)
     | _ \<Rightarrow> scan_files E wanted paths result)"

definition readLatestWALMutations ::
    "'s host \<Rightarrow> 's env \<Rightarrow> string \<Rightarrow> string list \<Rightarrow> ('s, mutations) act" where
  "readLatestWALMutations H E dbPath keys =
     (\<lambda>w. scan_files E keys (sort (glob H (PathJoin dbPath ''*.log'') (ext w))) Map.empty w)"

text \<open>
  A length of \<open>2 ^ 64 - 1\<close> is converted to the \<open>int\<close> \<open>-1\<close>, passes the check and makes the slice
  expression panic.
\<close>

lemma huge_length_panics:
  "scan_record wanted (le_bytes 8 1 @ le_bytes 4 1 @ CHR 0x00 # varint_bytes (- 1)) result
     = Inl (Panic ''slice bounds out of range'')"
proof -
  let ?xs = "le_bytes 8 1 @ le_bytes 4 1 @ [CHR 0x00]"
  have pos: "length ?xs = 13" by simp
  have "unat (- 1 :: 64 word) < 2 ^ (64 - 0)" using unsigned_less [of "- 1 :: 64 word"] by simp
  then have v: "readLevelDBVarint (?xs @ varint_bytes (- 1)) 13 = (- 1, 13 + length (varint_bytes (- 1)), True)"
    unfolding readLevelDBVarint_def
    by (subst varint_from_bytes [of 13 _ "- 1" "[]"]) (simp_all add: pos)
  have n: "length (varint_bytes (- 1)) = 10" by code_simp
  show ?thesis
    using v unfolding n unfolding scan_record_def
    by (subst batch_from.simps)
      (simp add: le_word_bytes read_bytes_def Let_def nth_append in_i64_def n)
qed

section \<open>Batches of the format\<close>

text \<open>A batch: its sequence number and its operations, a key with a value or a deletion.\<close>

type_synonym batch = "64 word \<times> (string \<times> string option) list"

definition bytes_of :: "string \<Rightarrow> string" where
  "bytes_of bs = varint_bytes (of_nat (length bs)) @ bs"

definition op_bytes :: "string \<times> string option \<Rightarrow> string" where
  "op_bytes = (\<lambda>(key, value). case value of
     None \<Rightarrow> CHR 0x00 # bytes_of key
   | Some v \<Rightarrow> CHR 0x01 # bytes_of key @ bytes_of v)"

definition batch_bytes :: "batch \<Rightarrow> string" where
  "batch_bytes = (\<lambda>(sequence, ops).
     le_bytes 8 (unat sequence) @ le_bytes 4 (length ops) @ concat (map op_bytes ops))"

definition wf_batch :: "batch \<Rightarrow> bool" where
  "wf_batch b \<longleftrightarrow> length (snd b) < 2 ^ 32 \<and> length (batch_bytes b) < 2 ^ 62"

definition slice_value :: "string option \<Rightarrow> string option" where
  "slice_value v = (if v = Some [] then None else v)"

fun entries_from :: "64 word \<Rightarrow> nat \<Rightarrow> (string \<times> string option) list \<Rightarrow> (string \<times> levelDBMutation) list" where
  "entries_from sequence index [] = []"
| "entries_from sequence index ((key, value) # ops) =
     (key, \<lparr>lm_sequence = sequence + of_nat index, lm_value = slice_value value\<rparr>)
     # entries_from sequence (index + 1) ops"

definition entries :: "batch \<Rightarrow> (string \<times> levelDBMutation) list" where
  "entries b = entries_from (fst b) 0 (snd b)"

lemma read_bytes_bytes:
  assumes here: "drop pos record = bytes_of bs @ tail" and len: "length record < 2 ^ 62"
  shows "\<exists>stop. read_bytes record pos = Inr (Some (bs, stop)) \<and> drop stop record = tail"
proof -
  let ?u = "of_nat (length bs) :: 64 word"
  let ?next = "pos + length (varint_bytes ?u)"
  have bound: "length bs < 2 ^ 62"
    using arg_cong [OF here, of length] len by (simp add: bytes_of_def)
  then have u: "unat ?u = length bs" and s: "sint ?u = int (length bs)"
    by (simp_all add: unsigned_of_nat signed_of_nat take_bit_nat_eq_self signed_take_bit_int_eq_self)
  have "readLevelDBVarint record pos = (?u, ?next, True)"
    unfolding readLevelDBVarint_def
    using here u bound by (subst varint_from_bytes [of pos "record" ?u "bs @ tail"]) (simp_all add: bytes_of_def)
  moreover have rest: "drop ?next record = bs @ tail"
    using arg_cong [OF here, of "drop (length (varint_bytes ?u))"] by (simp add: bytes_of_def add.commute)
  moreover have "?next + length bs \<le> length record"
    using arg_cong [OF here, of length] by (cases "pos \<le> length record") (auto simp: bytes_of_def)
  moreover from this len have "in_i64 (int ?next + int (length bs))" by (simp add: in_i64_def)
  moreover have "drop (?next + length bs) record = tail"
    using arg_cong [OF rest, of "drop (length bs)"] by (simp add: add.commute)
  ultimately show ?thesis
    by (simp add: read_bytes_def s flip: of_nat_add)
qed

lemma batch_from_ops:
  assumes "drop pos record = concat (map op_bytes ops)" and "length record < 2 ^ 62"
    and "index + length ops = count"
  shows "batch_from wanted record sequence count index pos result =
    Inr (fold (keep_newest wanted) (entries_from sequence index ops) result)"
  using assms
proof (induction ops arbitrary: pos index result)
  case Nil
  then show ?case by (simp add: batch_from.simps)
next
  case (Cons op ops)
  obtain key val where op: "op = (key, val)" by (cases op)
  let ?rest = "concat (map op_bytes ops)"
  have idx: "index < count" "Suc index + length ops = count" using Cons.prems(3) by simp_all
  show ?case
  proof (cases val)
    case None
    with Cons.prems(1) have pos: "pos < length record" "record ! pos = CHR 0x00"
      and body: "drop (pos + 1) record = bytes_of key @ ?rest"
      by (auto simp: op op_bytes_def dest!: drop_Cons_nth)
    from read_bytes_bytes [OF body Cons.prems(2)] obtain p where
      p: "read_bytes record (pos + 1) = Inr (Some (key, p))" "drop p record = ?rest" by blast
    with None pos idx show ?thesis
      by (subst batch_from.simps) (simp add: op slice_value_def Cons.IH [OF p(2) Cons.prems(2) idx(2)])
  next
    case (Some v)
    with Cons.prems(1) have pos: "pos < length record" "record ! pos = CHR 0x01"
      and body: "drop (pos + 1) record = bytes_of key @ bytes_of v @ ?rest"
      by (auto simp: op op_bytes_def dest!: drop_Cons_nth)
    from read_bytes_bytes [OF body Cons.prems(2)] obtain p where
      p: "read_bytes record (pos + 1) = Inr (Some (key, p))" "drop p record = bytes_of v @ ?rest" by blast
    from read_bytes_bytes [OF this(2) Cons.prems(2)] obtain q where
      q: "read_bytes record p = Inr (Some (v, q))" "drop q record = ?rest" by blast
    with Some pos idx p show ?thesis
      by (subst batch_from.simps) (simp add: op slice_value_def Cons.IH [OF q(2) Cons.prems(2) idx(2)])
  qed
qed

lemma scan_record_batch:
  assumes "wf_batch b"
  shows "scan_record wanted (batch_bytes b) result = Inr (fold (keep_newest wanted) (entries b) result)"
proof -
  obtain sequence ops where b: "b = (sequence, ops)" by (cases b)
  let ?r = "batch_bytes b"
  have "unat sequence < 256 ^ 8" using unsigned_less [of sequence] by simp
  then have seq: "of_nat (le_word (take 8 ?r)) = sequence"
    by (simp add: b batch_bytes_def le_word_bytes)
  have "length ops < 256 ^ 4" using assms by (simp add: wf_batch_def b)
  then have count: "le_word (take 4 (drop 8 ?r)) = length ops"
    by (simp add: b batch_bytes_def le_word_bytes)
  have "drop 12 ?r = concat (map op_bytes ops)" by (simp add: b batch_bytes_def)
  moreover have "\<not> length ?r < 12" by (simp add: b batch_bytes_def)
  ultimately show ?thesis
    using assms unfolding scan_record_def seq count
    by (subst batch_from_ops) (simp_all add: wf_batch_def entries_def b)
qed

lemma scan_records_batches:
  "list_all wf_batch bs \<Longrightarrow> scan_records wanted (map batch_bytes bs) result =
     Inr (fold (keep_newest wanted) (concat (map entries bs)) result)"
  by (induction bs arbitrary: result) (simp_all add: scan_record_batch)

section \<open>The newest mutation\<close>

text \<open>
  \<open>newest wanted es m\<close>: for every wanted key that has an entry, \<open>m\<close> holds an entry of it with
  the highest sequence number, and nothing for the other keys.
\<close>

definition newest :: "string list \<Rightarrow> (string \<times> levelDBMutation) set \<Rightarrow> mutations \<Rightarrow> bool" where
  "newest wanted es m \<longleftrightarrow> (\<forall>key. case m key of
     None \<Rightarrow> key \<notin> set wanted \<or> key \<notin> fst ` es
   | Some x \<Rightarrow> key \<in> set wanted \<and> (key, x) \<in> es
       \<and> (\<forall>y. (key, y) \<in> es \<longrightarrow> lm_sequence y \<le> lm_sequence x))"

lemma newest_empty: "newest wanted {} Map.empty"
  by (simp add: newest_def)

lemma newest_keep:
  assumes "newest wanted es m" shows "newest wanted (insert x es) (keep_newest wanted x m)"
  unfolding newest_def
proof
  fix key
  obtain a b where x: "x = (a, b)" by (cases x)
  have old: "case m key of None \<Rightarrow> key \<notin> set wanted \<or> key \<notin> fst ` es
     | Some x \<Rightarrow> key \<in> set wanted \<and> (key, x) \<in> es \<and> (\<forall>y. (key, y) \<in> es \<longrightarrow> lm_sequence y \<le> lm_sequence x)"
    using assms by (simp add: newest_def)
  show "case keep_newest wanted x m key of None \<Rightarrow> key \<notin> set wanted \<or> key \<notin> fst ` insert x es
     | Some z \<Rightarrow> key \<in> set wanted \<and> (key, z) \<in> insert x es
         \<and> (\<forall>y. (key, y) \<in> insert x es \<longrightarrow> lm_sequence y \<le> lm_sequence z)"
  proof (cases "key = a \<and> a \<in> set wanted")
    case True
    then show ?thesis
      using old
      by (cases "m key") (force simp: x keep_newest_def)+
  next
    case False
    then show ?thesis
      using old
      by (cases "m a"; cases "m key") (auto simp: x keep_newest_def)
  qed
qed

lemma newest_fold: "newest wanted es m \<Longrightarrow> newest wanted (es \<union> set xs) (fold (keep_newest wanted) xs m)"
proof (induction xs arbitrary: es m)
  case (Cons x xs)
  from Cons.IH [OF newest_keep [OF Cons.prems]] show ?case by simp
qed simp

text \<open>A log file that holds the batches \<open>bs\<close>.\<close>

definition log_of :: "string \<Rightarrow> batch list \<Rightarrow> bool" where
  "log_of contents bs \<longleftrightarrow> (\<exists>blocks rs.
     contents = log_bytes blocks \<and> layout blocks
     \<and> concat (map fst blocks) = concat (map fragments rs) \<and> list_all readable rs
     \<and> map (\<lambda>ps. concat (map snd ps)) rs = map batch_bytes bs \<and> list_all wf_batch bs)"

lemma scan_log:
  "log_of contents bs \<Longrightarrow> scan_records wanted (levelDBLogicalRecords contents) m =
     Inr (fold (keep_newest wanted) (concat (map entries bs)) m)"
  by (auto simp: log_of_def log_records scan_records_batches)

lemma os_read_ok:
  "io_error E ''read'' p (ext w) = (None, ext w) \<Longrightarrow> os_read E p w = (Inr (files w p), w)"
  by (simp add: os_read_def andThen_def io_def on_disk_def)

lemma scan_files_newest:
  assumes reads: "\<forall>p s. io_error E ''read'' p s = (None, s)"
    and "\<forall>p \<in> set paths. \<exists>c. files w p = Some c \<and> log_of c (batches p)" and "newest wanted es m"
  shows "\<exists>res. scan_files E wanted paths m w = (Inr res, w)
    \<and> newest wanted (es \<union> (\<Union>p \<in> set paths. set (concat (map entries (batches p))))) res"
  using assms(2,3)
proof (induction paths arbitrary: es m)
  case (Cons p paths)
  from Cons.prems(1) obtain c where c: "files w p = Some c" "log_of c (batches p)" by auto
  let ?xs = "concat (map entries (batches p))"
  have "scan_files E wanted (p # paths) m w = scan_files E wanted paths (fold (keep_newest wanted) ?xs m) w"
    using reads c by (simp add: inspect_def andThen_def os_read_ok scan_log)
  moreover have "\<forall>p \<in> set paths. \<exists>c. files w p = Some c \<and> log_of c (batches p)"
    using Cons.prems(1) by simp
  ultimately show ?case
    using Cons.IH [OF _ newest_fold [OF Cons.prems(2), of ?xs]] by (simp add: Un_assoc)
qed simp


text \<open>A database directory with one log file, which holds one batch of three operations on a key.\<close>

definition sample_host :: "script host" where
  "sample_host =
     \<lparr>getenv = (\<lambda>v. []), home_dir = Inr ''/home/u'', abs_path = (\<lambda>p. Inr p), is_dir = (\<lambda>p s. True),
      glob = (\<lambda>pat s. [''/db/1.log'']), read_dir = (\<lambda>p s. Inr []), mkdir_temp = (\<lambda>p s. Inr ''/tmp/x''),
      db_open = (\<lambda>p m. Inl (Foreign ''no manifest'')), db_get = (\<lambda>db k. None)\<rparr>"

definition sample_batch :: batch where
  "sample_batch = (5, [(''k'', Some ''v''), (''k'', None), (''k'', Some ''w'')])"

definition one_batch_log :: "batch \<Rightarrow> string" where
  "one_batch_log b = log_bytes [([(''crc0'', 1, batch_bytes b)], [])]"

lemma one_batch_log:
  assumes "wf_batch b" and "length (batch_bytes b) \<le> 32761"
  shows "log_of (one_batch_log b) [b]"
  unfolding log_of_def one_batch_log_def
  using assms
  by (intro exI [of _ "[([(''crc0'', 1, batch_bytes b)], [])]"] exI [of _ "[[(''crc0'', batch_bytes b)]]"])
    (simp add: wf_block_def wf_chunk_def block_bytes_def physical_def trailer_def readable_def
      levelDBLogBlockSize_def)

lemma sample_batch: "wf_batch sample_batch" "length (batch_bytes sample_batch) \<le> 32761"
  by (simp_all add: sample_batch_def wf_batch_def batch_bytes_def op_bytes_def bytes_of_def
      varint_bytes.simps)


end
