(* ===== verification/Token_Providers.thy ===== *)
theory Token_Providers
  imports LevelDB_Wal
begin

text \<open>
  Access tokens, \<open>auth.go\<close>: the values of the desktop client's Local Storage and the token in
  them, the reader of that storage with its private snapshot, and the token providers, with the
  contract that the API client relies on as a locale and an interpretation for each of them.
\<close>

definition defaultLevelDBRelative :: string where
  "defaultLevelDBRelative = ''.config/AnyShare/Local Storage/leveldb''"

definition levelDBEnv :: string where
  "levelDBEnv = ''PKUDISK_PKUDIST_LEVELDB_DIR''"

definition tokenKey :: string where
  "tokenKey = ''_file://'' @ [CHR 0x00, CHR 0x01] @ ''oauth2Token''"

definition signedInKey :: string where
  "signedInKey = ''_file://'' @ [CHR 0x00, CHR 0x01] @ ''richClientIsSignin''"

section \<open>Values of the Local Storage\<close>

fun utf16_units :: "string \<Rightarrow> nat list" where
  "utf16_units (a # b # bs) = le_word [a, b] # utf16_units bs"
| "utf16_units bs = []"

text \<open>\<open>string(utf16.Decode(units))\<close>: an unpaired surrogate becomes U+FFFD.\<close>

fun utf16_decode :: "nat list \<Rightarrow> string" where
  "utf16_decode [] = []"
| "utf16_decode [u] = (if is_surrogate u then rune_error else utf8_rune u)"
| "utf16_decode (u # v # us) =
     (case surrogate_pair u v of
        Some n \<Rightarrow> utf8_rune n @ utf16_decode us
      | None \<Rightarrow> (if is_surrogate u then rune_error else utf8_rune u) @ utf16_decode (v # us))"

definition decodeLocalStorageString :: "string \<Rightarrow> goerr + string" where
  "decodeLocalStorageString raw =
     (case raw of
        [] \<Rightarrow> Inr []
      | b # encoded \<Rightarrow>
          if b = CHR 0x01 then Inr encoded
          else if b = CHR 0x00 then
            (if length encoded mod 2 \<noteq> 0 then Inl (ErrNew ''malformed UTF-16 Local Storage value'')
             else Inr (utf16_decode (utf16_units encoded)))
          else Inr raw)"

definition dec_access_token :: "string \<Rightarrow> json \<Rightarrow> string \<times> bool" where
  "dec_access_token old j =
     (case struct_entries j of
        None \<Rightarrow> (old, False)
      | Some kvs \<Rightarrow> dec_field ''access_token'' dec_str old kvs)"

definition parseAccessToken :: "string \<Rightarrow> goerr + string" where
  "parseAccessToken raw =
     (let bad = Inl (ErrNew ''pkudist OAuth token is malformed'')
      in case decodeLocalStorageString raw of
           Inl e \<Rightarrow> Inl (Errorf ''decode pkudist OAuth token: %w'' [] [] [e])
         | Inr s \<Rightarrow>
             (case json_parse s of
                None \<Rightarrow> bad
              | Some j \<Rightarrow>
                  (case dec_access_token [] j of
                     (t, True) \<Rightarrow> if t = [] then bad else Inr t
                   | (_, False) \<Rightarrow> bad)))"

section \<open>The snapshot\<close>

text \<open>\<open>filepath.Ext\<close>\<close>

definition Ext :: "string \<Rightarrow> string" where
  "Ext name =
     (let base = (case LastIndex CHR ''/'' name of None \<Rightarrow> name | Some i \<Rightarrow> drop (Suc i) name)
      in case LastIndex CHR ''.'' base of None \<Rightarrow> [] | Some i \<Rightarrow> drop i base)"

text \<open>The order of the copies: by name, the log files last.\<close>

definition snapshot_order :: "(string \<times> bool \<times> bool) list \<Rightarrow> (string \<times> bool \<times> bool) list" where
  "snapshot_order es =
     sort_key fst (filter (\<lambda>e. Ext (fst e) \<noteq> ''.log'') es)
     @ sort_key fst (filter (\<lambda>e. Ext (fst e) = ''.log'') es)"

definition copy_file :: "'s env \<Rightarrow> string \<Rightarrow> string \<Rightarrow> ('s, unit) act" where
  "copy_file E a b =
     andThen (io E ''open'' a) (\<lambda>_.
     andThen (on_disk (\<lambda>s m.
       (if m a = None then Inl (Foreign ''file does not exist'') else Inr (), s, m))) (\<lambda>_.
     inspect (andThen (io E ''create'' b) (\<lambda>_. on_disk (\<lambda>s m. (Inr (), s, m(b \<mapsto> []))))) (\<lambda>r. case r of
       Inl e \<Rightarrow> inspect (io E ''close'' a) (\<lambda>_. throw e)
     | Inr _ \<Rightarrow>
         inspect (andThen (io E ''copy'' b) (\<lambda>_. on_disk (\<lambda>s m. (Inr (), s, m(b := m a))))) (\<lambda>copyErr.
         inspect (io E ''close'' a) (\<lambda>inErr.
         inspect (io E ''close'' b) (\<lambda>outErr.
         andThen (lift copyErr) (\<lambda>_. andThen (lift inErr) (\<lambda>_. lift outErr))))))))"

fun copy_entries :: "'s env \<Rightarrow> string \<Rightarrow> string \<Rightarrow> (string \<times> bool \<times> bool) list \<Rightarrow> ('s, unit) act" where
  "copy_entries E src dst [] = ok ()"
| "copy_entries E src dst ((name, isDir, regular) # es) =
     (if isDir \<or> name = ''LOCK'' \<or> \<not> regular then copy_entries E src dst es
      else andThen (copy_file E (PathJoin src name) (PathJoin dst name)) (\<lambda>_. copy_entries E src dst es))"

definition copyLevelDBSnapshot :: "'s host \<Rightarrow> 's env \<Rightarrow> string \<Rightarrow> string \<Rightarrow> ('s, unit) act" where
  "copyLevelDBSnapshot H E src dst =
     (\<lambda>w. case read_dir H src (ext w) of
        Inl e \<Rightarrow> (Inl e, w)
      | Inr es \<Rightarrow> copy_entries E src dst (snapshot_order es) w)"

section \<open>The reader\<close>

definition not_signed_out :: "string \<Rightarrow> goerr option" where
  "not_signed_out raw =
     (case decodeLocalStorageString raw of
        Inl e \<Rightarrow> Some (Errorf ''decode pkudist sign-in state: %w'' [] [] [e])
      | Inr s \<Rightarrow>
          if EqualFold (TrimSpace s) ''false''
          then Some (ErrNew ''pkudist is currently signed out'') else None)"

definition wal_signed_in :: "mutations \<Rightarrow> goerr option" where
  "wal_signed_in wal =
     (case wal signedInKey of
        None \<Rightarrow> None
      | Some mutation \<Rightarrow>
          (case lm_value mutation of
             None \<Rightarrow> Some (ErrNew ''pkudist is currently signed out'')
           | Some v \<Rightarrow> not_signed_out v))"

text \<open>The part of the reader on the opened snapshot.\<close>

definition snapshot_token :: "'s host \<Rightarrow> nat \<Rightarrow> goerr + string" where
  "snapshot_token H db =
     (case (case db_get H db signedInKey of None \<Rightarrow> None | Some raw \<Rightarrow> not_signed_out raw) of
        Some e \<Rightarrow> Inl e
      | None \<Rightarrow>
          (case db_get H db tokenKey of
             None \<Rightarrow> Inl (ErrNew ''pkudist has no current OAuth token; sign in with the PKU Disk desktop client first'')
           | Some raw \<Rightarrow> parseAccessToken raw))"

definition open_snapshot :: "'s host \<Rightarrow> 's env \<Rightarrow> string \<Rightarrow> string \<Rightarrow> ('s, string) act" where
  "open_snapshot H E dbPath tmp =
     inspect (copyLevelDBSnapshot H E dbPath tmp) (\<lambda>r. case r of
       Inl e \<Rightarrow> throw (Errorf ''snapshot pkudist Local Storage: %w'' [] [] [e])
     | Inr _ \<Rightarrow> (\<lambda>w. case db_open H tmp (files w) of
         Inl e \<Rightarrow> (Inl (Errorf ''open pkudist Local Storage snapshot: %w'' [] [] [e]), w)
       | Inr db \<Rightarrow> (snapshot_token H db, w)))"

definition remove_all :: "'s env \<Rightarrow> string \<Rightarrow> ('s, unit) act" where
  "remove_all E dir =
     andThen (io E ''removeall'' dir) (\<lambda>_. on_disk (\<lambda>s m.
       (Inr (), s, \<lambda>p. if p = dir \<or> prefix (dir @ ''/'') p then None else m p)))"

definition read_snapshot :: "'s host \<Rightarrow> 's env \<Rightarrow> string \<Rightarrow> ('s, string) act" where
  "read_snapshot H E dbPath =
     (\<lambda>w. case mkdir_temp H ''rclone-pkudisk-leveldb-'' (ext w) of
        Inl e \<Rightarrow> (Inl (Errorf ''create LevelDB snapshot: %w'' [] [] [e]), w)
      | Inr tmp \<Rightarrow>
          inspect (open_snapshot H E dbPath tmp) (\<lambda>r. inspect (remove_all E tmp) (\<lambda>_. lift r)) w)"

definition readPkudistAccessToken :: "'s host \<Rightarrow> 's env \<Rightarrow> string \<Rightarrow> ('s, string) act" where
  "readPkudistAccessToken H E dbPath =
     (\<lambda>w. if \<not> is_dir H dbPath (ext w) then
        (Inl (Errorf ''pkudist Local Storage not found at %s; sign in with the PKU Disk desktop client first''
           [dbPath] [] []), w)
      else andThen (readLatestWALMutations H E dbPath [tokenKey, signedInKey]) (\<lambda>wal.
        andThen (check (wal_signed_in wal)) (\<lambda>_.
        case wal tokenKey of
          Some mutation \<Rightarrow>
            (case lm_value mutation of
               None \<Rightarrow> throw (ErrNew ''pkudist is currently signed out; OAuth token was removed'')
             | Some v \<Rightarrow> lift (parseAccessToken v))
        | None \<Rightarrow> read_snapshot H E dbPath)) w)"

section \<open>The providers\<close>

definition staticToken :: "string \<Rightarrow> bool \<Rightarrow> goerr + string" where
  "staticToken tok refresh = (if tok = [] then Inl (ErrNew ''empty PKU Disk access token'') else Inr tok)"

record pkudistTokenProvider =
  pt_levelDBPath :: string
  pt_token :: string

text \<open>The section of \<open>Token\<close> under the read lock, and the one under the write lock.\<close>

definition cached_token :: "pkudistTokenProvider \<Rightarrow> bool \<Rightarrow> string option" where
  "cached_token p refresh = (if \<not> refresh \<and> pt_token p \<noteq> [] then Some (pt_token p) else None)"

definition locked_token ::
    "'s host \<Rightarrow> 's env \<Rightarrow> pkudistTokenProvider \<Rightarrow> bool \<Rightarrow> ('s, string \<times> pkudistTokenProvider) act" where
  "locked_token H E p refresh =
     (if pt_token p \<noteq> [] \<and> \<not> refresh then ok (pt_token p, p)
      else andThen (readPkudistAccessToken H E (pt_levelDBPath p)) (\<lambda>tok.
        ok (tok, p\<lparr>pt_token := tok\<rparr>)))"

definition pkudistToken ::
    "'s host \<Rightarrow> 's env \<Rightarrow> pkudistTokenProvider \<Rightarrow> bool \<Rightarrow> ('s, string \<times> pkudistTokenProvider) act" where
  "pkudistToken H E p refresh =
     (case cached_token p refresh of Some tok \<Rightarrow> ok (tok, p) | None \<Rightarrow> locked_token H E p refresh)"

definition newPkudistTokenProvider :: "'s host \<Rightarrow> 's env \<Rightarrow> string \<Rightarrow> ('s, pkudistTokenProvider) act" where
  "newPkudistTokenProvider H E configured =
     (let path = (if configured = [] then getenv H levelDBEnv else configured)
      in andThen (lift (if path \<noteq> [] then Inr path
           else case home_dir H of
             Inl e \<Rightarrow> Inl (Errorf ''find home directory: %w'' [] [] [e])
           | Inr home \<Rightarrow> Inr (PathJoin home defaultLevelDBRelative))) (\<lambda>path.
         case abs_path H path of
           Inl e \<Rightarrow> throw (Errorf ''resolve pkudist LevelDB path: %w'' [] [] [e])
         | Inr path \<Rightarrow>
             andThen (pkudistToken H E \<lparr>pt_levelDBPath = path, pt_token = []\<rparr> True) (\<lambda>(tok, p). ok p)))"

section \<open>What the API client relies on\<close>

text \<open>
  A token is not empty; once a provider has handed out a token it hands out the same one until
  it is told to refresh, also after a refresh that failed.
\<close>

text \<open>A sequence of calls, and the token in force after their results.\<close>

fun serve :: "(bool \<Rightarrow> 't \<Rightarrow> (goerr + string) \<times> 't) \<Rightarrow> bool list \<Rightarrow> 't \<Rightarrow> (goerr + string) list \<times> 't" where
  "serve tok [] s = ([], s)"
| "serve tok (b # bs) s = (case tok b s of (r, s1) \<Rightarrow> (case serve tok bs s1 of (rs, s2) \<Rightarrow> (r # rs, s2)))"

definition last_token :: "string \<Rightarrow> (goerr + string) list \<Rightarrow> string" where
  "last_token t rs = foldl (\<lambda>t r. case r of Inl _ \<Rightarrow> t | Inr t' \<Rightarrow> t') t rs"

definition authorized :: "request \<Rightarrow> bool" where
  "authorized r \<longleftrightarrow> (\<exists>t. t \<noteq> [] \<and> (''Authorization'', ''Bearer '' @ t) \<in> set (headers r))"

locale token_provider =
  fixes tok :: "bool \<Rightarrow> 't \<Rightarrow> (goerr + string) \<times> 't"
  assumes token_nonempty: "tok b s = (Inr t, s') \<Longrightarrow> t \<noteq> []"
    and token_cached: "tok b s = (Inr t, s') \<Longrightarrow> tok False s' = (Inr t, s')"
    and failed_refresh_keeps: "tok False s = (Inr t, s) \<Longrightarrow> tok b s = (Inl e, s') \<Longrightarrow> tok False s' = (Inr t, s')"
begin

lemma current_kept:
  assumes "tok False s = (Inr t, s)" and "tok b s = (r, s')"
  shows "tok False s' = (Inr (case r of Inl e \<Rightarrow> t | Inr t' \<Rightarrow> t'), s')"
proof (cases r)
  case (Inl e)
  with failed_refresh_keeps [OF assms(1)] assms(2) show ?thesis by simp
next
  case (Inr t')
  with token_cached assms(2) show ?thesis by simp
qed

lemma served_current:
  assumes "tok False s = (Inr t, s)" and "serve tok bs s = (rs, s')"
  shows "tok False s' = (Inr (last_token t rs), s')"
  using assms
proof (induction bs arbitrary: s t rs)
  case (Cons b bs)
  obtain r s1 where r: "tok b s = (r, s1)" by (cases "tok b s")
  obtain rs1 where rs1: "serve tok bs s1 = (rs1, s')" "rs = r # rs1"
    using Cons.prems(2) r by (auto split: prod.splits)
  from Cons.IH [OF current_kept [OF Cons.prems(1) r] rs1(1)] rs1(2) show ?case
    by (cases r) (simp_all add: last_token_def)
qed (simp add: last_token_def)

lemma no_refresh:
  assumes "tok False s = (Inr t, s)"
  shows "serve tok (replicate n False) s = (replicate n (Inr t), s)"
  using assms by (induction n) simp_all

lemma bearer:
  assumes "token E = tok"
  shows "sends authorized (doWithClient E cl dl method ep body)"
proof -
  have "gives (\<lambda>t. t \<noteq> []) (get_token E b)" for b
    by (auto simp: gives_def get_token_def assms split: prod.splits dest: token_nonempty)
  then have exch: "sends authorized (exchange E cl dl method ep body b)" for b
    unfolding exchange_def
    by (intro sends_gives [OF sends_get_token] runs_rules) (auto simp: authorized_def api_request_def)
  show ?thesis
    unfolding doWithClient_unroll
    by (rule sends_andThen [OF exch])
      (auto intro!: sends_andThen [OF exch] split: prod.split option.split)
qed

end

definition static_provider :: "string \<Rightarrow> bool \<Rightarrow> 't \<Rightarrow> (goerr + string) \<times> 't" where
  "static_provider t b s = (staticToken t b, s)"

text \<open>The \<open>pkudistTokenProvider\<close> as an object: its fields are part of the state.\<close>

definition pkudist_provider ::
    "'s host \<Rightarrow> 's env \<Rightarrow> bool \<Rightarrow> pkudistTokenProvider \<times> 's world \<Rightarrow>
       (goerr + string) \<times> pkudistTokenProvider \<times> 's world" where
  "pkudist_provider H E b = (\<lambda>(p, w). case pkudistToken H E p b w of
     (Inl e, w') \<Rightarrow> (Inl e, p, w') | (Inr (t, p'), w') \<Rightarrow> (Inr t, p', w'))"

interpretation static: token_provider "static_provider t" for t
  by unfold_locales (auto simp: static_provider_def staticToken_def split: if_splits)

section \<open>What the reader returns\<close>

lemma parseAccessToken_nonempty: "parseAccessToken raw = Inr t \<Longrightarrow> t \<noteq> []"
  by (auto simp: parseAccessToken_def Let_def split: sum.splits option.splits prod.splits bool.splits if_splits)

lemma snapshot_token_nonempty: "snapshot_token H db = Inr t \<Longrightarrow> t \<noteq> []"
  by (auto simp: snapshot_token_def dest: parseAccessToken_nonempty split: option.splits)

lemma gives_read_snapshot: "gives (\<lambda>t. \<exists>db. snapshot_token H db = Inr t) (read_snapshot H E dbPath)"
proof -
  have "gives (\<lambda>t. \<exists>db. snapshot_token H db = Inr t) (open_snapshot H E dbPath tmp)" for tmp
    unfolding open_snapshot_def
    by (intro gives_inspected) (auto simp: gives_def split: sum.splits)
  then have "gives (\<lambda>t. \<exists>db. snapshot_token H db = Inr t)
      (inspect (open_snapshot H E dbPath tmp) (\<lambda>r. inspect (remove_all E tmp) (\<lambda>_. lift r)))" for tmp
    by (rule gives_inspect) (auto intro!: gives_inspected gives_lift)
  then show ?thesis
    unfolding gives_def read_snapshot_def by (auto split: sum.splits)
qed

lemma reader_cases:
  assumes "readPkudistAccessToken H E dir w = (Inr t, w')"
  obtains wal w1 where "is_dir H dir (ext w)"
    and "readLatestWALMutations H E dir [tokenKey, signedInKey] w = (Inr wal, w1)"
    and "wal_signed_in wal = None"
    and "(case wal tokenKey of
        Some m \<Rightarrow> \<exists>v. lm_value m = Some v \<and> parseAccessToken v = Inr t \<and> w' = w1
      | None \<Rightarrow> read_snapshot H E dir w1 = (Inr t, w') \<and> (\<exists>db. snapshot_token H db = Inr t))"
proof -
  from assms have d: "is_dir H dir (ext w)"
    by (simp add: readPkudistAccessToken_def split: if_splits)
  obtain r w1 where wal: "readLatestWALMutations H E dir [tokenKey, signedInKey] w = (r, w1)"
    by (cases "readLatestWALMutations H E dir [tokenKey, signedInKey] w")
  with assms d obtain m where m: "r = Inr m"
    by (cases r) (simp_all add: readPkudistAccessToken_def andThen_def)
  with assms d wal have ok: "wal_signed_in m = None"
    by (cases "wal_signed_in m") (simp_all add: readPkudistAccessToken_def andThen_def check_def)
  with assms d wal m have "(case m tokenKey of
        Some m \<Rightarrow> \<exists>v. lm_value m = Some v \<and> parseAccessToken v = Inr t \<and> w' = w1
      | None \<Rightarrow> read_snapshot H E dir w1 = (Inr t, w'))"
    by (cases "m tokenKey")
      (auto simp: readPkudistAccessToken_def andThen_def check_def split: option.splits)
  then have "(case m tokenKey of
        Some m \<Rightarrow> \<exists>v. lm_value m = Some v \<and> parseAccessToken v = Inr t \<and> w' = w1
      | None \<Rightarrow> read_snapshot H E dir w1 = (Inr t, w') \<and> (\<exists>db. snapshot_token H db = Inr t))"
    using gives_read_snapshot [THEN givesD] by (cases "m tokenKey") auto
  with that [OF d] wal m ok show ?thesis by blast
qed

lemma reader_nonempty: "readPkudistAccessToken H E dir w = (Inr t, w') \<Longrightarrow> t \<noteq> []"
  by (erule reader_cases)
    (auto split: option.splits dest: parseAccessToken_nonempty snapshot_token_nonempty)

lemma pkudistToken_Inr:
  "pkudistToken H E p b w = (Inr (t, p'), w') \<Longrightarrow> t \<noteq> [] \<and> pt_token p' = t"
  by (auto simp: pkudistToken_def cached_token_def locked_token_def andThen_def
      split: if_splits prod.splits sum.splits dest: reader_nonempty)

lemma pkudistToken_cached: "pt_token p = t \<Longrightarrow> t \<noteq> [] \<Longrightarrow> pkudistToken H E p False w = (Inr (t, p), w)"
  by (simp add: pkudistToken_def cached_token_def)

lemma provider_Inr:
  "pkudist_provider H E b (p, w) = (Inr t, s') \<longleftrightarrow>
     (\<exists>p' w'. s' = (p', w') \<and> pkudistToken H E p b w = (Inr (t, p'), w'))"
  by (auto simp: pkudist_provider_def split: prod.splits sum.splits)

lemma provider_Inl: "pkudist_provider H E b (p, w) = (Inl e, s') \<Longrightarrow> \<exists>w'. s' = (p, w')"
  by (auto simp: pkudist_provider_def split: prod.splits sum.splits)

interpretation pkudist: token_provider "pkudist_provider H E" for H E
proof unfold_locales
  fix b s t s'
  assume served: "pkudist_provider H E b s = (Inr t, s')"
  obtain p w where s: "s = (p, w)" by (cases s)
  from served s obtain p' w' where s': "s' = (p', w')" and "pkudistToken H E p b w = (Inr (t, p'), w')"
    by (auto simp: provider_Inr)
  from pkudistToken_Inr [OF this(2)] show "t \<noteq> []" and "pkudist_provider H E False s' = (Inr t, s')"
    by (simp_all add: s' provider_Inr pkudistToken_cached)
next
  fix s t b e s'
  assume served: "pkudist_provider H E False s = (Inr t, s)" and "pkudist_provider H E b s = (Inl e, s')"
  then obtain p w w' where s: "s = (p, w)" "s' = (p, w')" by (cases s) (auto dest: provider_Inl)
  with served have "pkudistToken H E p False w = (Inr (t, p), w)" by (simp add: provider_Inr)
  from pkudistToken_Inr [OF this] show "pkudist_provider H E False s' = (Inr t, s')"
    by (simp add: s provider_Inr pkudistToken_cached)
qed

section \<open>The properties\<close>

text \<open>
  C33. A token is served until it is replaced. Once the provider of the desktop client's token
  has handed out a token, it is not empty, every later call without refresh returns it and
  reads nothing, and after any sequence of calls, refreshing or not, successful or not, the
  token in force is the last one handed out. Whatever the service does, every request of the
  API client with this provider carries a bearer token that is not empty.
\<close>

theorem pkudist_tokens_served:
  assumes "pkudist_provider H E b s = (Inr t, s')"
  shows "t \<noteq> []
    \<and> serve (pkudist_provider H E) (replicate n False) s' = (replicate n (Inr t), s')
    \<and> (\<forall>bs rs s2. serve (pkudist_provider H E) bs s' = (rs, s2) \<longrightarrow>
         pkudist_provider H E False s2 = (Inr (last_token t rs), s2))
    \<and> sends authorized (doWithClient (E'\<lparr>token := pkudist_provider H E\<rparr>) cl dl method ep body)"
proof (intro conjI allI impI)
  note current = pkudist.token_cached [OF assms]
  show "t \<noteq> []" using assms by (rule pkudist.token_nonempty)
  show "serve (pkudist_provider H E) (replicate n False) s' = (replicate n (Inr t), s')"
    using current by (rule pkudist.no_refresh)
  show "pkudist_provider H E False s2 = (Inr (last_token t rs), s2)"
    if "serve (pkudist_provider H E) bs s' = (rs, s2)" for bs rs s2
    using current that by (rule pkudist.served_current)
  show "sends authorized (doWithClient (E'\<lparr>token := pkudist_provider H E\<rparr>) cl dl method ep body)"
    by (rule pkudist.bearer) simp
qed

text \<open>
  C16. A token is never older than the log. When \<open>readPkudistAccessToken\<close> succeeds, the newest
  mutations of the log were read, and the log does not say that the user is signed out; if the
  log has a newest mutation of the token, it is not a deletion and the result is the token in
  it, and the snapshot is consulted only when the log has none, and then it does not say that
  the user is signed out either. The result is never empty.
\<close>

theorem readPkudistAccessToken_not_stale:
  assumes "readPkudistAccessToken H E dir w = (Inr t, w')"
  shows "t \<noteq> [] \<and> (\<exists>wal w1.
    readLatestWALMutations H E dir [tokenKey, signedInKey] w = (Inr wal, w1)
    \<and> (\<forall>m. wal signedInKey = Some m \<longrightarrow> (\<exists>v s. lm_value m = Some v
         \<and> decodeLocalStorageString v = Inr s \<and> \<not> EqualFold (TrimSpace s) ''false''))
    \<and> (\<forall>m. wal tokenKey = Some m \<longrightarrow> (\<exists>v. lm_value m = Some v \<and> parseAccessToken v = Inr t))
    \<and> (wal tokenKey = None \<longrightarrow> (\<exists>db raw. db_get H db tokenKey = Some raw \<and> parseAccessToken raw = Inr t
         \<and> (\<forall>raw. db_get H db signedInKey = Some raw \<longrightarrow> not_signed_out raw = None))))"
proof -
  from assms obtain wal w1 where wal: "readLatestWALMutations H E dir [tokenKey, signedInKey] w = (Inr wal, w1)"
    and signed: "wal_signed_in wal = None"
    and tok: "(case wal tokenKey of
        Some m \<Rightarrow> \<exists>v. lm_value m = Some v \<and> parseAccessToken v = Inr t \<and> w' = w1
      | None \<Rightarrow> read_snapshot H E dir w1 = (Inr t, w') \<and> (\<exists>db. snapshot_token H db = Inr t))"
    by (rule reader_cases)
  have "\<exists>v s. lm_value m = Some v \<and> decodeLocalStorageString v = Inr s \<and> \<not> EqualFold (TrimSpace s) ''false''"
    if "wal signedInKey = Some m" for m
    using signed that
    by (auto simp: wal_signed_in_def not_signed_out_def split: option.splits sum.splits if_splits)
  moreover have "\<exists>db raw. db_get H db tokenKey = Some raw \<and> parseAccessToken raw = Inr t
      \<and> (\<forall>raw. db_get H db signedInKey = Some raw \<longrightarrow> not_signed_out raw = None)"
    if "wal tokenKey = None"
  proof -
    from tok that obtain db where "snapshot_token H db = Inr t" by auto
    then show ?thesis by (intro exI [of _ db]) (auto simp: snapshot_token_def split: option.splits)
  qed
  ultimately show ?thesis
    using wal tok reader_nonempty [OF assms] by auto
qed

text \<open>The Local Storage of a user who is signed in.\<close>

definition signed_in_batch :: batch where
  "signed_in_batch =
     (1, [(signedInKey, Some (CHR 0x01 # ''true'')),
          (tokenKey, Some (CHR 0x01 # ''{'' @ [CHR 0x22] @ ''access_token'' @ [CHR 0x22] @ '':'' @ [CHR 0x22] @ ''T'' @ [CHR 0x22] @ ''}''))])"

definition signed_in_world :: "script world" where
  "signed_in_world = (start_world [])\<lparr>files := [''/db/1.log'' \<mapsto> one_batch_log signed_in_batch]\<rparr>"

lemma signed_in_batch: "wf_batch signed_in_batch" "length (batch_bytes signed_in_batch) \<le> 32761"
  by (simp_all add: signed_in_batch_def wf_batch_def batch_bytes_def op_bytes_def bytes_of_def
      varint_bytes.simps tokenKey_def signedInKey_def)

lemma signed_in_mutations:
  "readLatestWALMutations sample_host sample_env dir [tokenKey, signedInKey] signed_in_world =
    (Inr [signedInKey \<mapsto> \<lparr>lm_sequence = 1, lm_value = snd (snd signed_in_batch ! 0)\<rparr>,
          tokenKey \<mapsto> \<lparr>lm_sequence = 2, lm_value = snd (snd signed_in_batch ! 1)\<rparr>], signed_in_world)"
  using scan_log [OF one_batch_log [OF signed_in_batch]]
  by (simp add: readLatestWALMutations_def sample_host_def os_read_ok inspect_def andThen_def
      signed_in_world_def entries_def)
    (simp add: signed_in_batch_def keep_newest_def tokenKey_def signedInKey_def slice_value_def)

lemma signed_in_values:
  "wal_signed_in [signedInKey \<mapsto> \<lparr>lm_sequence = 1, lm_value = snd (snd signed_in_batch ! 0)\<rparr>,
     tokenKey \<mapsto> \<lparr>lm_sequence = 2, lm_value = snd (snd signed_in_batch ! 1)\<rparr>] = None"
  "map_option parseAccessToken (snd (snd signed_in_batch ! 1)) = Some (Inr ''T'')"
  by code_simp+

lemma signed_in_reads:
  "readPkudistAccessToken sample_host sample_env dir signed_in_world = (Inr ''T'', signed_in_world)"
  using signed_in_values
  by (auto simp: readPkudistAccessToken_def signed_in_mutations andThen_def check_def)
    (simp_all add: sample_host_def)

theorem readPkudistAccessToken_not_stale_witness:
  "\<exists>wal w1 m v. readPkudistAccessToken sample_host sample_env ''/db'' signed_in_world = (Inr ''T'', signed_in_world)
    \<and> readLatestWALMutations sample_host sample_env ''/db'' [tokenKey, signedInKey] signed_in_world = (Inr wal, w1)
    \<and> wal tokenKey = Some m \<and> lm_value m = Some v \<and> parseAccessToken v = Inr ''T''"
  using readPkudistAccessToken_not_stale [OF signed_in_reads [of "''/db''"]] signed_in_reads [of "''/db''"]
    signed_in_mutations [of "''/db''"]
  by fastforce

theorem pkudist_tokens_served_witness:
  "\<exists>s'. pkudist_provider sample_host sample_env True (\<lparr>pt_levelDBPath = ''/db'', pt_token = []\<rparr>, signed_in_world)
      = (Inr ''T'', s')
    \<and> serve (pkudist_provider sample_host sample_env) [False, False] s' = ([Inr ''T'', Inr ''T''], s')"
proof -
  let ?p = "\<lparr>pt_levelDBPath = ''/db'', pt_token = []\<rparr>"
  have "pkudistToken sample_host sample_env ?p True signed_in_world
      = (Inr (''T'', ?p\<lparr>pt_token := ''T''\<rparr>), signed_in_world)"
    by (simp add: pkudistToken_def cached_token_def locked_token_def andThen_def signed_in_reads)
  then have run: "pkudist_provider sample_host sample_env True (?p, signed_in_world)
      = (Inr ''T'', ?p\<lparr>pt_token := ''T''\<rparr>, signed_in_world)"
    by (simp only: provider_Inr) simp
  from pkudist_tokens_served [OF this, of 2] run show ?thesis
    by (simp add: numeral_2_eq_2)
qed

section \<open>Reading the storage sends nothing\<close>

lemma sends_world: "(\<And>w. sends P (g w)) \<Longrightarrow> sends P (\<lambda>w. g w w)"
  by (simp add: sends_def runs_def)

lemma sends_pair: "sends P (\<lambda>w. (f w, w))"
  by (simp add: sends_def runs_def)

lemma sends_case_sum:
  "(\<And>e. sends P (\<lambda>w. (f e w, w))) \<Longrightarrow> (\<And>x. sends P (g x)) \<Longrightarrow>
     sends P (\<lambda>w. case h w of Inl e \<Rightarrow> (f e w, w) | Inr x \<Rightarrow> g x w)"
  by (simp add: sends_def runs_def split: sum.split)

lemma scan_files_sends [runs_rules]: "sends P (scan_files E wanted paths m)"
  by (induction E wanted paths m rule: scan_files.induct)
    (simp_all only: scan_files.simps sends_ok, auto intro!: runs_rules split: option.split)

lemma copy_entries_sends [runs_rules]: "sends P (copy_entries E src dst es)"
proof (induction E src dst es rule: copy_entries.induct)
  case (2 E src dst name isDir regular es)
  have "sends P (copy_file E a b)" for a b
    unfolding copy_file_def by (intro runs_rules)
  with 2 show ?case by (auto intro!: runs_rules)
qed (simp only: copy_entries.simps sends_ok)

lemma read_snapshot_sends: "sends P (read_snapshot H E dir)"
proof -
  have "sends P (copyLevelDBSnapshot H E a b)" for a b
    unfolding copyLevelDBSnapshot_def by (intro sends_case_sum sends_pair runs_rules)
  then have "sends P (open_snapshot H E dir tmp)" for tmp
    unfolding open_snapshot_def by (intro runs_rules sends_case_sum sends_pair)
  then show ?thesis
    unfolding read_snapshot_def remove_all_def
    by (intro sends_case_sum sends_pair runs_rules)
qed

lemma reader_sends [runs_rules]: "sends P (readPkudistAccessToken H E dir)"
proof -
  have "sends P (readLatestWALMutations H E dir keys)" for keys
    unfolding readLatestWALMutations_def
    using sends_world [of P "\<lambda>w. scan_files E keys (sort (glob H (PathJoin dir ''*.log'') (ext w))) Map.empty"]
    by (simp add: scan_files_sends)
  then have "sends P (andThen (readLatestWALMutations H E dir [tokenKey, signedInKey]) (\<lambda>wal.
        andThen (check (wal_signed_in wal)) (\<lambda>_.
        case wal tokenKey of
          Some mutation \<Rightarrow>
            (case lm_value mutation of
               None \<Rightarrow> throw (ErrNew ''pkudist is currently signed out; OAuth token was removed'')
             | Some v \<Rightarrow> lift (parseAccessToken v))
        | None \<Rightarrow> read_snapshot H E dir)))"
    by (intro runs_rules read_snapshot_sends)
  then show ?thesis
    unfolding readPkudistAccessToken_def sends_def runs_def by simp
qed

lemma newPkudistTokenProvider_sends [runs_rules]: "sends P (newPkudistTokenProvider H E configured)"
  unfolding newPkudistTokenProvider_def pkudistToken_def locked_token_def Let_def
  by (intro runs_rules)

end
