(* ===== verification/OAuth_Config.thy ===== *)
theory OAuth_Config
  imports Token_Providers
begin

text \<open>
  OAuth, \<open>oauth.go\<close>: the token provider over rclone's token source, the configuration dialogue
  of \<open>rclone config\<close>, and the registration of a client with the service. The configuration of a
  remote is a map from names to values, in which a missing value is empty.
\<close>

definition oauthScope :: string where
  "oauthScope = ''offline openid all''"

text \<open>\<open>strings.Fields\<close> of a text whose white space is blanks.\<close>

definition Fields :: "string \<Rightarrow> string list" where
  "Fields s = filter (\<lambda>x. x \<noteq> []) (Split CHR '' '' s)"

type_synonym configmap = "string \<Rightarrow> string"

record oauthConfig =
  oc_ClientID :: string
  oc_ClientSecret :: string
  oc_AuthURL :: string
  oc_TokenURL :: string
  oc_Scopes :: "string list"
  oc_RedirectURL :: string

record oauthOptions =
  oo_Config :: oauthConfig
  oo_NoOffline :: bool
  oo_AuthParams :: "(string \<times> string) list"

text \<open>
  What the code is given: \<open>oauthutil.RedirectURL\<close>, the error and the bytes of \<open>rand.Read\<close>, and
  the operations of an \<open>oauthutil.TokenSource\<close>, \<open>Expire\<close> and the access token of \<open>Token\<close>.
\<close>

record 's oauth_env =
  redirect_url :: string
  rand_error :: "'s \<Rightarrow> goerr option"
  rand_byte :: "'s \<Rightarrow> nat \<Rightarrow> char"
  source_expire :: "'s \<Rightarrow> goerr option \<times> 's"
  source_token :: "'s \<Rightarrow> (goerr + string) \<times> 's"

section \<open>The provider\<close>

text \<open>The whole call is under \<open>oauthTokenMu\<close>, so that calls of all sources follow each other.\<close>

definition oauthToken :: "'s oauth_env \<Rightarrow> bool \<Rightarrow> 's \<Rightarrow> (goerr + string) \<times> 's" where
  "oauthToken Q refresh s =
     (case (if refresh then source_expire Q s else (None, s)) of
        (Some e, s') \<Rightarrow> (Inl e, s')
      | (None, s') \<Rightarrow> source_token Q s')"

section \<open>Configuration\<close>

definition buildOAuthConfig :: "'s oauth_env \<Rightarrow> configmap \<Rightarrow> string \<Rightarrow> string \<Rightarrow> oauthConfig" where
  "buildOAuthConfig Q m clientID clientSecret =
     (let baseURL = TrimRight CHR ''/'' (if m ''base_url'' = [] then defaultBaseURL else m ''base_url'')
      in \<lparr>oc_ClientID = clientID, oc_ClientSecret = clientSecret,
          oc_AuthURL = baseURL @ ''/oauth2/auth'', oc_TokenURL = baseURL @ ''/oauth2/token'',
          oc_Scopes = Fields oauthScope, oc_RedirectURL = redirect_url Q\<rparr>)"

definition hex_encode :: "string \<Rightarrow> string" where
  "hex_encode bs =
     concat (map (\<lambda>b. let n = of_char b :: nat
                      in [''0123456789abcdef'' ! (n div 16), ''0123456789abcdef'' ! (n mod 16)]) bs)"

definition registration_payload :: "'s oauth_env \<Rightarrow> json" where
  "registration_payload Q =
     JObj [(''client_name'', JStr ''rclone-pkudisk''),
       (''grant_types'', JArr [JStr ''authorization_code'', JStr ''refresh_token'', JStr ''implicit'']),
       (''login_form'', JObj [(''remember_password_visible'', JBool False)]),
       (''metadata'', JObj [(''device'', JObj [(''client_type'', JStr ''linux''),
          (''description'', JStr ''rclone backend for Peking University PKU Disk''),
          (''name'', JStr ''rclone-pkudisk'')])]),
       (''post_logout_redirect_uris'', JArr [JStr ''http://127.0.0.1:53682/logout/callback'']),
       (''redirect_uris'', JArr [JStr (redirect_url Q)]),
       (''response_types'', JArr [JStr ''token id_token'', JStr ''code'', JStr ''token'']),
       (''scope'', JStr oauthScope)]"

definition dec_registration :: "string \<times> string \<Rightarrow> json \<Rightarrow> (string \<times> string) \<times> bool" where
  "dec_registration old j =
     (case struct_entries j of
        None \<Rightarrow> (old, False)
      | Some kvs \<Rightarrow>
          (case dec_field ''client_id'' dec_str (fst old) kvs of (a, ok1) \<Rightarrow>
             case dec_field ''client_secret'' dec_str (snd old) kvs of (b, ok2) \<Rightarrow>
               ((a, b), ok1 \<and> ok2)))"

text \<open>\<open>json.NewDecoder(body).Decode\<close>: the first value of the body; what follows is not read.\<close>

definition json_decode_first :: "string \<Rightarrow> json option" where
  "json_decode_first s = map_option fst (parse_value (2 * length s + 2) s)"

definition registration_result :: "string \<Rightarrow> response \<Rightarrow> goerr + string \<times> string \<times> string" where
  "registration_result udid resp =
     (let bad = Inl (Errorf ''decode PKU Disk OAuth registration: %w'' [] [] [Foreign ''json''])
      in if resp_status resp < 200 \<or> resp_status resp \<ge> 300 then
           Inl (Errorf ''register PKU Disk OAuth client: HTTP %d'' [FormatInt (resp_status resp)] [] [])
         else (case json_decode_first (resp_body resp) of
                 None \<Rightarrow> bad
               | Some j \<Rightarrow>
                   (case dec_registration ([], []) j of
                      (_, False) \<Rightarrow> bad
                    | ((i, s), True) \<Rightarrow>
                        if i = [] \<or> s = []
                        then Inl (ErrNew ''PKU Disk OAuth registration returned no client credentials'')
                        else Inr (i, s, udid))))"

definition registration_request :: "'s oauth_env \<Rightarrow> string \<Rightarrow> request" where
  "registration_request Q baseURL =
     \<lparr>via = RegistrationHTTP, deadline = None, verb = ''POST'', url = baseURL @ ''/oauth2/clients'',
      headers = [(''Content-Type'', ''application/json'')], payload = JsonBody (registration_payload Q)\<rparr>"

definition registerOAuthClient ::
    "'s oauth_env \<Rightarrow> 's env \<Rightarrow> string \<Rightarrow> ('s, string \<times> string \<times> string) act" where
  "registerOAuthClient Q E base =
     (let baseURL = TrimRight CHR ''/'' (TrimSpace base)
      in if baseURL = [] then throw (ErrNew ''empty PKU Disk OAuth base URL'')
         else (\<lambda>w. case rand_error Q (ext w) of
           Some e \<Rightarrow> (Inl (Errorf ''create OAuth device id: %w'' [] [] [e]), w)
         | None \<Rightarrow>
             (let udid = hex_encode (map (rand_byte Q (ext w)) [0..<16]) in
              andThen (check (request_error E ''POST'' (baseURL @ ''/oauth2/clients''))) (\<lambda>_.
              inspect (perform E (registration_request Q baseURL)) (\<lambda>r. case r of
                Inl e \<Rightarrow> throw (Errorf ''register PKU Disk OAuth client: %w'' [] [] [e])
              | Inr resp \<Rightarrow> lift (registration_result udid resp))) w)))"

text \<open>
  \<open>configureOAuth\<close>: what the dialogue is told to do next, if anything, and the configuration
  after it.
\<close>

definition authorization_options :: "'s oauth_env \<Rightarrow> configmap \<Rightarrow> string \<Rightarrow> string \<Rightarrow> string \<Rightarrow> oauthOptions" where
  "authorization_options Q m clientID clientSecret udid =
     \<lparr>oo_Config = buildOAuthConfig Q m clientID clientSecret, oo_NoOffline = True,
      oo_AuthParams = [(''audience'', []), (''lang'', ''zh-cn''), (''udids'', udid)]\<rparr>"

definition client_credentials ::
    "'s oauth_env \<Rightarrow> 's env \<Rightarrow> configmap \<Rightarrow> ('s, configmap \<times> string \<times> string \<times> string) act" where
  "client_credentials Q E m =
     (let i = m ''oauth_client_id''; s = m ''oauth_client_secret''; u = m ''oauth_udid''
      in if i = [] \<or> s = [] \<or> u = [] then
           andThen (registerOAuthClient Q E (if m ''base_url'' = [] then defaultBaseURL else m ''base_url''))
             (\<lambda>(i, s, u). ok (m(''oauth_client_id'' := i, ''oauth_client_secret'' := s, ''oauth_udid'' := u), i, s, u))
         else ok (m, i, s, u))"

definition configureOAuth ::
    "'s oauth_env \<Rightarrow> 's env \<Rightarrow> configmap \<Rightarrow> string \<Rightarrow>
       ('s, configmap \<times> (string \<times> oauthOptions) option) act" where
  "configureOAuth Q E m st =
     (if m ''auth'' \<noteq> [] \<and> \<not> EqualFold (m ''auth'') ''oauth'' then ok (m, None)
      else if st = [] then
        andThen (client_credentials Q E m) (\<lambda>(m', i, s, u).
          ok (m', Some (''oauth-done'', authorization_options Q m' i s u)))
      else if st = ''oauth-done'' then ok (m, None)
      else throw (Errorf ''unknown PKU Disk OAuth config state %q'' [st] [] []))"

section \<open>What the dialogue hands out\<close>

lemma length_hex_encode: "length (hex_encode bs) = 2 * length bs"
  by (induction bs) (simp_all add: hex_encode_def Let_def)

lemma registration_result_Inr:
  "registration_result udid resp = Inr (i, s, u) \<Longrightarrow> i \<noteq> [] \<and> s \<noteq> [] \<and> u = udid"
  by (auto simp: registration_result_def Let_def split: if_splits option.splits prod.splits bool.splits)

lemma registerOAuthClient_Inr:
  assumes "registerOAuthClient Q E base w = (Inr (i, s, u), w')"
  shows "i \<noteq> [] \<and> s \<noteq> [] \<and> length u = 32
    \<and> sent w' = sent w @ [registration_request Q (TrimRight CHR ''/'' (TrimSpace base))]"
proof -
  let ?u = "hex_encode (map (rand_byte Q (ext w)) [0..<16])"
  from assms obtain resp where "registration_result ?u resp = Inr (i, s, u)"
    and "sent w' = sent w @ [registration_request Q (TrimRight CHR ''/'' (TrimSpace base))]"
    by (auto simp: registerOAuthClient_def Let_def andThen_def inspect_def perform_def check_def
        split: if_splits option.splits prod.splits sum.splits)
  with registration_result_Inr [OF this(1)] show ?thesis by (simp add: length_hex_encode)
qed

definition credentials_set :: "configmap \<Rightarrow> bool" where
  "credentials_set m \<longleftrightarrow>
     m ''oauth_client_id'' \<noteq> [] \<and> m ''oauth_client_secret'' \<noteq> [] \<and> m ''oauth_udid'' \<noteq> []"

lemma client_credentials_Inr:
  assumes "client_credentials Q E m w = (Inr (m', i, s, u), w')"
  shows "credentials_set m' \<and> i = m' ''oauth_client_id'' \<and> s = m' ''oauth_client_secret''
    \<and> u = m' ''oauth_udid''
    \<and> (\<forall>k. k \<notin> {''oauth_client_id'', ''oauth_client_secret'', ''oauth_udid''} \<longrightarrow> m' k = m k)
    \<and> (if credentials_set m then m' = m \<and> sent w' = sent w
       else sent w' = sent w @ [registration_request Q (TrimRight CHR ''/'' (TrimSpace
              (if m ''base_url'' = [] then defaultBaseURL else m ''base_url'')))])"
proof (cases "credentials_set m")
  case True
  with assms show ?thesis by (auto simp: client_credentials_def credentials_set_def)
next
  case False
  let ?base = "if m ''base_url'' = [] then defaultBaseURL else m ''base_url''"
  from assms False have "andThen (registerOAuthClient Q E ?base)
      (\<lambda>(i, s, u). ok (m(''oauth_client_id'' := i, ''oauth_client_secret'' := s, ''oauth_udid'' := u), i, s, u)) w
      = (Inr (m', i, s, u), w')"
    by (simp add: client_credentials_def credentials_set_def Let_def split: if_splits)
  then have reg: "registerOAuthClient Q E ?base w = (Inr (i, s, u), w')"
    and m': "m' = m(''oauth_client_id'' := i, ''oauth_client_secret'' := s, ''oauth_udid'' := u)"
    by (auto simp: andThen_def split: prod.splits sum.splits)
  from registerOAuthClient_Inr [OF reg] m' False show ?thesis
    by (auto simp: credentials_set_def)
qed

text \<open>
  C37. The authorization uses one stored registration. Whenever the configuration dialogue goes
  on to the authorization, it was in its first state, the stored configuration has a client ID,
  a client secret and a device ID, the authorization is made with exactly these, and every other
  option is unchanged. If all three were stored before, nothing was sent and nothing changed;
  otherwise exactly one registration was sent, to the configured service.
\<close>

theorem configureOAuth_one_registration:
  assumes "configureOAuth Q E m st w = (Inr (m', Some (next, opts)), w')"
  shows "st = [] \<and> next = ''oauth-done'' \<and> credentials_set m'
    \<and> oc_ClientID (oo_Config opts) = m' ''oauth_client_id''
    \<and> oc_ClientSecret (oo_Config opts) = m' ''oauth_client_secret''
    \<and> map_of (oo_AuthParams opts) ''udids'' = Some (m' ''oauth_udid'')
    \<and> (\<forall>k. k \<notin> {''oauth_client_id'', ''oauth_client_secret'', ''oauth_udid''} \<longrightarrow> m' k = m k)
    \<and> (if credentials_set m then m' = m \<and> sent w' = sent w
       else sent w' = sent w @ [registration_request Q (TrimRight CHR ''/'' (TrimSpace
              (if m ''base_url'' = [] then defaultBaseURL else m ''base_url'')))])"
proof -
  from assms have st: "st = []" and "andThen (client_credentials Q E m) (\<lambda>(m', i, s, u).
      ok (m', Some (''oauth-done'', authorization_options Q m' i s u))) w = (Inr (m', Some (next, opts)), w')"
    by (auto simp: configureOAuth_def split: if_splits)
  then obtain i s u where cred: "client_credentials Q E m w = (Inr (m', i, s, u), w')"
    and out: "next = ''oauth-done''" "opts = authorization_options Q m' i s u"
    by (auto simp: andThen_def split: prod.splits sum.splits)
  from client_credentials_Inr [OF cred] show ?thesis
    unfolding out st by (simp add: authorization_options_def buildOAuthConfig_def Let_def)
qed

definition sample_oauth :: "script oauth_env" where
  "sample_oauth =
     \<lparr>redirect_url = ''http://127.0.0.1:53682/'', rand_error = (\<lambda>s. None), rand_byte = (\<lambda>s k. CHR 0xAB),
      source_expire = (\<lambda>s. (None, s)), source_token = (\<lambda>s. (Inr ''T'', s))\<rparr>"

definition registered_body :: string where
  "registered_body =
     ''{'' @ [CHR 0x22] @ ''client_id'' @ [CHR 0x22] @ '':'' @ [CHR 0x22] @ ''c'' @ [CHR 0x22] @ '',''
     @ [CHR 0x22] @ ''client_secret'' @ [CHR 0x22] @ '':'' @ [CHR 0x22] @ ''s'' @ [CHR 0x22] @ ''}''"

lemma sample_registration:
  "resp_status resp = 200 \<Longrightarrow> resp_body resp = registered_body \<Longrightarrow>
     registration_result udid resp = Inr (''c'', ''s'', udid)"
proof -
  have "map_option (dec_registration ([], [])) (json_decode_first registered_body) = Some ((''c'', ''s''), True)"
    by code_simp
  then show "resp_status resp = 200 \<Longrightarrow> resp_body resp = registered_body \<Longrightarrow>
      registration_result udid resp = Inr (''c'', ''s'', udid)"
    by (auto simp: registration_result_def Let_def)
qed

theorem configureOAuth_one_registration_witness:
  "\<exists>m' opts w'. configureOAuth sample_oauth sample_env (\<lambda>k. []) [] (start_world [answer 200 registered_body])
      = (Inr (m', Some (''oauth-done'', opts)), w')
    \<and> oc_ClientID (oo_Config opts) = m' ''oauth_client_id'' \<and> m' ''oauth_client_id'' = ''c''
    \<and> sent w' = [registration_request sample_oauth defaultBaseURL]"
proof -
  have base: "TrimRight CHR ''/'' (TrimSpace defaultBaseURL) = defaultBaseURL" "defaultBaseURL \<noteq> []"
    by code_simp+
  have "\<exists>w'. client_credentials sample_oauth sample_env (\<lambda>k. []) (start_world [answer 200 registered_body])
      = (Inr ((\<lambda>k. [])(''oauth_client_id'' := ''c'', ''oauth_client_secret'' := ''s'',
           ''oauth_udid'' := hex_encode (replicate 16 CHR 0xAB)), ''c'', ''s'', hex_encode (replicate 16 CHR 0xAB)), w')"
    by (simp add: client_credentials_def registerOAuthClient_def Let_def base sample_oauth_def andThen_def
        inspect_def check_def perform_def start_world_def script_do_def answer_def sample_registration
        map_replicate_const)
  then obtain m' opts w' where run: "configureOAuth sample_oauth sample_env (\<lambda>k. []) []
        (start_world [answer 200 registered_body]) = (Inr (m', Some (''oauth-done'', opts)), w')"
    and c: "m' ''oauth_client_id'' = ''c''"
    by (auto simp: configureOAuth_def andThen_def)
  from configureOAuth_one_registration [OF run] run c base show ?thesis
    by (auto simp: credentials_set_def start_world_def)
qed

end
