(* ===== verification/Object_Http.thy ===== *)
theory Object_Http
  imports Go_Runtime "HOL-Library.Word"
begin

text \<open>
  The client of the object storage in \<open>object_http.go\<close>: the certificates that a TLS connection to
  the storage accepts. Pools of certificates are shared by reference, so they live in a store of
  their own; a certificate is the string of its bytes, and a TLS configuration belongs to one transport.
\<close>

section \<open>Pools and transports\<close>

record pools =
  pool_at :: "nat \<rightharpoonup> string list"
  next_pool :: nat

record tls_config =
  RootCAs :: "nat option"
  MinVersion :: "16 word"

record transport =
  TLSClientConfig :: "tls_config option"

text \<open>
  What \<open>crypto/x509\<close> gives: the certificates in a PEM text, and the pool of the system if it can
  be read; and the bundled intermediate certificate.
\<close>

record x509 =
  certificates_in :: "string \<Rightarrow> string list"
  system_pool :: "goerr + string list option"
  trustAsiaIntermediate :: string

definition VersionTLS12 :: "16 word" where
  "VersionTLS12 = 0x0303"

definition pool_of :: "pools \<Rightarrow> nat \<Rightarrow> string list" where
  "pool_of h p = (case pool_at h p of Some cs \<Rightarrow> cs | None \<Rightarrow> [])"

definition new_pool :: "pools \<Rightarrow> string list \<Rightarrow> nat \<times> pools" where
  "new_pool h cs =
     (next_pool h,
      h\<lparr>pool_at := (pool_at h)(next_pool h \<mapsto> cs), next_pool := Suc (next_pool h)\<rparr>)"

text \<open>\<open>AppendCertsFromPEM\<close> changes the pool in place; a certificate is added once.\<close>

fun add_certs :: "string list \<Rightarrow> string list \<Rightarrow> string list" where
  "add_certs pool [] = pool"
| "add_certs pool (c # cs) = add_certs (if c \<in> set pool then pool else pool @ [c]) cs"

definition AppendCertsFromPEM :: "x509 \<Rightarrow> nat \<Rightarrow> string \<Rightarrow> pools \<Rightarrow> bool \<times> pools" where
  "AppendCertsFromPEM X p pem h =
     (certificates_in X pem \<noteq> [],
      h\<lparr>pool_at := (pool_at h)(p \<mapsto> add_certs (pool_of h p) (certificates_in X pem))\<rparr>)"

section \<open>The client\<close>

text \<open>The pool to extend: a clone of the one that \<open>fshttp\<close> set, else the system's, else none.\<close>

definition root_pool :: "x509 \<Rightarrow> tls_config \<Rightarrow> pools \<Rightarrow> nat \<times> pools" where
  "root_pool X cfg h =
     (case RootCAs cfg of
        None \<Rightarrow>
          (case system_pool X of
             Inl e \<Rightarrow> new_pool h []
           | Inr None \<Rightarrow> new_pool h []
           | Inr (Some cs) \<Rightarrow> new_pool h cs)
      | Some p \<Rightarrow> new_pool h (pool_of h p))"

definition config_of :: "transport \<Rightarrow> tls_config" where
  "config_of t =
     (case TLSClientConfig t of None \<Rightarrow> \<lparr>RootCAs = None, MinVersion = 0\<rparr> | Some cfg \<Rightarrow> cfg)"

text \<open>The callback that customises the transport.\<close>

definition customize :: "x509 \<Rightarrow> transport \<Rightarrow> pools \<Rightarrow> transport \<times> pools" where
  "customize X t h =
     (case root_pool X (config_of t) h of (roots, h1) \<Rightarrow>
      case AppendCertsFromPEM X roots (trustAsiaIntermediate X) h1 of (_, h2) \<Rightarrow>
      let cfg = (config_of t)\<lparr>RootCAs := Some roots\<rparr>;
          cfg' = (if MinVersion cfg < VersionTLS12 then cfg\<lparr>MinVersion := VersionTLS12\<rparr> else cfg)
      in (t\<lparr>TLSClientConfig := Some cfg'\<rparr>, h2))"

text \<open>
  \<open>newObjectHTTPClient\<close>, given the transport that \<open>fshttp.NewClientCustom\<close> hands to the callback;
  the result is the transport that the client uses.
\<close>

definition newObjectHTTPClient :: "x509 \<Rightarrow> transport \<Rightarrow> pools \<Rightarrow> (goerr + transport) \<times> pools" where
  "newObjectHTTPClient X t h =
     (case new_pool h [] of (probe, h1) \<Rightarrow>
      case AppendCertsFromPEM X probe (trustAsiaIntermediate X) h1 of (good, h2) \<Rightarrow>
      if \<not> good then
        (Inl (ErrNew ''parse bundled TrustAsia intermediate certificate''), h2)
      else (case customize X t h2 of (t', h3) \<Rightarrow> (Inr t', h3)))"

section \<open>What is trusted\<close>

lemma set_add_certs [simp]: "set (add_certs pool cs) = set pool \<union> set cs"
  by (induction pool cs rule: add_certs.induct) auto

definition pools_ok :: "pools \<Rightarrow> bool" where
  "pools_ok h \<longleftrightarrow> (\<forall>p. pool_at h p \<noteq> None \<longrightarrow> p < next_pool h)"

text \<open>The certificates accepted before the bundled one is added.\<close>

definition trusted :: "x509 \<Rightarrow> transport \<Rightarrow> pools \<Rightarrow> string set" where
  "trusted X t h =
     (case RootCAs (config_of t) of
        Some p \<Rightarrow> set (pool_of h p)
      | None \<Rightarrow> (case system_pool X of Inr (Some cs) \<Rightarrow> set cs | _ \<Rightarrow> {}))"

text \<open>A pool made and filled in place is new, and every other pool is as it was.\<close>

lemma fill_new_pool:
  assumes "pools_ok h" and "new_pool h cs = (p, h1)" and "AppendCertsFromPEM X p pem h1 = (good, h2)"
  shows "pool_at h p = None" and "pools_ok h2" and "pool_at h \<subseteq>\<^sub>m pool_at h2"
    and "set (pool_of h2 p) = set cs \<union> set (certificates_in X pem)"
    and "good \<longleftrightarrow> certificates_in X pem \<noteq> []"
proof -
  show free: "pool_at h p = None"
    using assms(1,2) by (auto simp: pools_ok_def new_pool_def)
  show "pools_ok h2"
    using assms by (auto simp: pools_ok_def new_pool_def AppendCertsFromPEM_def less_Suc_eq)
  show "pool_at h \<subseteq>\<^sub>m pool_at h2"
  proof (unfold map_le_def, rule ballI)
    fix q assume "q \<in> dom (pool_at h)"
    with free have "q \<noteq> p" by auto
    then show "pool_at h q = pool_at h2 q"
      using assms(2,3) by (auto simp: new_pool_def AppendCertsFromPEM_def)
  qed
  show "set (pool_of h2 p) = set cs \<union> set (certificates_in X pem)" "good \<longleftrightarrow> certificates_in X pem \<noteq> []"
    using assms(2,3) by (auto simp: pool_of_def new_pool_def AppendCertsFromPEM_def)
qed

lemma root_pool_new:
  "\<exists>cs. root_pool X (config_of t) h = new_pool h cs \<and> set cs = trusted X t h"
  by (auto simp: root_pool_def trusted_def split: option.split sum.split)

lemma trusted_later:
  assumes "pool_at h \<subseteq>\<^sub>m pool_at h'" and "\<And>p. RootCAs (config_of t) = Some p \<Longrightarrow> pool_at h p \<noteq> None"
  shows "trusted X t h' = trusted X t h"
  using assms by (auto simp: trusted_def pool_of_def map_le_def dom_def split: option.split)

lemma customize_config:
  assumes "customize X t h = (t', h')" and "pools_ok h"
  shows "\<exists>cfg p. TLSClientConfig t' = Some cfg \<and> RootCAs cfg = Some p \<and> pool_at h p = None
    \<and> set (pool_of h' p) = trusted X t h \<union> set (certificates_in X (trustAsiaIntermediate X))
    \<and> pool_at h \<subseteq>\<^sub>m pool_at h' \<and> MinVersion cfg = max VersionTLS12 (MinVersion (config_of t))"
proof -
  obtain cs where cs: "root_pool X (config_of t) h = new_pool h cs" "set cs = trusted X t h"
    using root_pool_new by blast
  obtain p h1 where p: "new_pool h cs = (p, h1)" by fastforce
  obtain good where a: "AppendCertsFromPEM X p (trustAsiaIntermediate X) h1 = (good, h')"
    using assms(1) by (auto simp: customize_def cs p Let_def split: prod.splits)
  show ?thesis
    using fill_new_pool [OF assms(2) p a] assms(1) cs a
    by (auto simp: customize_def p Let_def split: if_splits)
qed

text \<open>
  C34. The connection to the object storage trusts exactly one certificate more. The client is made
  exactly when the bundled PEM text holds a certificate. It then accepts what \<open>fshttp\<close> would
  have accepted (the pool that replaces the system's when one is configured, otherwise the
  system's if it can be read) and the bundled certificates, in a pool of its own: every pool that
  existed is as it was. The least TLS version is at least 1.2, and not below the configured one.
\<close>

theorem newObjectHTTPClient_trust:
  assumes ok: "pools_ok h" and given: "\<And>p. RootCAs (config_of t) = Some p \<Longrightarrow> pool_at h p \<noteq> None"
    and run: "newObjectHTTPClient X t h = (r, h')"
  shows "pool_at h \<subseteq>\<^sub>m pool_at h'
    \<and> (r = Inl (ErrNew ''parse bundled TrustAsia intermediate certificate'')
         \<and> certificates_in X (trustAsiaIntermediate X) = []
       \<or> (\<exists>t' cfg p. r = Inr t' \<and> certificates_in X (trustAsiaIntermediate X) \<noteq> []
           \<and> TLSClientConfig t' = Some cfg \<and> RootCAs cfg = Some p \<and> pool_at h p = None
           \<and> set (pool_of h' p) = trusted X t h \<union> set (certificates_in X (trustAsiaIntermediate X))
           \<and> MinVersion cfg = max VersionTLS12 (MinVersion (config_of t))))"
proof -
  obtain probe h1 good h2 where n: "new_pool h [] = (probe, h1)"
    and a: "AppendCertsFromPEM X probe (trustAsiaIntermediate X) h1 = (good, h2)"
    by (metis surj_pair)
  note f = fill_new_pool [OF ok n a]
  show ?thesis
  proof (cases good)
    case False
    with f run show ?thesis by (auto simp: newObjectHTTPClient_def n a)
  next
    case True
    then obtain t' where c: "customize X t h2 = (t', h')" and r: "r = Inr t'"
      using run by (auto simp: newObjectHTTPClient_def n a split: prod.splits)
    from customize_config [OF c f(2)] obtain cfg p
      where cfg: "TLSClientConfig t' = Some cfg" "RootCAs cfg = Some p" "pool_at h2 p = None"
        "set (pool_of h' p) = trusted X t h2 \<union> set (certificates_in X (trustAsiaIntermediate X))"
        "pool_at h2 \<subseteq>\<^sub>m pool_at h'" "MinVersion cfg = max VersionTLS12 (MinVersion (config_of t))"
      by blast
    moreover have "pool_at h p = None"
      using cfg(3) f(3) by (metis domIff map_le_def)
    ultimately show ?thesis
      using True f r trusted_later [OF f(3) given] map_le_trans by auto
  qed
qed

text \<open>A configured pool that replaces the system's.\<close>

definition sample_x509 :: x509 where
  "sample_x509 =
     \<lparr>certificates_in = (\<lambda>pem. if pem = [] then [] else [pem]), system_pool = Inr (Some [''system'']),
      trustAsiaIntermediate = ''asia''\<rparr>"

definition sample_pools :: pools where
  "sample_pools = \<lparr>pool_at = [0 \<mapsto> [''company'']], next_pool = 1\<rparr>"

definition sample_transport :: transport where
  "sample_transport = \<lparr>TLSClientConfig = Some \<lparr>RootCAs = Some 0, MinVersion = 0x0301\<rparr>\<rparr>"

lemma sample_config: "config_of sample_transport = \<lparr>RootCAs = Some 0, MinVersion = 0x0301\<rparr>"
  by (simp add: config_of_def sample_transport_def)

lemma sample_trusted: "trusted sample_x509 sample_transport sample_pools = {''company''}"
  by (simp add: trusted_def sample_config pool_of_def) (simp add: sample_pools_def)

lemma sample_certificates: "certificates_in sample_x509 (trustAsiaIntermediate sample_x509) = [''asia'']"
  by (simp add: sample_x509_def)

theorem newObjectHTTPClient_trust_witness:
  "\<exists>t' h' cfg p. newObjectHTTPClient sample_x509 sample_transport sample_pools = (Inr t', h')
     \<and> TLSClientConfig t' = Some cfg \<and> RootCAs cfg = Some p
     \<and> set (pool_of h' p) = {''company'', ''asia''} \<and> pool_at sample_pools \<subseteq>\<^sub>m pool_at h'"
proof -
  obtain r h' where run: "newObjectHTTPClient sample_x509 sample_transport sample_pools = (r, h')"
    by fastforce
  have ok: "pools_ok sample_pools" by (simp add: pools_ok_def sample_pools_def)
  have given: "pool_at sample_pools p \<noteq> None" if "RootCAs (config_of sample_transport) = Some p" for p
    using that by (simp add: sample_config) (simp add: sample_pools_def)
  show ?thesis
    using newObjectHTTPClient_trust [OF ok given run] unfolding sample_certificates sample_trusted
    by (auto simp: run)
qed

end
