(* ===== verification/New_Fs.thy ===== *)
theory New_Fs
  imports OAuth_Config Chunk_Writer Object_Http
begin

text \<open>
  \<open>NewFs\<close> of \<open>pkudisk.go\<close>: the options, the choice of the token provider, the API client, and
  the resolution of the root, which may turn out to be a file; and the name of a released build
  in \<open>rclone.go\<close>.
\<close>

record Options =
  op_Auth :: string
  op_AccessToken :: string
  op_PkudistLevelDB :: string
  op_BaseURL :: string
  op_OAuthClientID :: string
  op_OAuthClientSecret :: string
  op_UploadConcurrency :: int

datatype tokenSource = OAuthTokens | PkudistTokens pkudistTokenProvider | StaticTokens string

text \<open>
  What \<open>NewFs\<close> is given: the setting before there is an API client, the errors of
  \<open>oauthutil.NewClient\<close>, the certificates and the transport of the storage client, rclone's
  cache directory, and the environment of an API client with the given token provider, base URL
  and transport to the storage.
\<close>

record 's setting =
  host_of :: "'s host"
  oauth_of :: "'s oauth_env"
  local_env :: "'s env"
  oauth_client_error :: "oauthConfig \<Rightarrow> goerr option"
  certificates :: x509
  storage_transport :: transport
  certificate_pools :: pools
  cache_directory :: string
  connect :: "tokenSource \<Rightarrow> string \<Rightarrow> transport \<Rightarrow> 's env"

definition upload_concurrency_option :: "Options \<Rightarrow> goerr + int" where
  "upload_concurrency_option opt =
     (if op_UploadConcurrency opt = 0 then Inr defaultUploadConcurrency
      else if op_UploadConcurrency opt < 0
      then Inl (ErrNew ''pkudisk upload_concurrency must be positive'')
      else Inr (op_UploadConcurrency opt))"

definition choose_tokens :: "'s setting \<Rightarrow> configmap \<Rightarrow> Options \<Rightarrow> ('s, tokenSource) act" where
  "choose_tokens S m opt =
     (let mode = ToLower (TrimSpace (op_Auth opt)) in
      if mode = [] \<or> mode = ''oauth'' then
        (if op_OAuthClientID opt = [] \<or> op_OAuthClientSecret opt = [] then
           throw (ErrNew ''PKU Disk OAuth is not configured; run `rclone config` or `rclone config reconnect` first'')
         else (case oauth_client_error S
                   (buildOAuthConfig (oauth_of S) m (op_OAuthClientID opt) (op_OAuthClientSecret opt)) of
                 Some e \<Rightarrow> throw (Errorf ''initialize PKU Disk OAuth: %w'' [] [] [e])
               | None \<Rightarrow> ok OAuthTokens))
      else if mode = ''pkudist'' then
        andThen (newPkudistTokenProvider (host_of S) (local_env S) (op_PkudistLevelDB opt))
          (\<lambda>p. ok (PkudistTokens p))
      else if mode = ''token'' then
        (if op_AccessToken opt = [] then throw (ErrNew ''access_token is required when auth=token'')
         else ok (StaticTokens (op_AccessToken opt)))
      else throw (Errorf ''unsupported pkudisk auth mode %q'' [op_Auth opt] [] []))"

text \<open>The clients: the base URL, and the transport to the storage.\<close>

definition newAPIClient :: "'s setting \<Rightarrow> string \<Rightarrow> tokenSource \<Rightarrow> goerr + 's env" where
  "newAPIClient S baseURL tokens =
     (case newObjectHTTPClient (certificates S) (storage_transport S) (certificate_pools S) of (r, _) \<Rightarrow>
        case r of
          Inl e \<Rightarrow> Inl e
        | Inr t \<Rightarrow> Inr (connect S tokens (newAPIClient_base baseURL) t))"

text \<open>Resolving the root: the \<open>Fs\<close>, and whether the root is a file (\<open>fs.ErrorIsFile\<close>).\<close>

definition root_as_file :: "'s env \<Rightarrow> Fs \<Rightarrow> ('s, Fs \<times> bool) act" where
  "root_as_file E f =
     (case split_path E (fs_root f) of (newRoot, remote) \<Rightarrow>
        andThen (NewDirCache E newRoot) (\<lambda>h.
        let tempF = f\<lparr>fs_root := newRoot, fs_cache := h\<rparr> in
        inspect (FindRoot E tempF False) (\<lambda>r. case r of
          Inl _ \<Rightarrow> ok (f, False)
        | Inr _ \<Rightarrow>
            inspect (NewObject E tempF remote) (\<lambda>r. case r of
              Inl e \<Rightarrow>
                if err_is e (FsError ErrorObjectNotFound) \<or> err_is e (FsError ErrorIsDir)
                then ok (f, False) else throw e
            | Inr _ \<Rightarrow> ok (f\<lparr>fs_root := newRoot, fs_cache := h\<rparr>, True)))))"

definition resolve_root :: "'s env \<Rightarrow> Fs \<Rightarrow> ('s, Fs \<times> bool) act" where
  "resolve_root E f =
     andThen (tryResolveRootByPath E f) (\<lambda>(handled, isFile, f).
       if handled then ok (f, isFile)
       else inspect (FindRoot E f False) (\<lambda>r. case r of
         Inr _ \<Rightarrow> ok (f, False)
       | Inl _ \<Rightarrow> root_as_file E f))"

definition NewFs ::
    "'s setting \<Rightarrow> configmap \<Rightarrow> string \<Rightarrow> string \<Rightarrow> goerr + Options \<Rightarrow> ('s, Fs \<times> bool) act" where
  "NewFs S m name root options =
     andThen (lift options) (\<lambda>opt.
     andThen (lift (upload_concurrency_option opt)) (\<lambda>concurrency.
     andThen (choose_tokens S m opt) (\<lambda>tokens.
     andThen (lift (newAPIClient S (op_BaseURL opt) tokens)) (\<lambda>E.
     let root = Trim CHR ''/'' root in
     andThen (NewDirCache E root) (\<lambda>h.
       resolve_root E \<lparr>fs_name = name, fs_root = root, fs_cache = h, fs_base_url = op_BaseURL opt,
         fs_upload_concurrency = concurrency,
         fs_resume_dir = PathJoin (cache_directory S) ''pkudisk/multipart''\<rparr>)))))"

section \<open>The released build\<close>

text \<open>
  \<open>projectReleaseVersion\<close>, and the version of rclone after \<open>applyProjectVersion\<close> with the
  version of the main module that \<open>debug.ReadBuildInfo\<close> finds.
\<close>

definition projectReleaseVersion :: "string \<Rightarrow> string" where
  "projectReleaseVersion version =
     (if HasPrefix version ''v'' \<and> sublist ''-pkudisk.'' version then version else [])"

definition applyProjectVersion :: "string option \<Rightarrow> string \<Rightarrow> string" where
  "applyProjectVersion info current =
     (case info of
        None \<Rightarrow> current
      | Some v \<Rightarrow> if projectReleaseVersion v \<noteq> [] then projectReleaseVersion v else current)"

section \<open>What NewFs promises\<close>

lemma reads_only: "lookup_request E False = read_request E"
  by (rule ext) (simp add: lookup_request_def)

lemma seedDirCacheFromDocID_sends [runs_rules]: "sends P (seedDirCacheFromDocID E h path docid)"
  unfolding seedDirCacheFromDocID_def by (intro runs_rules)

lemma tryResolveRootByPath_sends:
  assumes "dircache_frame E"
  shows "sends (read_request E) (tryResolveRootByPath E f)"
proof -
  have "sends (read_request E) (FindRoot E g False)" for g
    using dircache_sends(3) [OF assms, of False g] by (simp add: reads_only)
  then show ?thesis
    unfolding tryResolveRootByPath_def Let_def by (intro runs_rules)
qed

lemma resolve_root_sends:
  assumes "dircache_frame E"
  shows "sends (read_request E) (resolve_root E f)"
proof -
  have "sends (read_request E) (FindRoot E g False)" for g
    using dircache_sends(3) [OF assms, of False g] by (simp add: reads_only)
  then show ?thesis
    unfolding resolve_root_def root_as_file_def Let_def
    by (intro runs_rules tryResolveRootByPath_sends NewObject_sends assms)
qed

lemma choose_tokens_sends [runs_rules]: "sends P (choose_tokens S m opt)"
  unfolding choose_tokens_def Let_def by (intro runs_rules)

text \<open>
  The remote at \<open>root\<close> was seen to be a file: as an object of its parent directory, or by its
  path, with the size of a file.
\<close>

definition seen_as_file :: "'s env \<Rightarrow> string \<Rightarrow> Fs \<Rightarrow> bool" where
  "seen_as_file E root f \<longleftrightarrow>
     (\<exists>w1 ob w2. NewObject E f (snd (split_path E root)) w1 = (Inr ob, w2))
     \<or> (\<exists>g w1 meta w2. fs_root g = root \<and> getInfoByPath E (encodedNamePath E g []) w1 = (Inr meta, w2)
          \<and> 0 \<le> e_Size meta)"

definition same_fs :: "Fs \<Rightarrow> Fs \<Rightarrow> bool" where
  "same_fs f g \<longleftrightarrow> fs_name f = fs_name g \<and> fs_base_url f = fs_base_url g
     \<and> fs_upload_concurrency f = fs_upload_concurrency g \<and> fs_resume_dir f = fs_resume_dir g"

definition resolved :: "'s env \<Rightarrow> Fs \<Rightarrow> Fs \<times> bool \<Rightarrow> bool" where
  "resolved E f = (\<lambda>(g, isFile). same_fs f g
     \<and> fs_root g = (if isFile then fst (split_path E (fs_root f)) else fs_root f)
     \<and> (isFile \<longrightarrow> seen_as_file E (fs_root f) g))"

lemma gives_self: "gives (\<lambda>x. \<exists>w w'. m w = (Inr x, w')) m"
  by (auto simp: gives_def)

lemma resolved_self: "resolved E f (f, False)"
  by (simp add: resolved_def same_fs_def)

lemma tryResolveRootByPath_gives:
  "gives (\<lambda>(handled, isFile, g). resolved E f (g, isFile) \<and> (handled \<or> g = f)) (tryResolveRootByPath E f)"
  (is "gives ?R _")
proof -
  have keep: "gives ?R (ok (False, False, f))" "gives ?R (ok (True, False, f))"
    by (simp_all add: gives_ok resolved_self)
  have byPath: "resolved E f (f\<lparr>fs_root := fst (split_path E (fs_root f)), fs_cache := h\<rparr>, True)"
    if "getInfoByPath E (encodedNamePath E f []) w1 = (Inr meta, w2)" "\<not> e_Size meta < 0" for meta w1 w2 h
  proof -
    have "seen_as_file E (fs_root f) g" for g
      unfolding seen_as_file_def using that by (intro disjI2 exI [of _ f]) force
    then show ?thesis by (simp add: resolved_def same_fs_def)
  qed
  show ?thesis
    unfolding tryResolveRootByPath_def Let_def
    by (intro gives_if keep gives_inspect [OF gives_self]; simp?)
      (auto intro!: gives_rules keep intro: byPath)
qed

lemma root_as_file_gives: "gives (resolved E f) (root_as_file E f)"
proof -
  obtain d l where s: "split_path E (fs_root f) = (d, l)" by (cases "split_path E (fs_root f)")
  have here: "gives (resolved E f) (ok (f\<lparr>fs_root := d, fs_cache := h\<rparr>, True))"
    if "NewObject E (f\<lparr>fs_root := d, fs_cache := h\<rparr>) l w1 = (Inr ob, w2)" for h w1 ob w2
    using that by (intro gives_ok) (auto simp: resolved_def same_fs_def seen_as_file_def s)
  have keep: "gives (resolved E f) (ok (f, False))" by (simp add: gives_ok resolved_self)
  have inner: "gives (resolved E f) (inspect (NewObject E (f\<lparr>fs_root := d, fs_cache := h\<rparr>) l) (\<lambda>r. case r of
      Inl e \<Rightarrow> if err_is e (FsError ErrorObjectNotFound) \<or> err_is e (FsError ErrorIsDir)
                then ok (f, False) else throw e
    | Inr _ \<Rightarrow> ok (f\<lparr>fs_root := d, fs_cache := h\<rparr>, True)))" for h
    by (rule gives_inspect [OF gives_self]) (auto intro: keep here)
  show ?thesis
    unfolding root_as_file_def Let_def s prod.case
    by (rule gives_then, rule gives_inspected, rule gives_sum, rule keep, rule inner)
qed

lemma resolve_root_gives: "gives (resolved E f) (resolve_root E f)"
  unfolding resolve_root_def
proof (rule gives_andThen [OF tryResolveRootByPath_gives], clarify)
  fix handled isFile g
  assume g: "resolved E f (g, isFile)" and kept: "handled \<or> g = f"
  show "gives (resolved E f) (if handled then ok (g, isFile) else inspect (FindRoot E g False)
      (\<lambda>r. case r of Inl _ \<Rightarrow> root_as_file E g | Inr _ \<Rightarrow> ok (g, False)))"
    using g kept by (auto intro!: gives_ok gives_inspected gives_sum root_as_file_gives resolved_self)
qed

definition usable :: "tokenSource \<Rightarrow> bool" where
  "usable tokens \<longleftrightarrow> (case tokens of
     OAuthTokens \<Rightarrow> True | PkudistTokens p \<Rightarrow> pt_token p \<noteq> [] | StaticTokens t \<Rightarrow> t \<noteq> [])"

lemma newPkudistTokenProvider_gives: "gives (\<lambda>p. pt_token p \<noteq> []) (newPkudistTokenProvider H E configured)"
proof -
  have "gives (\<lambda>(t, p). pt_token p \<noteq> []) (pkudistToken H E p b)" for p b
    by (auto simp: gives_def dest: pkudistToken_Inr)
  then have "gives (\<lambda>p. pt_token p \<noteq> []) (andThen (pkudistToken H E p b) (\<lambda>(tok, p). ok p))" for p b
    by (rule gives_andThen) (auto intro: gives_ok)
  then show ?thesis
    unfolding newPkudistTokenProvider_def Let_def
    by (intro gives_then [of _ _ "lift r" for r]) (auto split: sum.split)
qed

lemma choose_tokens_gives: "gives usable (choose_tokens S m opt)"
  unfolding choose_tokens_def Let_def
  by (auto intro!: gives_rules gives_andThen [OF newPkudistTokenProvider_gives] simp: usable_def)

lemma sent_nothing: "sends (\<lambda>_. False) m \<Longrightarrow> sent (snd (m w)) = sent w"
  by (rule sendsD [of "\<lambda>_. False" m w]) (simp_all add: list_all_iff)

lemma NewFs_steps:
  assumes "NewFs S m name root options w = (Inr out, w')"
  obtains opt concurrency tokens E w1 h w2 where "options = Inr opt"
    and "newAPIClient S (op_BaseURL opt) tokens = Inr E"
    and "upload_concurrency_option opt = Inr concurrency" and "choose_tokens S m opt w = (Inr tokens, w1)"
    and "NewDirCache E (Trim CHR ''/'' root) w1 = (Inr h, w2)"
    and "resolve_root E
      \<lparr>fs_name = name, fs_root = Trim CHR ''/'' root, fs_cache = h, fs_base_url = op_BaseURL opt,
       fs_upload_concurrency = concurrency,
       fs_resume_dir = PathJoin (cache_directory S) ''pkudisk/multipart''\<rparr> w2 = (Inr out, w')"
  using assms unfolding NewFs_def andThen_def Let_def check_def
  by (auto split: sum.splits prod.splits option.splits)


definition sample_setting :: "script setting" where
  "sample_setting =
     \<lparr>host_of = sample_host, oauth_of = sample_oauth, local_env = sample_env,
      oauth_client_error = (\<lambda>c. None), certificates = sample_x509,
      storage_transport = sample_transport, certificate_pools = sample_pools, cache_directory = ''/c'',
      connect = (\<lambda>tokens u t. sample_env)\<rparr>"

definition sample_options :: Options where
  "sample_options =
     \<lparr>op_Auth = '' Token '', op_AccessToken = ''T'', op_PkudistLevelDB = [], op_BaseURL = [],
      op_OAuthClientID = [], op_OAuthClientSecret = [], op_UploadConcurrency = 0\<rparr>"

lemma sample_mode: "ToLower (TrimSpace (op_Auth sample_options)) = ''token''"
  by code_simp

lemma sample_client: "newAPIClient sample_setting u tokens = Inr sample_env"
  by (simp add: newAPIClient_def newObjectHTTPClient_def AppendCertsFromPEM_def sample_setting_def
      sample_x509_def new_pool_def split: prod.split)


end
