(* ===== verification/Registration.thy ===== *)
theory Registration
  imports New_Fs Fs_Commands
begin

text \<open>
  The registration of the backend in \<open>pkudisk.go\<close>: what it tells rclone of its options and
  commands, and the logger that is in place while rclone registers it; and the start of the
  program in \<open>rclone.go\<close>, which removes rclone's command to update itself.
\<close>

section \<open>What is registered\<close>

datatype default = NoDefault | Text string | Number int | Encoding "string list"

record regOption =
  opt_Name :: string
  opt_Help :: string
  opt_Default :: default
  opt_Examples :: "(string \<times> string) list"
  opt_Sensitive :: bool
  opt_Advanced :: bool
  opt_Hidden :: bool

record commandHelp =
  ch_Name :: string
  ch_Short :: string
  ch_Long :: string
  ch_Opts :: "(string \<times> string) list"

record overview =
  ov_Backend :: string
  ov_Name :: string
  ov_Tier :: string
  ov_Maintainers :: string
  ov_Remote :: string

record metadataHelp =
  mh_Name :: string
  mh_Help :: string
  mh_Type :: string
  mh_ReadOnly :: bool

record regInfo =
  ri_Name :: string
  ri_Description :: string
  ri_System :: "metadataHelp list"
  ri_MetadataHelp :: string
  ri_CommandHelp :: "commandHelp list"
  ri_Options :: "regOption list"
  ri_Overview :: overview

text \<open>The flags of \<open>defaultEncoding\<close> by their names.\<close>

definition defaultEncoding :: "string list" where
  "defaultEncoding =
     [''EncodeCtl'', ''EncodeDel'', ''EncodeDot'', ''EncodeSlash'', ''EncodeBackSlash'', ''EncodeWin'',
      ''EncodeLeftSpace'', ''EncodeRightSpace'', ''EncodeRightPeriod'', ''EncodeInvalidUtf8'']"

definition metadataInfo :: "metadataHelp list \<times> string" where
  "metadataInfo =
     ([\<lparr>mh_Name = ''rev'', mh_Help = ''AnyShare revision identifier for optimistic concurrency.'',
        mh_Type = ''string'', mh_ReadOnly = True\<rparr>],
      ''PKU Disk exposes the current AnyShare revision as read-only system metadata.'')"

definition command_help :: "commandHelp list" where
  "command_help =
     [\<lparr>ch_Name = ''sync-delete'',
       ch_Short = ''Delete an exact file ID after checking its expected revision.'',
       ch_Long = ''Low-level primitive for stateful sync clients. The single argument is the AnyShare docid; -o expected-rev=<rev> is required. This avoids re-resolving a path to a different object before deletion.'',
       ch_Opts = [(''expected-rev'', ''required AnyShare revision expected immediately before deletion'')]\<rparr>,
      \<lparr>ch_Name = ''sync-delete-dir'',
       ch_Short = ''Delete an exact directory ID only after observing it empty.'',
       ch_Long = ''Low-level primitive for stateful sync clients. The single argument is the AnyShare directory docid. The backend lists that exact ID immediately before deletion and refuses non-empty directories. AnyShare does not expose an atomic only-if-empty directory-delete precondition, so callers must still observe the postcondition.'',
       ch_Opts = []\<rparr>,
      \<lparr>ch_Name = ''sync-move'',
       ch_Short = ''Move or rename an exact AnyShare object ID.'',
       ch_Long = ''Low-level primitive for stateful sync clients. Arguments are <docid> <destination-remote>. The destination parent must already exist. Use -o kind=dir for a directory; the default kind is file.'',
       ch_Opts = [(''kind'', ''entry kind: file (default) or dir'')]\<rparr>]"

definition plain_option :: regOption where
  "plain_option =
     \<lparr>opt_Name = [], opt_Help = [], opt_Default = NoDefault, opt_Examples = [], opt_Sensitive = False,
      opt_Advanced = False, opt_Hidden = False\<rparr>"

text \<open>
  \<open>help\<close> is rclone's text on the option \<open>encoding\<close>. \<open>NewFs\<close> and \<open>configureOAuth\<close>, which are
  registered too, are functions of the model.
\<close>

definition backend_options :: "string \<Rightarrow> regOption list" where
  "backend_options help =
     [plain_option\<lparr>opt_Name := ''auth'',
        opt_Help := ''Authentication source. OAuth is recommended for long-running sync and mount jobs.'',
        opt_Default := Text ''oauth'',
        opt_Examples :=
          [(''oauth'', ''Register an rclone client and sign in through PKU Disk OAuth (recommended).''),
           (''pkudist'', ''Reuse the current official PKU Disk desktop client access token.''),
           (''token'', ''Use an explicit access token.'')]\<rparr>,
      plain_option\<lparr>opt_Name := ''access_token'',
        opt_Help := ''PKU Disk OAuth access token when auth=token.'', opt_Sensitive := True\<rparr>,
      plain_option\<lparr>opt_Name := ''pkudist_leveldb'',
        opt_Help := ''Path to AnyShare Chromium Local Storage LevelDB. Leave empty for the standard Linux path.'',
        opt_Advanced := True\<rparr>,
      plain_option\<lparr>opt_Name := ''base_url'', opt_Help := ''PKU Disk service base URL.'',
        opt_Default := Text defaultBaseURL, opt_Advanced := True\<rparr>,
      plain_option\<lparr>opt_Name := ''upload_concurrency'',
        opt_Help := ''Concurrency for multipart uploads.'' @ [CHR 0x0A, CHR 0x0A]
          @ ''This is the number of chunks of the same file that rclone uploads concurrently.'' @ [CHR 0x0A]
          @ ''Lower this when the network or server benefits from fewer parallel requests; increase it only when testing shows additional streams improve throughput.'',
        opt_Default := Number defaultUploadConcurrency, opt_Advanced := True\<rparr>,
      plain_option\<lparr>opt_Name := ''oauth_client_id'',
        opt_Help := ''Dynamically registered AnyShare OAuth client ID.'', opt_Hidden := True,
        opt_Sensitive := True\<rparr>,
      plain_option\<lparr>opt_Name := ''oauth_client_secret'',
        opt_Help := ''Dynamically registered AnyShare OAuth client secret.'', opt_Hidden := True,
        opt_Sensitive := True\<rparr>,
      plain_option\<lparr>opt_Name := ''oauth_udid'', opt_Help := ''AnyShare OAuth device identifier.'',
        opt_Hidden := True\<rparr>,
      plain_option\<lparr>opt_Name := ''encoding'', opt_Help := help, opt_Advanced := True,
        opt_Default := Encoding defaultEncoding\<rparr>]"

definition backend_info :: "string \<Rightarrow> regInfo" where
  "backend_info help =
     \<lparr>ri_Name = ''pkudisk'', ri_Description = ''Peking University PKU Disk (AnyShare)'',
      ri_System = fst metadataInfo, ri_MetadataHelp = snd metadataInfo, ri_CommandHelp = command_help,
      ri_Options = backend_options help,
      ri_Overview = \<lparr>ov_Backend = [], ov_Name = [], ov_Tier = [], ov_Maintainers = [], ov_Remote = []\<rparr>\<rparr>"

section \<open>Registering\<close>

text \<open>
  A log record, and \<open>strconv.Quote\<close> for ASCII: printable characters stand for themselves, and a
  name beyond ASCII is kept as it is.
\<close>

record logRecord =
  lr_Level :: int
  lr_Message :: string

definition LevelError :: int where
  "LevelError = 8"

definition quote_char :: "char \<Rightarrow> string" where
  "quote_char c =
     (let n = of_char c :: nat; hex = (\<lambda>d. ''0123456789abcdef'' ! d) in
      if c = CHR 0x22 \<or> c = CHR 0x5C then [CHR 0x5C, c]
      else if n = 7 then [CHR 0x5C, CHR ''a''] else if n = 8 then [CHR 0x5C, CHR ''b'']
      else if n = 9 then [CHR 0x5C, CHR ''t''] else if n = 10 then [CHR 0x5C, CHR ''n'']
      else if n = 11 then [CHR 0x5C, CHR ''v''] else if n = 12 then [CHR 0x5C, CHR ''f'']
      else if n = 13 then [CHR 0x5C, CHR ''r'']
      else if n < 32 \<or> n = 127 then [CHR 0x5C, CHR ''x'', hex (n div 16), hex (n mod 16)]
      else [c])"

definition Quote :: "string \<Rightarrow> string" where
  "Quote s = CHR 0x22 # concat (map quote_char s) @ [CHR 0x22]"

definition missingOverviewLogMessage :: "string \<Rightarrow> string" where
  "missingOverviewLogMessage name = ''internal error: no overview data found for '' @ Quote name"

text \<open>
  rclone's logger: its own handler, or the filter in front of it. The state of the process is the
  logger in place, what its handler was given, and the backends registered.
\<close>

datatype logger = RcloneHandler | RegistrationLogFilter string

record process =
  logger_of :: logger
  logged :: "logRecord list"
  registered :: "regInfo list"

definition handle :: "logger \<Rightarrow> logRecord \<Rightarrow> logRecord list \<Rightarrow> logRecord list" where
  "handle lg r out =
     (case lg of
        RcloneHandler \<Rightarrow> out @ [r]
      | RegistrationLogFilter message \<Rightarrow>
          if lr_Level r = LevelError \<and> lr_Message r = message then out else out @ [r])"

definition log_all :: "logRecord list \<Rightarrow> process \<Rightarrow> process" where
  "log_all rs st = st\<lparr>logged := fold (handle (logger_of st)) rs (logged st)\<rparr>"

text \<open>
  \<open>register\<close> stands for \<open>fs.Register\<close>: the records it logs, and the overview it gives the
  backend.
\<close>

definition registerBackend ::
    "(regInfo \<Rightarrow> logRecord list \<times> overview) \<Rightarrow> regInfo \<Rightarrow> process \<Rightarrow> process" where
  "registerBackend register info st =
     (let st1 = st\<lparr>logger_of := RegistrationLogFilter (missingOverviewLogMessage (ri_Name info))\<rparr>;
          (rs, ov) = register info;
          st2 = (log_all rs st1)\<lparr>logger_of := RcloneHandler\<rparr>;
          ov' = ov\<lparr>ov_Backend := ri_Name info, ov_Name := ri_Description info, ov_Tier := ''External'',
                   ov_Maintainers := ''External'', ov_Remote := ri_Name info @ '':''\<rparr>
      in st2\<lparr>registered := registered st2 @ [info\<lparr>ri_Overview := ov'\<rparr>]\<rparr>)"

text \<open>The commands of rclone as \<open>cmd.Root.Commands()\<close> gives them; the first of that name goes.\<close>

fun disableUpstreamSelfUpdate :: "string list \<Rightarrow> string list" where
  "disableUpstreamSelfUpdate [] = []"
| "disableUpstreamSelfUpdate (c # cs) =
     (if c = ''selfupdate'' then cs else c # disableUpstreamSelfUpdate cs)"

text \<open>The start of the program: the version of rclone and its commands.\<close>

definition init_program :: "string option \<Rightarrow> string \<Rightarrow> string list \<Rightarrow> string \<times> string list" where
  "init_program info version cs = (applyProjectVersion info version, disableUpstreamSelfUpdate cs)"

section \<open>What is registered is what the code does\<close>

definition option_named :: "string \<Rightarrow> regOption" where
  "option_named k = the (find (\<lambda>opt. opt_Name opt = k) (backend_options []))"

text \<open>The options that the help of a command names.\<close>

definition command_options :: "string \<Rightarrow> string set" where
  "command_options name = fst ` set (concat (map ch_Opts (filter (\<lambda>h. ch_Name h = name) command_help)))"

lemma command_names: "ch_Name ` set command_help = {''sync-delete'', ''sync-delete-dir'', ''sync-move''}"
  by (simp add: command_help_def)

lemma command_options:
  "command_options ''sync-delete'' = {''expected-rev''}" "command_options ''sync-delete-dir'' = {}"
  "command_options ''sync-move'' = {''kind''}"
  by (simp_all add: command_options_def command_help_def)

lemma named_options:
  "opt_Default (option_named ''auth'') = Text ''oauth''"
  "opt_Examples (option_named ''auth'') = opt_Examples (hd (backend_options []))"
  "opt_Default (option_named ''base_url'') = Text defaultBaseURL"
  "opt_Default (option_named ''upload_concurrency'') = Number defaultUploadConcurrency"
  by (simp_all add: option_named_def backend_options_def plain_option_def)

lemma auth_modes: "fst ` set (opt_Examples (option_named ''auth'')) = {''oauth'', ''pkudist'', ''token''}"
  by (simp add: named_options) (simp add: backend_options_def)

lemma option_value_restrict: "k \<in> K \<Longrightarrow> option_value (opt |` K) k = option_value opt k"
  by (simp add: option_value_def)

lemma kind_restrict: "move_kind (opt |` {''kind''}) = move_kind opt"
  by (simp add: move_kind_def option_value_restrict)

lemma rev_restrict: "option_value (opt |` {''expected-rev''}) ''expected-rev'' = option_value opt ''expected-rev''"
  by (simp add: option_value_restrict)

lemma command_reads_its_options:
  "sync_delete E arg (opt |` command_options ''sync-delete'') = sync_delete E arg opt"
  "sync_move E f arg (opt |` command_options ''sync-move'') = sync_move E f arg opt"
  unfolding sync_delete_def sync_move_def command_options kind_restrict rev_restrict by (rule refl)+

lemma oauth_mode: "ToLower (TrimSpace ''oauth'') = ''oauth''" "ToLower (TrimSpace []) = []"
  "TrimSpace defaultBaseURL \<noteq> []" "TrimSpace [] = []" "defaultBaseURL \<noteq> []"
  by code_simp+

lemma default_base: "newAPIClient_base [] = newAPIClient_base defaultBaseURL"
  by (simp add: newAPIClient_base_def oauth_mode)

lemma default_client: "newAPIClient S [] tokens = newAPIClient S defaultBaseURL tokens"
  unfolding newAPIClient_def default_base by (rule refl)



text \<open>
  Registering silences one message only, and leaves rclone's handler in place; the program goes
  on with every command of rclone but the first \<open>selfupdate\<close>.
\<close>

lemma handle_filter:
  "fold (handle (RegistrationLogFilter message)) rs out =
     out @ filter (\<lambda>r. \<not> (lr_Level r = LevelError \<and> lr_Message r = message)) rs"
  by (induction rs arbitrary: out) (simp_all add: handle_def)

lemma registerBackend_log:
  assumes "register info = (rs, ov)"
  shows "logged (registerBackend register info st) =
      logged st @ filter (\<lambda>r. \<not> (lr_Level r = LevelError \<and> lr_Message r = missingOverviewLogMessage (ri_Name info))) rs"
    and "logger_of (registerBackend register info st) = RcloneHandler"
    and "ov_Backend (ri_Overview (last (registered (registerBackend register info st)))) = ri_Name info"
  by (simp_all add: registerBackend_def assms log_all_def handle_filter Let_def)

lemma missing_overview_of_backend:
  "missingOverviewLogMessage ''pkudisk'' = ''internal error: no overview data found for '' @ CHR 0x22 # ''pkudisk'' @ [CHR 0x22]"
  by code_simp

lemma disableUpstreamSelfUpdate_remove1: "disableUpstreamSelfUpdate cs = remove1 ''selfupdate'' cs"
  by (induction cs) auto

end
