(* ===== verification/Go_Mutex.thy ===== *)
theory Go_Mutex
  imports Main "HOL-Library.Sublist"
begin

text \<open>
  Methods of an object that a Go mutex guards, called from several goroutines. A call may first
  look at the object in a section of its own under the read lock; the rest of it runs under the
  lock, in steps, and releases it when it returns. The locale \<open>guarded_object\<close> is the contract of
  such a method with the one it amounts to when calls do not overlap; what it gives is that the
  calls are linearizable.
\<close>

section \<open>Calls and their steps\<close>

datatype ('a, 'p, 'r) thread = Fast 'a | Slow 'a | Inside 'p | Returned 'r

text \<open>
  The object, the goroutine that holds the lock, the calls by the goroutines that make them,
  and the calls in the order in which they took effect.
\<close>

record ('a, 'p, 'r, 's) guarded =
  shared :: 's
  holder :: "nat option"
  threads :: "nat \<rightharpoonup> ('a, 'p, 'r) thread"
  order :: "(nat \<times> 'a) list"

text \<open>
  A method: whether a call looks first, what it returns then, where it enters the section under
  the lock, and one step there, to a further point or to the result.
\<close>

record ('a, 'p, 'r, 's) method_code =
  looks :: "'a \<Rightarrow> bool"
  look :: "'a \<Rightarrow> 's \<Rightarrow> 'r option"
  enter :: "'a \<Rightarrow> 'p"
  work :: "'p \<Rightarrow> 's \<Rightarrow> 's \<times> ('p + 'r)"

inductive mstep ::
    "('a, 'p, 'r, 's) method_code \<Rightarrow> ('a, 'p, 'r, 's) guarded \<Rightarrow> ('a, 'p, 'r, 's) guarded \<Rightarrow> bool"
  for M :: "('a, 'p, 'r, 's) method_code" where
  call:
    "threads c i = None \<Longrightarrow>
       mstep M c (c\<lparr>threads := (threads c)(i \<mapsto> if looks M a then Fast a else Slow a)\<rparr>)"
| hit:
    "threads c i = Some (Fast a) \<Longrightarrow> holder c = None \<Longrightarrow> look M a (shared c) = Some r \<Longrightarrow>
       mstep M c (c\<lparr>threads := (threads c)(i \<mapsto> Returned r), order := order c @ [(i, a)]\<rparr>)"
| miss:
    "threads c i = Some (Fast a) \<Longrightarrow> holder c = None \<Longrightarrow> look M a (shared c) = None \<Longrightarrow>
       mstep M c (c\<lparr>threads := (threads c)(i \<mapsto> Slow a)\<rparr>)"
| lock:
    "threads c i = Some (Slow a) \<Longrightarrow> holder c = None \<Longrightarrow>
       mstep M c (c\<lparr>holder := Some i, threads := (threads c)(i \<mapsto> Inside (enter M a)),
         order := order c @ [(i, a)]\<rparr>)"
| inside:
    "threads c i = Some (Inside p) \<Longrightarrow> work M p (shared c) = (s, Inl p') \<Longrightarrow>
       mstep M c (c\<lparr>shared := s, threads := (threads c)(i \<mapsto> Inside p')\<rparr>)"
| leave:
    "threads c i = Some (Inside p) \<Longrightarrow> work M p (shared c) = (s, Inr r) \<Longrightarrow>
       mstep M c (c\<lparr>shared := s, holder := None, threads := (threads c)(i \<mapsto> Returned r)\<rparr>)"

abbreviation msteps ::
    "('a, 'p, 'r, 's) method_code \<Rightarrow> ('a, 'p, 'r, 's) guarded \<Rightarrow> ('a, 'p, 'r, 's) guarded \<Rightarrow> bool" where
  "msteps M \<equiv> (mstep M)\<^sup>*\<^sup>*"

definition idle :: "'s \<Rightarrow> ('a, 'p, 'r, 's) guarded" where
  "idle s = \<lparr>shared = s, holder = None, threads = Map.empty, order = []\<rparr>"

lemma order_grows: "msteps M c c' \<Longrightarrow> prefix (order c) (order c')"
proof (induction rule: rtranclp_induct)
  case (step c1 c2)
  from step(2) have "prefix (order c1) (order c2)" by (cases rule: mstep.cases) simp_all
  with step.IH show ?case by (rule prefix_order.trans)
qed simp

section \<open>One call after the other\<close>

text \<open>The section under the lock from a point on, run to its end.\<close>

inductive executes ::
    "('a, 'p, 'r, 's) method_code \<Rightarrow> 'p \<Rightarrow> 's \<Rightarrow> 'r \<Rightarrow> 's \<Rightarrow> bool"
  for M :: "('a, 'p, 'r, 's) method_code" where
  last: "work M p s = (s', Inr r) \<Longrightarrow> executes M p s r s'"
| more: "work M p s = (s1, Inl p1) \<Longrightarrow> executes M p1 s1 r s' \<Longrightarrow> executes M p s r s'"

lemma executes_iff:
  "executes M p s r s' \<longleftrightarrow>
     (case work M p s of (s1, Inl p1) \<Rightarrow> executes M p1 s1 r s' | (s1, Inr r1) \<Rightarrow> r1 = r \<and> s1 = s')"
  by (subst executes.simps) (auto split: prod.split sum.split)

text \<open>Calls one after the other: their results and the object after them.\<close>

fun replay :: "('a \<Rightarrow> 's \<Rightarrow> 'r \<times> 's) \<Rightarrow> (nat \<times> 'a) list \<Rightarrow> 's \<Rightarrow> (nat \<times> 'r) list \<times> 's" where
  "replay whole [] s = ([], s)"
| "replay whole ((i, a) # os) s =
     (case whole a s of (r, s1) \<Rightarrow> case replay whole os s1 of (rs, s2) \<Rightarrow> ((i, r) # rs, s2))"

lemma replay_snoc:
  "replay whole (os @ [(i, a)]) s =
     (case replay whole os s of (rs, s1) \<Rightarrow> case whole a s1 of (r, s2) \<Rightarrow> (rs @ [(i, r)], s2))"
  by (induction whole os s rule: replay.induct) (auto split: prod.splits)

lemma replay_result: "(i, r) \<in> set (fst (replay whole os s)) \<Longrightarrow> \<exists>a s'. r = fst (whole a s')"
proof (induction whole os s rule: replay.induct)
  case (2 whole j a os s)
  obtain r1 s1 where r1: "whole a s = (r1, s1)" by fastforce
  then have "\<exists>a s'. r1 = fst (whole a s')" by (metis fst_conv)
  with 2 r1 show ?case by (auto split: prod.splits)
qed simp

text \<open>
  What holds in every interleaving: the calls that have returned did so with the results of the
  sequence, the lock is held by the call inside, and the object is where the sequence leads, or
  will be when the call inside has run to its end.
\<close>

definition linear ::
    "('a, 'p, 'r, 's) method_code \<Rightarrow> ('a \<Rightarrow> 's \<Rightarrow> 'r \<times> 's) \<Rightarrow> 's \<Rightarrow> ('a, 'p, 'r, 's) guarded \<Rightarrow> bool" where
  "linear M whole s0 c \<longleftrightarrow>
     distinct (map fst (order c))
     \<and> (\<forall>i a. threads c i \<in> {None, Some (Fast a), Some (Slow a)} \<longrightarrow> i \<notin> fst ` set (order c))
     \<and> (\<forall>i r. threads c i = Some (Returned r) \<longrightarrow> (i, r) \<in> set (fst (replay whole (order c) s0)))
     \<and> (\<forall>i p. threads c i = Some (Inside p) \<longrightarrow> holder c = Some i)
     \<and> (case holder c of
          None \<Rightarrow> shared c = snd (replay whole (order c) s0)
        | Some i \<Rightarrow> \<exists>os a p. order c = os @ [(i, a)] \<and> threads c i = Some (Inside p)
            \<and> (let x = whole a (snd (replay whole os s0)) in executes M p (shared c) (fst x) (snd x)))"

locale guarded_object =
  fixes M :: "('a, 'p, 'r, 's) method_code" and whole :: "'a \<Rightarrow> 's \<Rightarrow> 'r \<times> 's"
  assumes look_whole: "look M a s = Some r \<Longrightarrow> whole a s = (r, s)"
    and section_whole: "executes M (enter M a) s (fst (whole a s)) (snd (whole a s))"
begin

lemma linear_idle: "linear M whole s (idle s)"
  by (simp add: linear_def idle_def)

lemma linear_step: "mstep M c c' \<Longrightarrow> linear M whole s0 c \<Longrightarrow> linear M whole s0 c'"
proof (induction rule: mstep.induct)
  case (call c i a)
  then show ?case
    by (auto simp: linear_def split: option.splits if_splits)
next
  case (hit c i a r)
  then show ?case
    by (auto simp: linear_def replay_snoc look_whole split: prod.splits)
next
  case (miss c i a)
  then show ?case
    by (auto simp: linear_def split: option.splits)
next
  case (lock c i a)
  then show ?case
    by (auto simp: linear_def replay_snoc section_whole split: prod.splits)
next
  case (inside c i p s p')
  then have i: "holder c = Some i" by (simp add: linear_def)
  from inside have "distinct (map fst (order c))"
    and "\<forall>j a. threads c j \<in> {None, Some (Fast a), Some (Slow a)} \<longrightarrow> j \<notin> fst ` set (order c)"
    and "\<forall>j r. threads c j = Some (Returned r) \<longrightarrow> (j, r) \<in> set (fst (replay whole (order c) s0))"
    and "\<forall>j p. threads c j = Some (Inside p) \<longrightarrow> holder c = Some j"
    by (simp_all add: linear_def)
  moreover from inside i obtain os a where "order c = os @ [(i, a)]"
    and "executes M p (shared c) (fst (whole a (snd (replay whole os s0)))) (snd (whole a (snd (replay whole os s0))))"
    by (auto simp: linear_def Let_def)
  ultimately show ?case
    using i inside(1,2) by (simp add: linear_def Let_def executes_iff [of M p])
next
  case (leave c i p s r)
  then have i: "holder c = Some i" by (simp add: linear_def)
  with leave obtain os a where os: "order c = os @ [(i, a)]"
    and r: "whole a (snd (replay whole os s0)) = (r, s)"
    by (auto simp: linear_def Let_def executes_iff [of M p] prod_eq_iff)
  have final: "replay whole (order c) s0 = (fst (replay whole os s0) @ [(i, r)], s)"
    using r by (cases "replay whole os s0") (simp add: os replay_snoc)
  have alone: "threads c j \<noteq> Some (Inside p')" if "j \<noteq> i" for j p'
    using leave i that by (auto simp: linear_def)
  from leave have "distinct (map fst (order c))"
    and "\<forall>j a. threads c j \<in> {None, Some (Fast a), Some (Slow a)} \<longrightarrow> j \<notin> fst ` set (order c)"
    and "\<forall>j r. threads c j = Some (Returned r) \<longrightarrow> (j, r) \<in> set (fst (replay whole (order c) s0))"
    by (simp_all add: linear_def)
  with alone show ?case
    by (auto simp: linear_def final)
qed

lemma linearizable: "msteps M (idle s) c \<Longrightarrow> linear M whole s c"
  by (induction rule: rtranclp_induct) (auto intro: linear_idle linear_step)

text \<open>
  Linearizability: the calls take effect in one order, which extends as they go and has a call
  only after it was made, and they return what they return one after the other in that order.
\<close>

lemma linearized:
  assumes "msteps M (idle s) c" and "msteps M c c'"
  shows "prefix (order c) (order c') \<and> distinct (map fst (order c'))
    \<and> (\<forall>i. threads c i = None \<longrightarrow> i \<notin> fst ` set (order c))
    \<and> (\<forall>i r. threads c' i = Some (Returned r) \<longrightarrow> (i, r) \<in> set (fst (replay whole (order c') s)))
    \<and> (holder c' = None \<longrightarrow> shared c' = snd (replay whole (order c') s))
    \<and> (\<forall>i j p q. threads c' i = Some (Inside p) \<and> threads c' j = Some (Inside q) \<longrightarrow> i = j)"
proof -
  have "linear M whole s c" and "linear M whole s c'"
    using assms linearizable by (auto intro: rtranclp_trans)
  moreover from this have "i = j" if "threads c' i = Some (Inside p)" and "threads c' j = Some (Inside q)" for i j p q
    using that unfolding linear_def by (metis option.inject)
  ultimately show ?thesis
    using order_grows [OF assms(2)] by (auto simp: linear_def)
qed

lemma returned_result:
  assumes "msteps M (idle s) c" and "threads c i = Some (Returned r)"
  shows "\<exists>a s'. r = fst (whole a s')"
  using assms linearizable [OF assms(1)] replay_result unfolding linear_def by fast

text \<open>The call inside always gets to the end of its section, so every call can return.\<close>

lemma section_ends:
  assumes "executes M p s r s'" and "threads c i = Some (Inside p)" and "shared c = s"
  shows "\<exists>c'. msteps M c c' \<and> threads c' = (threads c)(i \<mapsto> Returned r) \<and> holder c' = None"
  using assms
proof (induction arbitrary: c rule: executes.induct)
  case (last p s s' r)
  with leave [of c i p M s' r] show ?case
    by (intro exI [of _ "c\<lparr>shared := s', holder := None, threads := (threads c)(i \<mapsto> Returned r)\<rparr>"]) auto
next
  case (more p s s1 p1 r s')
  let ?c1 = "c\<lparr>shared := s1, threads := (threads c)(i \<mapsto> Inside p1)\<rparr>"
  have "threads ?c1 i = Some (Inside p1)" and "shared ?c1 = s1" by simp_all
  from more.IH [OF this] obtain c'
    where "msteps M ?c1 c'" "threads c' = (threads ?c1)(i \<mapsto> Returned r)" "holder c' = None" by blast
  with inside [of c i p M s1 p1] more show ?case
    by (intro exI [of _ c']) (auto intro: converse_rtranclp_into_rtranclp)
qed

lemma lock_released:
  assumes "linear M whole s c"
  obtains c1 where "msteps M c c1" and "holder c1 = None"
    and "\<And>i t. threads c i = Some t \<Longrightarrow> threads c1 i = Some t \<or> (\<exists>r. threads c1 i = Some (Returned r))"
proof (cases "holder c")
  case (Some j)
  with assms obtain a os p where "threads c j = Some (Inside p)"
    and "executes M p (shared c) (fst (whole a (snd (replay whole os s)))) (snd (whole a (snd (replay whole os s))))"
    by (auto simp: linear_def Let_def)
  from section_ends [OF this(2,1) refl] that show ?thesis by fastforce
qed (use that in auto)

lemma slow_returns:
  assumes "threads c i = Some (Slow a)" and "holder c = None"
  shows "\<exists>c' r. msteps M c c' \<and> threads c' i = Some (Returned r)"
proof -
  let ?c1 = "c\<lparr>holder := Some i, threads := (threads c)(i \<mapsto> Inside (enter M a)), order := order c @ [(i, a)]\<rparr>"
  from section_ends [OF section_whole [of a "shared c"], of ?c1 i] obtain c' r
    where "msteps M ?c1 c'" "threads c' i = Some (Returned r)" by auto
  with lock [OF assms] show ?thesis by (meson converse_rtranclp_into_rtranclp)
qed

lemma call_can_return:
  assumes "msteps M (idle s) c" and "threads c i = Some t"
  shows "\<exists>c' r. msteps M c c' \<and> threads c' i = Some (Returned r)"
proof -
  obtain c1 where c1: "msteps M c c1" "holder c1 = None"
    and t: "threads c1 i = Some t \<or> (\<exists>r. threads c1 i = Some (Returned r))"
    using lock_released [OF linearizable [OF assms(1)]] assms(2) by metis
  have "linear M whole s c1"
    using rtranclp_trans [OF assms(1) c1(1)] by (rule linearizable)
  then have out: "threads c1 i \<noteq> Some (Inside p)" for p
    using c1(2) by (auto simp: linear_def)
  have "\<exists>c' r. msteps M c1 c' \<and> threads c' i = Some (Returned r)"
  proof (cases "threads c1 i")
    case (Some t')
    show ?thesis
    proof (cases t')
      case (Fast a)
      show ?thesis
      proof (cases "look M a (shared c1)")
        case None
        let ?c2 = "c1\<lparr>threads := (threads c1)(i \<mapsto> Slow a)\<rparr>"
        from slow_returns [of ?c2 i a] c1(2) obtain c' r
          where "msteps M ?c2 c'" "threads c' i = Some (Returned r)" by auto
        with miss [of c1 i a M] Some Fast c1(2) None show ?thesis
          by (meson converse_rtranclp_into_rtranclp)
      next
        case (Some r)
        with hit [of c1 i a M r] \<open>threads c1 i = Some t'\<close> Fast c1(2) show ?thesis
          by (intro exI [of _ "c1\<lparr>threads := (threads c1)(i \<mapsto> Returned r), order := order c1 @ [(i, a)]\<rparr>"]
              exI [of _ r]) auto
      qed
    next
      case (Slow a)
      with slow_returns [of c1 i a] Some c1(2) show ?thesis by auto
    qed (use Some out in auto)
  qed (use t in auto)
  with c1(1) show ?thesis by (meson rtranclp_trans)
qed

end

end
