(* ===== verification/Token_Concurrency.thy ===== *)
theory Token_Concurrency
  imports OAuth_Config Go_Mutex
begin

text \<open>
  Concurrent calls of \<open>Token\<close>. rclone transfers several files at a time, and every request of
  every transfer asks its provider for a token. The OAuth sources of all remotes share one mutex,
  because the service rotates refresh tokens; a \<open>pkudistTokenProvider\<close> has one of its own. The
  code between locking and unlocking is given here step by step, and shown to amount to the
  providers as they are modelled for one call.
\<close>

section \<open>The OAuth sources\<close>

text \<open>A call names its source; \<open>Q k\<close> is the source \<open>k\<close>, and the sources share their state.\<close>

datatype oauth_point = Expire nat | Fetch nat

definition oauth_work ::
    "(nat \<Rightarrow> 's oauth_env) \<Rightarrow> oauth_point \<Rightarrow> 's \<Rightarrow> 's \<times> (oauth_point + (goerr + string))" where
  "oauth_work Q p s =
     (case p of
        Expire k \<Rightarrow>
          (case source_expire (Q k) s of
             (Some e, s') \<Rightarrow> (s', Inr (Inl e))
           | (None, s') \<Rightarrow> (s', Inl (Fetch k)))
      | Fetch k \<Rightarrow> (case source_token (Q k) s of (r, s') \<Rightarrow> (s', Inr r)))"

definition oauth_code ::
    "(nat \<Rightarrow> 's oauth_env) \<Rightarrow> (nat \<times> bool, oauth_point, goerr + string, 's) method_code" where
  "oauth_code Q =
     \<lparr>looks = (\<lambda>a. False), look = (\<lambda>a s. None),
      enter = (\<lambda>(k, refresh). if refresh then Expire k else Fetch k), work = oauth_work Q\<rparr>"

definition oauth_call :: "(nat \<Rightarrow> 's oauth_env) \<Rightarrow> nat \<times> bool \<Rightarrow> 's \<Rightarrow> (goerr + string) \<times> 's" where
  "oauth_call Q = (\<lambda>(k, refresh). oauthToken (Q k) refresh)"

interpretation oauth: guarded_object "oauth_code Q" "oauth_call Q" for Q :: "nat \<Rightarrow> 's oauth_env"
  by unfold_locales
    (auto simp: oauth_code_def oauth_call_def oauthToken_def executes_iff oauth_work_def
      split: prod.split option.split)

section \<open>The desktop client's token\<close>

datatype pkudist_point = Recheck bool | Read | Store string

definition pkudist_work ::
    "'s host \<Rightarrow> 's env \<Rightarrow> pkudist_point \<Rightarrow> pkudistTokenProvider \<times> 's world \<Rightarrow>
       (pkudistTokenProvider \<times> 's world) \<times> (pkudist_point + (goerr + string))" where
  "pkudist_work H E pt = (\<lambda>(p, w).
     case pt of
       Recheck refresh \<Rightarrow>
         if pt_token p \<noteq> [] \<and> \<not> refresh then ((p, w), Inr (Inr (pt_token p))) else ((p, w), Inl Read)
     | Read \<Rightarrow>
         (case readPkudistAccessToken H E (pt_levelDBPath p) w of
            (Inl e, w') \<Rightarrow> ((p, w'), Inr (Inl e))
          | (Inr t, w') \<Rightarrow> ((p, w'), Inl (Store t)))
     | Store t \<Rightarrow> ((p\<lparr>pt_token := t\<rparr>, w), Inr (Inr t)))"

definition pkudist_code ::
    "'s host \<Rightarrow> 's env \<Rightarrow>
       (bool, pkudist_point, goerr + string, pkudistTokenProvider \<times> 's world) method_code" where
  "pkudist_code H E =
     \<lparr>looks = (\<lambda>refresh. \<not> refresh), look = (\<lambda>refresh (p, w). map_option Inr (cached_token p refresh)),
      enter = Recheck, work = pkudist_work H E\<rparr>"

interpretation pkudist_calls: guarded_object "pkudist_code H E" "pkudist_provider H E"
  for H :: "'s host" and E :: "'s env"
  by unfold_locales
    (auto simp: pkudist_code_def pkudist_provider_def pkudistToken_def cached_token_def locked_token_def
      executes_iff pkudist_work_def andThen_def split: prod.split sum.split if_splits)

section \<open>The calls are linearizable\<close>


text \<open>Two calls, the first with a refresh, of which the second waits for the first.\<close>

definition expiring_oauth :: "nat oauth_env" where
  "expiring_oauth =
     \<lparr>redirect_url = [], rand_error = (\<lambda>s. None), rand_byte = (\<lambda>s k. CHR 0x00),
      source_expire = (\<lambda>s. (None, Suc s)), source_token = (\<lambda>s. (Inr (replicate s CHR ''T''), s))\<rparr>"


text \<open>
  C14. Concurrent calls of the desktop client's provider follow each other. The calls take effect
  in one order, as above, and each returns what the provider returns for one call after the
  other; in particular the token that a call returns without the lock is the one of that order.
  No call returns an empty token, and every call can return.
\<close>

theorem pkudist_calls_linearize:
  assumes "msteps (pkudist_code H E) (idle s) c" and "msteps (pkudist_code H E) c c'"
  shows "prefix (order c) (order c') \<and> distinct (map fst (order c'))
    \<and> (\<forall>i. threads c i = None \<longrightarrow> i \<notin> fst ` set (order c))
    \<and> (\<forall>i r. threads c' i = Some (Returned r) \<longrightarrow>
         (i, r) \<in> set (fst (replay (pkudist_provider H E) (order c') s)) \<and> r \<noteq> Inr [])
    \<and> (holder c' = None \<longrightarrow> shared c' = snd (replay (pkudist_provider H E) (order c') s))
    \<and> (\<forall>i t. threads c' i = Some t \<longrightarrow>
         (\<exists>c'' r. msteps (pkudist_code H E) c' c'' \<and> threads c'' i = Some (Returned r)))"
proof -
  have "r \<noteq> Inr []" if returned: "threads c' i = Some (Returned r)" for i r
  proof -
    obtain a s' where "r = fst (pkudist_provider H E a s')"
      using pkudist_calls.returned_result [OF rtranclp_trans [OF assms] returned] by blast
    then show ?thesis
      using pkudist.token_nonempty [of H E a s'] by (metis prod.collapse)
  qed
  then show ?thesis
    using pkudist_calls.linearized [OF assms] pkudist_calls.call_can_return [OF rtranclp_trans [OF assms]] by blast
qed

text \<open>The first call reads the database; a second one, made while it reads, gets the token without the lock.\<close>

theorem pkudist_calls_linearize_witness:
  "\<exists>c. msteps (pkudist_code sample_host sample_env)
       (idle (\<lparr>pt_levelDBPath = ''/db'', pt_token = []\<rparr>, signed_in_world)) c
     \<and> order c = [(0, True), (1, False)]
     \<and> threads c 0 = Some (Returned (Inr ''T'')) \<and> threads c 1 = Some (Returned (Inr ''T''))
     \<and> (1, Inr ''T'') \<in> set (fst (replay (pkudist_provider sample_host sample_env) [(0, True), (1, False)]
         (\<lparr>pt_levelDBPath = ''/db'', pt_token = []\<rparr>, signed_in_world)))"
proof -
  let ?M = "pkudist_code sample_host sample_env" and ?p = "\<lparr>pt_levelDBPath = ''/db'', pt_token = []\<rparr>"
  let ?p' = "?p\<lparr>pt_token := ''T''\<rparr>"
  let ?s = "(?p, signed_in_world)" and ?s' = "(?p', signed_in_world)"
  let ?c = "\<lambda>s h t0 t1 os. \<lparr>shared = s, holder = h,
      threads = [0 \<mapsto> t0, 1 \<mapsto> t1 :: (bool, pkudist_point, goerr + string) thread], order = os\<rparr>"
  have s1: "mstep ?M (idle ?s) ((idle ?s)\<lparr>threads := [0 \<mapsto> Slow True]\<rparr>)"
    using call [of "idle ?s" 0 ?M True] by (simp add: idle_def pkudist_code_def)
  have s2: "mstep ?M ((idle ?s)\<lparr>threads := [0 \<mapsto> Slow True]\<rparr>) (?c ?s None (Slow True) (Fast False) [])"
    using call [of "(idle ?s)\<lparr>threads := [0 \<mapsto> Slow True]\<rparr>" 1 ?M False] by (simp add: idle_def pkudist_code_def)
  have s3: "mstep ?M (?c ?s None (Slow True) (Fast False) []) (?c ?s (Some 0) (Inside (Recheck True)) (Fast False) [(0, True)])"
    using lock [of "?c ?s None (Slow True) (Fast False) []" 0 True ?M] by (simp add: pkudist_code_def fun_upd_twist)
  have s4: "mstep ?M (?c ?s (Some 0) (Inside (Recheck True)) (Fast False) [(0, True)])
      (?c ?s (Some 0) (Inside Read) (Fast False) [(0, True)])"
    using inside [of "?c ?s (Some 0) (Inside (Recheck True)) (Fast False) [(0, True)]" 0 "Recheck True" ?M ?s Read]
    by (simp add: pkudist_code_def pkudist_work_def fun_upd_twist)
  have s5: "mstep ?M (?c ?s (Some 0) (Inside Read) (Fast False) [(0, True)])
      (?c ?s (Some 0) (Inside (Store ''T'')) (Fast False) [(0, True)])"
    using inside [of "?c ?s (Some 0) (Inside Read) (Fast False) [(0, True)]" 0 Read ?M ?s "Store ''T''"]
    by (simp add: pkudist_code_def pkudist_work_def signed_in_reads fun_upd_twist)
  have s6: "mstep ?M (?c ?s (Some 0) (Inside (Store ''T'')) (Fast False) [(0, True)])
      (?c ?s' None (Returned (Inr ''T'')) (Fast False) [(0, True)])"
    using leave [of "?c ?s (Some 0) (Inside (Store ''T'')) (Fast False) [(0, True)]" 0 "Store ''T''" ?M ?s' "Inr ''T''"]
    by (simp add: pkudist_code_def pkudist_work_def fun_upd_twist)
  have s7: "mstep ?M (?c ?s' None (Returned (Inr ''T'')) (Fast False) [(0, True)])
      (?c ?s' None (Returned (Inr ''T'')) (Returned (Inr ''T'')) [(0, True), (1, False)])"
    using hit [of "?c ?s' None (Returned (Inr ''T'')) (Fast False) [(0, True)]" 1 False ?M "Inr ''T''"]
    by (simp add: pkudist_code_def cached_token_def)
  from s1 s2 s3 s4 s5 s6 s7
  have run: "msteps ?M (idle ?s) (?c ?s' None (Returned (Inr ''T'')) (Returned (Inr ''T'')) [(0, True), (1, False)])"
    by (meson r_into_rtranclp rtranclp.rtrancl_into_rtrancl)
  let ?d = "?c ?s' None (Returned (Inr ''T'')) (Returned (Inr ''T'')) [(0, True), (1, False)]"
  have "threads ?d 1 = Some (Returned (Inr ''T''))" by simp
  with pkudist_calls_linearize [OF run rtranclp.rtrancl_refl]
  have "(1, Inr ''T'') \<in> set (fst (replay (pkudist_provider sample_host sample_env) (order ?d) ?s))"
    by blast
  with run show ?thesis
    by (intro exI [of _ ?d]) (simp del: replay.simps)
qed

end
