(* ===== verification/Value_Ranges.thy ===== *)
theory Value_Ranges
  imports Fs_Dirs
begin

text \<open>
  The types of the values that come from the service. The model writes an \<open>int64\<close> as an integer, so
  that it is an obligation to show that every integer which the program reads from JSON, and
  every one it computes from these, is a value of that type. The lemmas follow a value from the
  decoder to the objects that the \<open>Fs\<close> hands out.
\<close>

section \<open>The types\<close>

definition entry_typed :: "apiEntry \<Rightarrow> bool" where
  "entry_typed x \<longleftrightarrow> in_i64 (e_Size x) \<and> in_i64 (e_Modified x) \<and> in_i64 (e_ClientMTime x)"

definition listing_typed :: "directoryListing \<Rightarrow> bool" where
  "listing_typed l \<longleftrightarrow> list_all entry_typed (l_Dirs l) \<and> list_all entry_typed (l_Files l)"

definition metadata_typed :: "fileMetadata \<Rightarrow> bool" where
  "metadata_typed m \<longleftrightarrow> in_i64 (m_Size m) \<and> in_i64 (m_Modified m) \<and> in_i64 (m_ClientMTime m)"

definition time_typed :: "gotime \<Rightarrow> bool" where
  "time_typed t \<longleftrightarrow> (case t of None \<Rightarrow> True | Some n \<Rightarrow> in_i64 n)"

definition object_typed :: "Object \<Rightarrow> bool" where
  "object_typed ob \<longleftrightarrow> in_i64 (o_size ob) \<and> time_typed (o_modTime ob)"

definition dirEntry_typed :: "dirEntry \<Rightarrow> bool" where
  "dirEntry_typed d \<longleftrightarrow> (case d of Directory r t i \<Rightarrow> True | File ob \<Rightarrow> object_typed ob)"

section \<open>Decoding\<close>

lemma ParseInt_typed: "ParseInt s = Some n \<Longrightarrow> in_i64 n"
  by (auto simp: ParseInt_def Let_def split: prod.splits option.splits if_splits)

lemma dec_int_typed: "in_i64 old \<Longrightarrow> in_i64 (fst (dec_int old j))"
  by (auto simp: dec_int_def dest: ParseInt_typed split: json.split option.split)

lemma dec_field_typed:
  assumes "dec_field name dec old kvs = (x, b)" and "P old" and "\<And>x j. P x \<Longrightarrow> P (fst (dec x j))"
  shows "P x"
  using assms
proof (induction name dec old kvs arbitrary: x b rule: dec_field.induct)
  case (2 name dec old k v kvs)
  obtain y c where y: "dec old v = (y, c)" by fastforce
  have "P (fst (dec old v))" using "2.prems"(2,3) by blast
  then have "P y" by (simp add: y)
  show ?case
  proof (cases "EqualFold k name")
    case True
    with "2.prems"(1) y obtain c' where "dec_field name dec y kvs = (x, c')" by (auto split: prod.splits)
    then show ?thesis by (rule "2.IH"(1) [OF True y [symmetric] _ \<open>P y\<close> "2.prems"(3)])
  next
    case False
    with 2 show ?thesis by simp
  qed
qed simp

lemma int_field_typed: "dec_field name dec_int old kvs = (x, b) \<Longrightarrow> in_i64 old \<Longrightarrow> in_i64 x"
  by (rule dec_field_typed [where P = in_i64]) (auto intro: dec_int_typed)

lemma dec_list_typed:
  assumes "list_all P old" and "\<And>j. P (fst (dec zero j))"
  shows "list_all P (fst (dec_list dec zero old j))"
  using assms by (auto simp: dec_list_def list_all_iff split: json.split)

lemma dec_entry_typed: "entry_typed old \<Longrightarrow> entry_typed (fst (dec_entry old j))"
  by (auto simp: dec_entry_def entry_typed_def split: option.split prod.split dest: int_field_typed)

lemma dec_metadata_typed: "metadata_typed old \<Longrightarrow> metadata_typed (fst (dec_metadata old j))"
  by (auto simp: dec_metadata_def metadata_typed_def split: option.split prod.split dest: int_field_typed)

lemma zero_typed [simp]: "entry_typed zero_entry" "metadata_typed zero_metadata" "listing_typed zero_listing"
  by (simp_all add: entry_typed_def zero_entry_def metadata_typed_def zero_metadata_def
      listing_typed_def zero_listing_def)

lemma dec_listing_typed:
  assumes "listing_typed old"
  shows "listing_typed (fst (dec_listing old j))"
proof -
  have entries: "list_all entry_typed es" if "dec_field n (dec_list dec_entry zero_entry) es0 kvs = (es, b)"
    and "list_all entry_typed es0" for n es0 kvs es b
    using that by (rule dec_field_typed) (intro dec_list_typed dec_entry_typed zero_typed)
  show ?thesis
    using assms by (auto simp: dec_listing_def listing_typed_def split: option.split prod.split dest: entries)
qed

lemma parseErrorCode_typed: "in_i64 (parseErrorCode raw)"
  using dec_int_typed [of 0]
  by (auto simp: parseErrorCode_def Sscan_int_def Let_def
      split: option.splits json.splits prod.splits bool.splits if_splits; metis fst_conv in_i64_0)

definition error_typed :: "goerr \<Rightarrow> bool" where
  "error_typed e \<longleftrightarrow> (case as_api e of None \<Rightarrow> True | Some (st, c) \<Rightarrow> in_i64 c)"

lemma parseAPIError_typed: "pred_option error_typed (parseAPIError st data)"
  by (simp add: parseAPIError_def Let_def error_typed_def as_api_def parseErrorCode_typed)

section \<open>The client\<close>

lemma decode_response_typed:
  assumes "decode_response ep dec zero data = Inr x" and "P zero" and "\<And>j. P (fst (dec zero j))"
  shows "P x"
  using assms(1,2) assms(3) by (auto simp: decode_response_def Let_def split: if_splits option.splits prod.splits bool.splits)
    (metis fst_conv)

lemma doJSON_gives:
  assumes "P zero" and "\<And>j. P (fst (dec zero j))"
  shows "gives P (doJSON E dl method ep body dec zero)"
proof -
  have "P x" if "decode_response ep dec zero data = Inr x" for data x
    using that assms by (rule decode_response_typed)
  then show ?thesis
    unfolding doJSON_def by (intro gives_then) (auto simp: gives_def lift_def)
qed

lemma retry_gives:
  assumes "P zero" and "\<And>i. gives P (fn i)"
  shows "gives P (retry_from E attempts zero fn i)"
proof (induction "attempts - i" arbitrary: i rule: less_induct)
  case less
  have next_attempt: "gives P (retry_from E attempts zero fn (i + 1))" if "i < attempts"
    using less that by simp
  show ?case
    unfolding retry_from.simps [of E attempts zero fn i]
    using next_attempt
    by (auto intro!: gives_inspect [OF assms(2)] gives_ok gives_then assms(1) split: sum.split)
qed

lemma read_gives:
  assumes "P zero" and "\<And>j. P (fst (dec zero j))"
  shows "gives P (doJSONWithTransientRetry E method ep body dec zero)"
  unfolding doJSONWithTransientRetry_def retryTransient_def
  by (intro retry_gives doJSON_gives assms)

lemma answers_typed:
  "gives entry_typed (getInfoByPath E p)" "gives listing_typed (listDir E d)" "gives metadata_typed (metadata E d)"
proof -
  show "gives entry_typed (getInfoByPath E p)"
    unfolding getInfoByPath_def by (intro read_gives dec_entry_typed zero_typed)
  show "gives listing_typed (listDir E d)"
    unfolding listDir_def by (intro read_gives dec_listing_typed zero_typed)
  have "gives metadata_typed (doJSONWithTransientRetry E m ep b dec_metadata zero_metadata)" for m ep b
    by (intro read_gives dec_metadata_typed zero_typed)
  then show "gives metadata_typed (metadata E d)"
    unfolding metadata_def
    by (rule gives_andThen) (simp add: gives_ok metadata_typed_def)
qed

lemma fileModTime_typed: "time_typed (parseModifiedMicros t)" "time_typed (fileModTime a b)"
  by (simp_all add: time_typed_def fileModTime_def parseModifiedMicros_def)

lemma upload_gives: "gives metadata_typed (upload E parentID name i rv sz t src)"
  unfolding upload_def uploadSingle_def uploadMultipart_def finishMultipartUpload_def Let_def
  by (intro gives_rules answers_typed)

section \<open>Objects\<close>

text \<open>The times of objects have the announced precision, up to the year 2262.\<close>

lemma fileModTime_precise:
  assumes "fileModTime a b = Some t" and "in_i64 (a * Precision)" and "in_i64 (b * Precision)"
  shows "Precision dvd t"
  using assms by (auto simp: fileModTime_def parseModifiedMicros_def Precision_def split: if_splits)

lemma objectFromEntry_typed: "entry_typed x \<Longrightarrow> object_typed (objectFromEntry f r x)"
  by (simp add: object_typed_def objectFromEntry_def entry_typed_def fileModTime_typed)

lemma found_typed: "list_all entry_typed es \<Longrightarrow> find p es = Some x \<Longrightarrow> entry_typed x"
  by (auto simp: find_Some_iff list_all_length)

lemma NewObject_typed: "gives object_typed (NewObject E f remote)"
proof -
  have byPath: "gives (\<lambda>h. \<forall>ob. h = Some (Inr ob) \<longrightarrow> object_typed ob) (newObjectByPath E f remote)"
    unfolding newObjectByPath_def Let_def
    by (intro gives_if gives_inspect [OF answers_typed(1)] gives_rules)
      (auto intro!: gives_rules objectFromEntry_typed)
  have listing: "gives object_typed (andThen (listDir E d) (\<lambda>listing.
      case find p (l_Files listing) of
        Some item \<Rightarrow> ok (objectFromEntry f remote item)
      | None \<Rightarrow> (case find p (l_Dirs listing) of Some _ \<Rightarrow> throw e | None \<Rightarrow> throw e')))" for d p e e'
    by (rule gives_andThen [OF answers_typed(2)])
      (auto intro!: gives_rules objectFromEntry_typed simp: listing_typed_def dest: found_typed)
  show ?thesis
    unfolding NewObject_def
  proof (rule gives_andThen [OF byPath], rule gives_option)
    show "gives object_typed (lift res)" if "\<forall>ob. h = Some (Inr ob) \<longrightarrow> object_typed ob" and "h = Some res" for h res
      using that by (auto simp: gives_def lift_def)
  qed (auto simp: Let_def intro!: gives_prod gives_inspected gives_sum gives_if gives_throw listing)
qed

lemma Update_typed:
  assumes "in_i64 (src_modTime src)"
  shows "gives object_typed (Update E ob bs src opts)"
proof -
  have "object_typed (updated_object ob src meta)" if "metadata_typed meta" for meta
    using that assms fileModTime_typed(2) [of "m_ClientMTime meta" "m_Modified meta"]
    by (auto simp: updated_object_def Let_def object_typed_def metadata_typed_def time_typed_def split: option.split)
  then show ?thesis
    unfolding Update_def Let_def
    by (intro gives_rules gives_inspect [OF upload_gives]) (auto intro!: gives_rules)
qed

lemma ListDir_typed: "gives (list_all dirEntry_typed) (ListDir E f dir)"
proof -
  have "list_all dirEntry_typed (map (library_entry dir) libs)" for libs
    by (simp add: list_all_iff library_entry_def dirEntry_typed_def)
  moreover have "list_all dirEntry_typed (map (directory_entry E dir) (l_Dirs l) @ map (file_entry E f dir) (l_Files l))"
    if "listing_typed l" for l
    using that
    by (auto simp: list_all_iff listing_typed_def directory_entry_def file_entry_def dirEntry_typed_def
        intro!: objectFromEntry_typed)
  ultimately show ?thesis
    unfolding ListDir_def
    by (intro gives_then gives_if gives_andThen [OF answers_typed(2)] gives_ok) auto
qed



end
