(* ===== verification/Spec2Isabelle.thy ===== *)
theory Spec2Isabelle
  imports Api_Contract Chunk_Writer_Open Chunk_Writer_Progress Fs_Commands New_Fs Object_Http Registration
    Token_Concurrency Value_Ranges
begin

text \<open>
  A model of the PKU Disk backend for rclone (\<open>src/backend/pkudisk/\<close> and \<open>src/rclone.go\<close>) and
  the theorems about it. The backend lets rclone read and write the AnyShare service of Peking
  University: an API client with bearer tokens, a file system on top of it, uploads to the
  object storage through signed requests, and chunked uploads that can be resumed.

  \<^bold>\<open>How the program is modelled.\<close> An operation of the backend is an \<open>act\<close>: a function from the
  world to an error or a result and the world after it (\<open>Go_Runtime\<close>). The world has the local
  files, the list of the HTTP requests sent so far and the state of everything outside. Go's
  errors are the values of \<open>goerr\<close>, so every error return is a branch; \<open>errors.Is\<close> and
  \<open>errors.As\<close> walk them as in Go, and a panic is an error value of its own. A Go string is a byte
  string, an \<open>int64\<close> is an integer with its wrap-around written out by \<open>i64\<close>, and the LevelDB
  reader uses 64-bit words. What the repository calls but does not contain is a parameter:
  the record \<open>env\<close> holds the HTTP client, the token source, rclone's directory cache and filename
  encoder, the file operations that may fail, the lock of the resume file and SHA-256; \<open>host\<close>
  holds the operating system's view of the desktop client's database and the LevelDB library;
  \<open>oauth_env\<close> holds rclone's OAuth token source. \<open>dircache_frame\<close> states what is relied on of the
  directory cache. \<open>Sample_Service\<close> is a concrete setting in which all witnesses run.

  \<^bold>\<open>The standard library.\<close> \<open>Go_Prelude\<close> and \<open>Go_Text\<close> (strings, paths, numbers), \<open>Go_Json\<close>
  (reading JSON, \<open>http.StatusText\<close>, \<open>fmt.Sscan\<close>), \<open>Json_Render\<close> (writing JSON), \<open>Go_Time\<close>.
  \<open>Go_Runtime\<close> ends with four small calculi that the proofs use throughout: \<open>runs\<close> and \<open>sends\<close>
  (what an operation sends), \<open>gives\<close> (what it returns) and \<open>leads\<close> (what it does to the world).

  \<^bold>\<open>The components\<close>, in the order of the imports:

  \<^item> \<open>Api_Types\<close>, \<open>Api_Client\<close> (\<open>api.go\<close>): the service's JSON, its errors and their
    classification, \<open>doWithClient\<close>, the bounded retry, every API operation. \<open>Api_Contract\<close> shows
    how often a request can be sent.
  \<^item> \<open>Fs_Core\<close>, \<open>Point_Lookup\<close>, \<open>Fs_Objects\<close>, \<open>Fs_Dirs\<close>, \<open>Fs_Commands\<close>, \<open>New_Fs\<close> (\<open>pkudisk.go\<close>,
    \<open>point_lookup.go\<close>, \<open>rclone.go\<close>): the records \<open>Fs\<close> and \<open>Object\<close>, look-ups by path and through
    the directory cache, \<open>NewObject\<close>, \<open>Open\<close>, \<open>Put\<close>, \<open>Update\<close>, \<open>Remove\<close>, \<open>Metadata\<close>, \<open>List\<close>,
    \<open>Mkdir\<close>, \<open>Rmdir\<close>, \<open>Purge\<close>, \<open>Copy\<close>, \<open>Move\<close>, \<open>DirMove\<close>, the three backend commands, and
    \<open>NewFs\<close>. The lemmas say which requests each of them may send, and after which checks.
  \<^item> \<open>Sync_Preconditions\<close> (\<open>pkudisk.go\<close>): the preconditions of stateful sync clients, exactly
    which option lists are accepted and what they are checked against.
  \<^item> \<open>Part_Plan\<close>, \<open>Signed_Request\<close>, \<open>Upload\<close> (\<open>upload.go\<close>): the sizes and ranges of parts, the
    signed requests that the service hands out, and the single and multipart uploads with every
    request they send.
  \<^item> \<open>Resume_State\<close>, \<open>Resume_Store\<close> (\<open>multipart_resume.go\<close>): what is persisted of an upload, its
    JSON, its validity, and the locked file it is kept in. The locale \<open>resume_store\<close> is the
    contract of such a store, a simulation of a variable that holds the last saved state; the
    interpretation \<open>filed\<close> shows that the code's file operations, any of which may fail, keep it
    on a platform where a rename replaces the file.
  \<^item> \<open>Chunk_Writer\<close>, \<open>Chunk_Writer_Open\<close>, \<open>Chunk_Writer_Steps\<close>, \<open>Chunk_Writer_Progress\<close>
    (\<open>chunk_writer.go\<close>): \<open>OpenChunkWriter\<close> with the resumption of an earlier session, and the
    methods \<open>WriteChunk\<close>, \<open>Close\<close> and \<open>Abort\<close>, which rclone calls concurrently. \<open>cstep\<close> is one
    step of any of the calls: a section under the mutex, or an operation between two sections.
    The transfer of a part, the requests that finish an upload, and a removal of the resume file
    are one step each; they read no field of the writer that another call can change. The
    sequential methods are shown to be runs of these steps, and the invariants (\<open>conf_ok\<close>,
    \<open>ended\<close>, the validity of the resume state) hold in every interleaving. Progress is shown with
    the invariants: every call returns, and no state that is not ended is a dead end.
  \<^item> \<open>LevelDB_Log\<close>, \<open>LevelDB_Wal\<close>, \<open>Token_Providers\<close> (\<open>auth.go\<close>): the write-ahead log of the
    desktop client's database, its newest mutations, the token in them, and the providers. The
    layout of a log (blocks, fragments, batches) is defined independently of the reader, and
    reading is shown to invert it. The locale \<open>token_provider\<close> is what the API client relies on,
    interpreted on the static provider and on that of the desktop client.
  \<^item> \<open>OAuth_Config\<close> (\<open>oauth.go\<close>): the OAuth provider, the configuration dialogue and the
    registration of a client.
  \<^item> \<open>Object_Http\<close> (\<open>object_http.go\<close>): the certificates and the least TLS version of the connection
    to the object storage, with the pools of certificates in a store, since they are shared by
    reference. \<open>NewFs\<close> gives the transport made there to the API client.
  \<^item> \<open>Go_Mutex\<close>, \<open>Token_Concurrency\<close> (\<open>auth.go\<close>, \<open>oauth.go\<close>): concurrent calls of \<open>Token\<close>. The locale
    \<open>guarded_object\<close> is a method under a mutex that agrees with one that runs alone; it gives that
    calls are linearizable and can all return. It is interpreted on the OAuth sources, which share
    one mutex, and on the provider of the desktop client's token with its double check.
  \<^item> \<open>Value_Ranges\<close>: every integer that comes from the service, and the size and time of every
    object, is a value of \<open>int64\<close>.
  \<^item> \<open>Registration\<close> (\<open>pkudisk.go\<close>, \<open>rclone.go\<close>): what is registered with rclone, compared with what
    the code does; the log filter during the registration; the start of the program.

  \<^bold>\<open>Bounds.\<close> The only fuel is that of \<open>json_parse\<close>, twice the length of the text plus two;
  \<open>parse_fuel_enough\<close> shows that more changes nothing. Every other loop is structural or has a
  termination proof: the retry by the attempts that are left, the log reader by the bytes that
  are left, a batch by the operations that are left. The theorems on part sizes state where they
  need that a sum or product does not overflow (\<open>no_overflow\<close>, \<open>in_i64\<close>); the other arithmetic is
  proved with the wrap-around. A call of the chunk writer makes at most three steps after its
  first (\<open>rank\<close>).

  \<^bold>\<open>Not modelled.\<close> The time-outs of the HTTP clients only configure \<open>net/http\<close>: a request says
  which client sends it. \<open>fs.Register\<close> is a parameter of the registration, and \<open>main\<close> only hands
  over to rclone's command line. Methods of \<open>Fs\<close> and \<open>Object\<close> that return a field (names, sizes,
  IDs) are the selectors of the records; \<open>Hashes\<close>, \<open>Storable\<close> and \<open>Features\<close> are constants of
  rclone. The tables of the LevelDB snapshot are read by the LevelDB library, and \<open>configstruct\<close> is
  rclone's. Operations of an \<open>Fs\<close> other than the chunk writer's methods and \<open>Token\<close> are not
  interleaved: they share only the token and the directory cache, each behind its own mutex. While
  calls of \<open>Token\<close> overlap, the state they read is changed by them only; a desktop client that
  writes its database at the same time is seen by the next reading.
\<close>

end
